(* ===== verification/Clan_Prelude.thy ===== *)
theory Clan_Prelude
  imports Main "HOL-Library.Char_ord" "HOL-Library.List_Lexorder"
begin

text \<open>
  Shared vocabulary of the development.

  Go strings are byte sequences, so they are HOL \<^typ>\<open>string\<close>s (a \<^typ>\<open>char\<close> is one byte) and
  Go's \<open><\<close> on strings is the bytewise lexicographic order of \<open>List_Lexorder\<close>.
  The parts of the packages \<open>strings\<close>, \<open>strconv\<close> and \<open>time\<close> that the sources use are defined
  here: white space as \<open>unicode.IsSpace\<close> has it, trimming, splitting, cutting, decimal
  numerals, the 64-bit wrap-around of \<open>int64\<close>, instants and durations.
  The theory also holds the reachability predicate and the invariant rule that every state
  machine of the development uses, and the keyed-table operations of the SQL layer.
\<close>

named_theorems go_defs \<open>definitions of Go library functions, for unfolding in proofs\<close>
named_theorems inv_defs \<open>component invariants, for unfolding in preservation proofs\<close>

section \<open>Strings\<close>

type_synonym bytes = "char list"

text \<open>
  The UTF-8 encodings of the code points for which \<open>unicode.IsSpace\<close> holds.
  No encoding is a prefix of another one, and a leading byte of one of them never is a
  continuation byte, so matching encodings at the front (or at the back) of a byte string is
  decoding runes there.
\<close>

definition space_encodings :: "string list" where
  "space_encodings =
    [[CHR 0x20], [CHR 0x09], [CHR 0x0A], [CHR 0x0B], [CHR 0x0C], [CHR 0x0D],
     [CHR 0xC2, CHR 0x85], [CHR 0xC2, CHR 0xA0], [CHR 0xE1, CHR 0x9A, CHR 0x80],
     [CHR 0xE2, CHR 0x80, CHR 0x80], [CHR 0xE2, CHR 0x80, CHR 0x81], [CHR 0xE2, CHR 0x80, CHR 0x82],
     [CHR 0xE2, CHR 0x80, CHR 0x83], [CHR 0xE2, CHR 0x80, CHR 0x84], [CHR 0xE2, CHR 0x80, CHR 0x85],
     [CHR 0xE2, CHR 0x80, CHR 0x86], [CHR 0xE2, CHR 0x80, CHR 0x87], [CHR 0xE2, CHR 0x80, CHR 0x88],
     [CHR 0xE2, CHR 0x80, CHR 0x89], [CHR 0xE2, CHR 0x80, CHR 0x8A], [CHR 0xE2, CHR 0x80, CHR 0xA8],
     [CHR 0xE2, CHR 0x80, CHR 0xA9], [CHR 0xE2, CHR 0x80, CHR 0xAF], [CHR 0xE2, CHR 0x81, CHR 0x9F],
     [CHR 0xE3, CHR 0x80, CHR 0x80]]"

definition head_match :: "string list \<Rightarrow> string \<Rightarrow> string option" where
  "head_match encs s = find (\<lambda>e. e \<noteq> [] \<and> take (length e) s = e) encs"

lemma head_match_Some:
  assumes "head_match encs s = Some e"
  shows "e \<noteq> []" and "e \<in> set encs" and "s = e @ drop (length e) s" and "s \<noteq> []"
proof -
  from assms have *: "e \<noteq> [] \<and> take (length e) s = e" and "e \<in> set encs"
    by (auto simp: head_match_def find_Some_iff)
  then show "e \<noteq> []" and "e \<in> set encs" by auto
  from * show "s = e @ drop (length e) s" by (metis append_take_drop_id)
  with * show "s \<noteq> []" by auto
qed

function trim_front :: "string list \<Rightarrow> string \<Rightarrow> string" where
  "trim_front encs s =
     (case head_match encs s of None \<Rightarrow> s | Some e \<Rightarrow> trim_front encs (drop (length e) s))"
  by pat_completeness auto
termination
proof (relation "measure (\<lambda>(_, s). length s)")
  fix encs s e
  assume "head_match encs s = Some e"
  then have "e \<noteq> []" and "s \<noteq> []" by (auto dest: head_match_Some)
  then show "((encs, drop (length e) s), (encs, s)) \<in> measure (\<lambda>(_, s). length s)"
    by auto
qed simp

declare trim_front.simps [simp del]

definition TrimSpace :: "string \<Rightarrow> string" where
  "TrimSpace s = rev (trim_front (map rev space_encodings) (rev (trim_front space_encodings s)))"

text \<open>\<open>strings.TrimSpace(s) == ""\<close>, the test every constructor of the program applies.\<close>

definition blank :: "string \<Rightarrow> bool" where
  "blank s \<longleftrightarrow> TrimSpace s = []"

lemma trim_front_Nil [simp]: "trim_front encs [] = []"
  by (subst trim_front.simps) (auto simp: head_match_def find_Some_iff split: option.splits)

lemma blank_Nil [simp]: "blank []"
  by (simp add: blank_def TrimSpace_def)

lemma trim_front_printable:
  assumes "32 < (of_char c :: nat)" and "(of_char c :: nat) < 128"
  shows "trim_front space_encodings (c # cs) = c # cs"
proof -
  have hd: "\<forall>e \<in> set space_encodings. (of_char (hd e) :: nat) \<le> 32 \<or> (of_char (hd e) :: nat) \<ge> 128"
    by (simp add: space_encodings_def)
  have "head_match space_encodings (c # cs) = None"
  proof (rule ccontr)
    assume "head_match space_encodings (c # cs) \<noteq> None"
    then obtain e where e: "head_match space_encodings (c # cs) = Some e" by auto
    from head_match_Some(1,2,3) [OF e] have "hd e = c" and "e \<in> set space_encodings"
      by (metis hd_append2 list.sel(1), simp)
    with hd assms show False by fastforce
  qed
  then show ?thesis by (subst trim_front.simps) simp
qed

lemma trim_front_shortens: "length (trim_front encs s) \<le> length s"
proof (induction encs s rule: trim_front.induct)
  case (1 encs s)
  show ?case
  proof (cases "head_match encs s")
    case None
    then show ?thesis by (subst trim_front.simps) simp
  next
    case (Some e)
    from "1.IH" [OF Some] have "length (trim_front encs (drop (length e) s)) \<le> length s"
      by simp
    with Some show ?thesis by (subst trim_front.simps) simp
  qed
qed

definition HasPrefix :: "string \<Rightarrow> string \<Rightarrow> bool" where
  "HasPrefix s p \<longleftrightarrow> take (length p) s = p"

definition HasSuffix :: "string \<Rightarrow> string \<Rightarrow> bool" where
  "HasSuffix s p \<longleftrightarrow> length p \<le> length s \<and> drop (length s - length p) s = p"

definition TrimPrefix :: "string \<Rightarrow> string \<Rightarrow> string" where
  "TrimPrefix s p = (if HasPrefix s p then drop (length p) s else s)"

text \<open>\<open>strings.Trim\<close> with a cutset of ASCII bytes.\<close>

definition TrimSet :: "string \<Rightarrow> string \<Rightarrow> string" where
  "TrimSet s cutset = rev (dropWhile (\<lambda>c. c \<in> set cutset) (rev (dropWhile (\<lambda>c. c \<in> set cutset) s)))"

definition ContainsAny :: "string \<Rightarrow> string \<Rightarrow> bool" where
  "ContainsAny s cutset \<longleftrightarrow> list_ex (\<lambda>c. c \<in> set cutset) s"

text \<open>\<open>strings.Cut\<close> at a one-byte separator: before, after, found.\<close>

definition Cut :: "string \<Rightarrow> char \<Rightarrow> string \<times> string \<times> bool" where
  "Cut s sep =
     (let before = takeWhile (\<lambda>c. c \<noteq> sep) s; rest = dropWhile (\<lambda>c. c \<noteq> sep) s
      in case rest of [] \<Rightarrow> (s, [], False) | _ # after \<Rightarrow> (before, after, True))"

text \<open>\<open>strings.Split\<close> at a one-byte separator.\<close>

fun Split :: "string \<Rightarrow> char \<Rightarrow> string list" where
  "Split [] sep = [[]]"
| "Split (c # cs) sep =
     (if c = sep then [] # Split cs sep
      else case Split cs sep of [] \<Rightarrow> [[c]] | w # ws \<Rightarrow> (c # w) # ws)"

text \<open>\<open>strings.Fields\<close>: the maximal runs of non-space runes; \<open>cur\<close> is the current run, reversed.\<close>

function fields_from :: "string \<Rightarrow> string \<Rightarrow> string list" where
  "fields_from cur [] = (if cur = [] then [] else [rev cur])"
| "fields_from cur (c # cs) =
     (case head_match space_encodings (c # cs) of
        Some e \<Rightarrow> (if cur = [] then [] else [rev cur]) @ fields_from [] (drop (length e) (c # cs))
      | None \<Rightarrow> fields_from (c # cur) cs)"
  by pat_completeness auto
termination
proof (relation "measure (\<lambda>(_, s). length s)")
  fix cur c cs e
  assume "head_match space_encodings (c # cs) = Some e"
  then have "e \<noteq> []" by (auto dest: head_match_Some)
  then have "drop (length e) (c # cs) = drop (length e - 1) cs" by (cases e) auto
  then have "length (drop (length e) (c # cs)) \<le> length cs" by simp
  then show "(([], drop (length e) (c # cs)), (cur, c # cs)) \<in> measure (\<lambda>(_, s). length s)"
    by simp
qed auto

definition Fields :: "string \<Rightarrow> string list" where
  "Fields s = fields_from [] s"

text \<open>
  ASCII case folding. \<open>strings.EqualFold\<close> also folds the Kelvin sign to \<open>k\<close> and the long s to
  \<open>s\<close>; the sources only compare with \<open>Bearer\<close> and \<open>identity\<close>, which have neither letter, so
  the byte comparison below is the function they call.
\<close>

definition ascii_lower :: "char \<Rightarrow> char" where
  "ascii_lower c = (if 65 \<le> (of_char c :: nat) \<and> (of_char c :: nat) \<le> 90
                    then char_of ((of_char c :: nat) + 32) else c)"

definition EqualFold :: "string \<Rightarrow> string \<Rightarrow> bool" where
  "EqualFold s t \<longleftrightarrow> map ascii_lower s = map ascii_lower t"

lemma ascii_lower_code [code]:
  "ascii_lower c = (if 65 \<le> (of_char c :: int) \<and> (of_char c :: int) \<le> 90 then char_of ((of_char c :: int) + 32) else c)"
proof -
  have n: "(of_char c :: int) = int (of_char c)" by (rule of_nat_of_char [symmetric])
  have "(65 \<le> (of_char c :: int)) = (65 \<le> (of_char c :: nat))" "((of_char c :: int) \<le> 90) = ((of_char c :: nat) \<le> 90)"
    unfolding n by linarith+
  moreover have "(char_of ((of_char c :: int) + 32) :: char) = char_of ((of_char c :: nat) + 32)"
    unfolding n by (metis char_of_nat of_nat_add of_nat_numeral)
  ultimately show ?thesis by (simp add: ascii_lower_def)
qed

lemmas string_defs [go_defs] =
  HasPrefix_def HasSuffix_def TrimPrefix_def TrimSet_def ContainsAny_def Cut_def EqualFold_def

lemma HasPrefix_append [simp]: "HasPrefix (p @ s) p"
  by (simp add: HasPrefix_def)

lemma HasPrefixD: "HasPrefix s p \<Longrightarrow> s = p @ drop (length p) s"
  by (metis HasPrefix_def append_take_drop_id)

section \<open>Numbers\<close>

definition max_int64 :: int where "max_int64 = 2 ^ 63 - 1"
definition min_int64 :: int where "min_int64 = - (2 ^ 63)"
definition max_uint64 :: int where "max_uint64 = 2 ^ 64 - 1"

text \<open>The value an \<open>int64\<close> holds after an operation whose exact result is \<open>x\<close>.\<close>

definition wrap64 :: "int \<Rightarrow> int" where
  "wrap64 x = (x + 2 ^ 63) mod 2 ^ 64 - 2 ^ 63"

lemma wrap64_id: "min_int64 \<le> x \<Longrightarrow> x \<le> max_int64 \<Longrightarrow> wrap64 x = x"
  by (simp add: wrap64_def min_int64_def max_int64_def)

lemma wrap64_range: "min_int64 \<le> wrap64 x \<and> wrap64 x \<le> max_int64"
proof -
  have "0 \<le> (x + 2 ^ 63) mod 2 ^ 64" and "(x + 2 ^ 63) mod 2 ^ 64 < (2 ^ 64 :: int)"
    by simp_all
  then show ?thesis by (simp add: wrap64_def min_int64_def max_int64_def)
qed

definition digit :: "char \<Rightarrow> bool" where
  "digit c \<longleftrightarrow> 48 \<le> (of_char c :: nat) \<and> (of_char c :: nat) \<le> 57"

definition digit_val :: "char \<Rightarrow> int" where
  "digit_val c = int (of_char c :: nat) - 48"

definition dec_val :: "string \<Rightarrow> int" where
  "dec_val s = foldl (\<lambda>n c. 10 * n + digit_val c) 0 s"

datatype num_error = ErrSyntax | ErrRange

text \<open>
  \<open>strconv.ParseUint(s, 10, bits)\<close>. The digits are read from the left and the conversion stops
  with \<open>ErrRange\<close> at the digit where the value passes the maximum, before a later byte that is
  no digit is seen.
\<close>

fun parse_digits :: "int \<Rightarrow> int \<Rightarrow> string \<Rightarrow> num_error + int" where
  "parse_digits maxv n [] = Inr n"
| "parse_digits maxv n (c # cs) =
     (if \<not> digit c then Inl ErrSyntax
      else if 10 * n + digit_val c > maxv then Inl ErrRange
      else parse_digits maxv (10 * n + digit_val c) cs)"

definition ParseUint :: "int \<Rightarrow> string \<Rightarrow> num_error + int" where
  "ParseUint maxv s = (if s = [] then Inl ErrSyntax else parse_digits maxv 0 s)"

text \<open>\<open>strconv.ParseInt(s, 10, 64)\<close>.\<close>

definition ParseInt64 :: "string \<Rightarrow> num_error + int" where
  "ParseInt64 s =
     (case s of [] \<Rightarrow> Inl ErrSyntax
      | c # cs \<Rightarrow>
          (let neg = (c = CHR ''-''); body = (if c = CHR ''-'' \<or> c = CHR ''+'' then cs else s)
           in case ParseUint max_uint64 body of
                Inl e \<Rightarrow> Inl e
              | Inr n \<Rightarrow> (if \<not> neg \<and> n > max_int64 then Inl ErrRange
                          else if neg \<and> n > - min_int64 then Inl ErrRange
                          else Inr (if neg then - n else n))))"

lemma digit_val_range: "digit c \<Longrightarrow> 0 \<le> digit_val c \<and> digit_val c \<le> 9"
  by (auto simp: digit_def digit_val_def)

lemma parse_digits_Inr:
  "parse_digits maxv n s = Inr v \<Longrightarrow> 0 \<le> n \<Longrightarrow> n \<le> maxv \<Longrightarrow>
    list_all digit s \<and> v = foldl (\<lambda>n c. 10 * n + digit_val c) n s \<and> 0 \<le> v \<and> v \<le> maxv"
proof (induction s arbitrary: n)
  case (Cons c cs)
  then show ?case
    using digit_val_range [of c] by (auto split: if_splits)
qed auto

lemma foldl_dec_mono:
  "list_all digit s \<Longrightarrow> 0 \<le> n \<Longrightarrow> n \<le> foldl (\<lambda>n c. 10 * n + digit_val c) n s"
proof (induction s arbitrary: n)
  case (Cons c cs)
  then have "0 \<le> digit_val c" using digit_val_range by auto
  with Cons.prems have step: "n \<le> 10 * n + digit_val c" and "0 \<le> 10 * n + digit_val c" by auto
  with Cons have "10 * n + digit_val c \<le> foldl (\<lambda>n c. 10 * n + digit_val c) (10 * n + digit_val c) cs"
    by auto
  with step show ?case by simp
qed simp

lemma parse_digits_digits:
  "list_all digit s \<Longrightarrow> 0 \<le> n \<Longrightarrow>
    parse_digits maxv n s =
      (if s = [] \<or> foldl (\<lambda>n c. 10 * n + digit_val c) n s \<le> maxv
       then Inr (foldl (\<lambda>n c. 10 * n + digit_val c) n s) else Inl ErrRange)"
proof (induction s arbitrary: n)
  case (Cons c cs)
  then have d: "0 \<le> digit_val c" using digit_val_range by auto
  with Cons.prems have nn: "0 \<le> 10 * n + digit_val c" by auto
  from Cons.prems nn have "10 * n + digit_val c \<le> foldl (\<lambda>n c. 10 * n + digit_val c) (10 * n + digit_val c) cs"
    by (auto intro: foldl_dec_mono)
  with Cons nn show ?case by auto
qed simp

text \<open>Decimal printing of a nonnegative number, as \<open>strconv.FormatInt\<close> does it.\<close>

fun dec_digits :: "nat \<Rightarrow> string" where
  "dec_digits n = (if n < 10 then [char_of (48 + n)] else dec_digits (n div 10) @ [char_of (48 + n mod 10)])"

declare dec_digits.simps [simp del]

definition FormatInt :: "int \<Rightarrow> string" where
  "FormatInt n = (if n < 0 then CHR ''-'' # dec_digits (nat (- n)) else dec_digits (nat n))"

section \<open>Time\<close>

text \<open>
  An instant is the number of nanoseconds since the zero \<open>time.Time\<close> (1 January of year 1, UTC),
  so the zero value is 0. Locations and monotonic readings do not enter any comparison the
  sources make. A \<open>time.Duration\<close> is a number of nanoseconds in an \<open>int64\<close>.
\<close>

type_synonym time = int
type_synonym duration = int

abbreviation Second :: duration where "Second \<equiv> 1000000000"
abbreviation Minute :: duration where "Minute \<equiv> 60 * Second"
abbreviation Hour :: duration where "Hour \<equiv> 3600 * Second"
abbreviation Millisecond :: duration where "Millisecond \<equiv> 1000000"

definition unix_epoch_seconds :: int where "unix_epoch_seconds = 62135596800"

definition time_IsZero :: "time \<Rightarrow> bool" where "time_IsZero t \<longleftrightarrow> t = 0"
definition time_Unix :: "time \<Rightarrow> int" where "time_Unix t = t div Second - unix_epoch_seconds"
definition Unix_time :: "int \<Rightarrow> time" where "Unix_time s = (s + unix_epoch_seconds) * Second"
definition time_UnixMilli :: "time \<Rightarrow> int" where
  "time_UnixMilli t = t div Millisecond - unix_epoch_seconds * 1000"
definition UnixMilli_time :: "int \<Rightarrow> time" where
  "UnixMilli_time n = (n + unix_epoch_seconds * 1000) * Millisecond"

lemmas time_defs [go_defs] =
  time_IsZero_def time_Unix_def Unix_time_def time_UnixMilli_def UnixMilli_time_def unix_epoch_seconds_def

lemma time_Unix_Unix_time [simp]: "time_Unix (Unix_time s) = s"
  by (simp add: time_Unix_def Unix_time_def)

lemma time_UnixMilli_inverse [simp]: "time_UnixMilli (UnixMilli_time n) = n"
  by (simp add: time_UnixMilli_def UnixMilli_time_def)

section \<open>Reachable states\<close>

inductive reachable :: "('s \<Rightarrow> bool) \<Rightarrow> ('s \<Rightarrow> 's \<Rightarrow> bool) \<Rightarrow> 's \<Rightarrow> bool"
  for start step where
  reach_start: "start s \<Longrightarrow> reachable start step s"
| reach_step: "reachable start step s \<Longrightarrow> step s t \<Longrightarrow> reachable start step t"

text \<open>The contract of a state machine whose invariant is kept by every step.\<close>

locale invariant_system =
  fixes start :: "'s \<Rightarrow> bool" and step :: "'s \<Rightarrow> 's \<Rightarrow> bool" and inv :: "'s \<Rightarrow> bool"
  assumes inv_start: "start s \<Longrightarrow> inv s"
    and inv_step: "inv s \<Longrightarrow> step s t \<Longrightarrow> inv t"
begin

lemma inv_reachable: "reachable start step s \<Longrightarrow> inv s"
  by (induction rule: reachable.induct) (auto intro: inv_start inv_step)

lemma inv_steps: "step\<^sup>*\<^sup>* s t \<Longrightarrow> inv s \<Longrightarrow> inv t"
  by (induction rule: rtranclp_induct) (auto intro: inv_step)

end

lemma nth_update_if: "(xs[i := v]) ! j = (if i = j \<and> i < length xs then v else xs ! j)"
  by (cases "i < length xs") (auto simp: nth_list_update_eq list_update_beyond)

section \<open>Keyed tables\<close>

text \<open>
  A table with a primary key is the list of its rows in insertion order. The statements of the
  storage package are lookups, single-row updates and deletions by key.
\<close>

definition tbl_lookup :: "('r \<Rightarrow> 'k) \<Rightarrow> 'k \<Rightarrow> 'r list \<Rightarrow> 'r option" where
  "tbl_lookup key k t = find (\<lambda>r. key r = k) t"

definition tbl_update :: "('r \<Rightarrow> bool) \<Rightarrow> ('r \<Rightarrow> 'r) \<Rightarrow> 'r list \<Rightarrow> 'r list" where
  "tbl_update p f t = map (\<lambda>r. if p r then f r else r) t"

definition tbl_affected :: "('r \<Rightarrow> bool) \<Rightarrow> 'r list \<Rightarrow> nat" where
  "tbl_affected p t = length (filter p t)"

definition tbl_delete :: "('r \<Rightarrow> bool) \<Rightarrow> 'r list \<Rightarrow> 'r list" where
  "tbl_delete p t = filter (\<lambda>r. \<not> p r) t"

definition tbl_keys_unique :: "('r \<Rightarrow> 'k) \<Rightarrow> 'r list \<Rightarrow> bool" where
  "tbl_keys_unique key t \<longleftrightarrow> distinct (map key t)"

locale keyed_update =
  fixes key :: "'r \<Rightarrow> 'k" and f :: "'r \<Rightarrow> 'r"
  assumes key_f [simp]: "key (f r) = key r"
begin

lemma keys_update [simp]: "map key (tbl_update p f t) = map key t"
  by (simp add: tbl_update_def comp_def if_distrib cong: if_cong)

lemma unique_update: "tbl_keys_unique key (tbl_update p f t) = tbl_keys_unique key t"
  by (simp add: tbl_keys_unique_def)

lemma lookup_update:
  "tbl_lookup key k (tbl_update p f t) =
     map_option (\<lambda>r. if p r then f r else r) (tbl_lookup key k t)"
  by (induction t) (auto simp: tbl_lookup_def tbl_update_def)

end

lemma tbl_update_memE:
  assumes "q \<in> set (tbl_update p f t)"
  obtains r where "r \<in> set t" and "p r" and "q = f r" | "q \<in> set t" and "\<not> p q"
  using assms by (auto simp: tbl_update_def split: if_splits)

lemma tbl_lookup_None_iff: "tbl_lookup key k t = None \<longleftrightarrow> k \<notin> key ` set t"
  by (auto simp: tbl_lookup_def find_None_iff)

lemma tbl_lookup_Some: "tbl_lookup key k t = Some r \<Longrightarrow> r \<in> set t \<and> key r = k"
  by (auto simp: tbl_lookup_def find_Some_iff)

lemma tbl_lookup_unique:
  "tbl_keys_unique key t \<Longrightarrow> r \<in> set t \<Longrightarrow> tbl_lookup key (key r) t = Some r"
  by (induction t) (auto simp: tbl_lookup_def tbl_keys_unique_def)

lemma tbl_lookup_append:
  "tbl_lookup key k (t @ [r]) =
     (case tbl_lookup key k t of Some x \<Rightarrow> Some x | None \<Rightarrow> if key r = k then Some r else None)"
  by (induction t) (auto simp: tbl_lookup_def)

lemma tbl_lookup_delete:
  "tbl_lookup key k (tbl_delete (\<lambda>r. key r = j) t) = (if k = j then None else tbl_lookup key k t)"
  by (induction t) (auto simp: tbl_lookup_def tbl_delete_def)

lemma tbl_affected_key:
  "tbl_affected (\<lambda>r. key r = k) t = 0 \<longleftrightarrow> tbl_lookup key k t = None"
  by (auto simp: tbl_affected_def tbl_lookup_None_iff filter_empty_conv)

lemma tbl_unique_delete: "tbl_keys_unique key t \<Longrightarrow> tbl_keys_unique key (tbl_delete p t)"
  by (auto simp: tbl_keys_unique_def tbl_delete_def distinct_map_filter)

lemma tbl_unique_append:
  "tbl_keys_unique key t \<Longrightarrow> tbl_lookup key (key r) t = None \<Longrightarrow> tbl_keys_unique key (t @ [r])"
  by (auto simp: tbl_keys_unique_def tbl_lookup_None_iff)

end
