(* ===== verification/RoundRobin.thy ===== *)
theory RoundRobin
  imports Clan_Prelude
begin

text \<open>
  \<open>internal/selection/round_robin.go\<close>: the account selector. \<open>Select\<close> keeps, per model, the
  last account it chose. The one-pass loop of the source is \<open>select_scan\<close>; the specification
  it refines is \<open>next_after\<close> (the least candidate above the last choice, else the least one).
  The locale \<open>account_selector\<close> states what request execution relies on.
\<close>

section \<open>The selector\<close>

type_synonym account_id = string

record RoundRobin =
  positions :: "string \<rightharpoonup> account_id"

definition NewRoundRobin :: RoundRobin where
  "NewRoundRobin = \<lparr>positions = Map.empty\<rparr>"

text \<open>The loop over the candidates: \<open>prev\<close> is the map entry, then \<open>smallest, next, foundNext\<close>.\<close>

fun select_scan ::
  "account_id option \<Rightarrow> account_id list \<Rightarrow> account_id \<Rightarrow> account_id \<Rightarrow> bool \<Rightarrow> account_id \<times> account_id \<times> bool"
where
  "select_scan prev [] smallest nxt foundNext = (smallest, nxt, foundNext)"
| "select_scan prev (i # ids) smallest nxt foundNext =
     (let smallest' = (if i < smallest then i else smallest);
          better = (case prev of None \<Rightarrow> False | Some l \<Rightarrow> i > l \<and> (\<not> foundNext \<or> i < nxt))
      in if better then select_scan prev ids smallest' i True
         else select_scan prev ids smallest' nxt foundNext)"

definition Select :: "RoundRobin \<Rightarrow> string \<Rightarrow> account_id list \<Rightarrow> RoundRobin \<times> account_id \<times> bool" where
  "Select r model candidates =
     (case candidates of
        [] \<Rightarrow> (r, [], False)
      | first # _ \<Rightarrow>
          (let (smallest, nxt, foundNext) = select_scan (positions r model) candidates first [] False;
               chosen = (if foundNext then nxt else smallest)
           in (r\<lparr>positions := (positions r)(model \<mapsto> chosen)\<rparr>, chosen, True)))"

section \<open>The specification\<close>

definition above :: "account_id option \<Rightarrow> account_id set \<Rightarrow> account_id set" where
  "above prev C = (case prev of None \<Rightarrow> {} | Some l \<Rightarrow> {i \<in> C. l < i})"

definition next_after :: "account_id option \<Rightarrow> account_id set \<Rightarrow> account_id" where
  "next_after prev C = (if above prev C = {} then Min C else Min (above prev C))"

lemma finite_above [simp]: "finite C \<Longrightarrow> finite (above prev C)"
  by (auto simp: above_def split: option.splits)

lemma above_insert:
  "above prev (insert i C) =
     (case prev of None \<Rightarrow> {} | Some l \<Rightarrow> if l < i then insert i (above prev C) else above prev C)"
  by (auto simp: above_def split: option.splits)

lemma above_single: "above prev {i} = (case prev of None \<Rightarrow> {} | Some l \<Rightarrow> if l < i then {i} else {})"
  by (auto simp: above_def split: option.splits)

lemma above_subset: "above prev C \<subseteq> C"
  by (auto simp: above_def split: option.splits)

text \<open>The state of the loop after a prefix with candidate set \<open>C\<close>.\<close>

definition scan_state :: "account_id option \<Rightarrow> account_id set \<Rightarrow> account_id \<Rightarrow> account_id \<Rightarrow> bool \<Rightarrow> bool" where
  "scan_state prev C smallest nxt found \<longleftrightarrow>
     finite C \<and> C \<noteq> {} \<and> smallest = Min C \<and> (found \<longleftrightarrow> above prev C \<noteq> {}) \<and>
     (found \<longrightarrow> nxt = Min (above prev C))"

lemma scan_state_step:
  fixes i :: account_id
  assumes "scan_state prev C smallest nxt found"
  defines "better \<equiv> (case prev of None \<Rightarrow> False | Some l \<Rightarrow> i > l \<and> (\<not> found \<or> i < nxt))"
  shows "scan_state prev (insert i C) (if i < smallest then i else smallest)
           (if better then i else nxt) (better \<or> found)"
proof -
  have C: "finite C" "C \<noteq> {}" "smallest = Min C" and f: "found \<longleftrightarrow> above prev C \<noteq> {}"
    and n: "found \<Longrightarrow> nxt = Min (above prev C)"
    using assms(1) by (auto simp: scan_state_def)
  have sm: "(if i < smallest then i else smallest) = Min (insert i C)"
    using Min_insert [OF C(1,2), of i] C(3) by (auto simp only: min_def le_less split: if_splits)
  have fin: "finite (above prev C)" using C by simp
  show ?thesis
  proof (cases "prev = None \<or> \<not> the prev < i")
    case True
    then have "\<not> better" and "above prev (insert i C) = above prev C"
      by (auto simp: better_def above_insert above_def split: option.splits)
    with C f n sm show ?thesis by (simp add: scan_state_def)
  next
    case False
    then obtain l where l: "prev = Some l" "l < i" by auto
    then have b: "better = (\<not> found \<or> i < nxt)"
      and ab: "above prev (insert i C) = insert i (above prev C)"
      by (auto simp: better_def above_insert)
    have "found \<Longrightarrow> Min (insert i (above prev C)) = min i nxt"
      using Min_insert [OF fin, of i] f n by simp
    with b ab C f sm show ?thesis
      by (cases found) (simp_all add: scan_state_def min_def not_le order.strict_iff_order)
  qed
qed

lemma select_scan_correct:
  "scan_state prev C smallest nxt found \<Longrightarrow>
    select_scan prev ids smallest nxt found = (s, x, g) \<Longrightarrow> scan_state prev (C \<union> set ids) s x g"
proof (induction ids arbitrary: C smallest nxt found)
  case (Cons i ids)
  let ?b = "case prev of None \<Rightarrow> False | Some l \<Rightarrow> i > l \<and> (\<not> found \<or> i < nxt)"
  have "select_scan prev ids (if i < smallest then i else smallest) (if ?b then i else nxt) (?b \<or> found) = (s, x, g)"
    using Cons.prems(2) by (cases ?b) (simp_all add: Let_def)
  from Cons.IH [OF scan_state_step [OF Cons.prems(1)] this] show ?case by simp
qed simp

lemma select_scan_first:
  assumes "select_scan prev (i # ids) i [] False = (s, x, g)"
  shows "scan_state prev (set (i # ids)) s x g"
proof -
  let ?b = "case prev of None \<Rightarrow> False | Some l \<Rightarrow> i > l"
  have "scan_state prev {i} i (if ?b then i else []) ?b"
    by (simp add: scan_state_def above_single split: option.split)
  moreover from assms have "select_scan prev ids i (if ?b then i else []) ?b = (s, x, g)"
    by (auto simp: Let_def split: if_splits option.splits)
  ultimately have "scan_state prev ({i} \<union> set ids) s x g" by (rule select_scan_correct)
  then show ?thesis by simp
qed

lemma Select_next_after:
  assumes "candidates \<noteq> []"
  shows "Select r model candidates =
    (r\<lparr>positions := (positions r)(model \<mapsto> next_after (positions r model) (set candidates))\<rparr>,
     next_after (positions r model) (set candidates), True)"
proof -
  from assms obtain i ids where c: "candidates = i # ids" by (cases candidates) auto
  obtain s x g where e: "select_scan (positions r model) (i # ids) i [] False = (s, x, g)"
    by (metis prod_cases3)
  from select_scan_first [OF e]
  have "(if g then x else s) = next_after (positions r model) (set candidates)"
    by (auto simp: c scan_state_def next_after_def)
  then show ?thesis by (simp add: Select_def c e Let_def del: select_scan.simps)
qed

lemma next_after_in: "finite C \<Longrightarrow> C \<noteq> {} \<Longrightarrow> next_after prev C \<in> C"
proof (cases "above prev C = {}")
  case False
  assume "finite C" "C \<noteq> {}"
  with False have "Min (above prev C) \<in> above prev C" by (intro Min_in) simp_all
  with False above_subset [of prev C] show ?thesis by (auto simp: next_after_def)
qed (simp add: next_after_def)

text \<open>
  C18. \<open>Select\<close> returns the smallest candidate ID above the last choice for the model, wrapping
  to the smallest ID, records that choice for this model only, and leaves the selector alone
  when there is no candidate.
\<close>

theorem Select_refines_next_after:
  "Select r model candidates =
     (if candidates = [] then (r, [], False)
      else let c = next_after (positions r model) (set candidates)
           in (r\<lparr>positions := (positions r)(model \<mapsto> c)\<rparr>, c, True))"
  using Select_next_after by (simp add: Let_def Select_def)

section \<open>Fairness\<close>

text \<open>Consecutive selections for one model over an unchanged candidate set.\<close>

fun select_run :: "RoundRobin \<Rightarrow> string \<Rightarrow> account_id list list \<Rightarrow> account_id list" where
  "select_run r model [] = []"
| "select_run r model (cs # css) =
     (case Select r model cs of (r', i, _) \<Rightarrow> i # select_run r' model css)"

lemma sorted_nth_less_iff:
  assumes "sorted_wrt (<) (xs :: 'a :: linorder list)" "i < length xs" "j < length xs"
  shows "xs ! i < xs ! j \<longleftrightarrow> i < j"
  using assms sorted_wrt_nth_less [OF assms(1), of i j] sorted_wrt_nth_less [OF assms(1), of j i]
  by (metis linorder_neqE_nat order_less_asym order_less_irrefl)

lemma sorted_nth_le:
  assumes "sorted_wrt (<) (xs :: 'a :: linorder list)" "i \<le> j" "j < length xs"
  shows "xs ! i \<le> xs ! j"
  using assms sorted_wrt_nth_less [OF assms(1), of i j] by (cases "i = j") auto

lemma above_sorted:
  assumes "sorted_wrt (<) xs" and "i < length xs"
  shows "above (Some (xs ! i)) (set xs) = (!) xs ` {Suc i..<length xs}"
proof (intro set_eqI iffI)
  fix x assume "x \<in> above (Some (xs ! i)) (set xs)"
  then obtain j where "j < length xs" "x = xs ! j" "xs ! i < xs ! j"
    by (auto simp: above_def in_set_conv_nth)
  with assms sorted_nth_less_iff [OF assms(1), of i j] show "x \<in> (!) xs ` {Suc i..<length xs}" by auto
next
  fix x assume "x \<in> (!) xs ` {Suc i..<length xs}"
  with assms sorted_nth_less_iff [OF assms] show "x \<in> above (Some (xs ! i)) (set xs)"
    by (auto simp: above_def)
qed

lemma next_after_sorted:
  assumes "sorted_wrt (<) xs" and "i < length xs"
  shows "next_after (Some (xs ! i)) (set xs) = xs ! (Suc i mod length xs)"
proof (cases "Suc i < length xs")
  case True
  have "Min ((!) xs ` {Suc i..<length xs}) = xs ! Suc i"
    using True by (intro Min_eqI) (auto intro: sorted_nth_le [OF assms(1)])
  with True show ?thesis by (simp add: next_after_def above_sorted [OF assms])
next
  case False
  with assms(2) have i: "Suc i = length xs" by simp
  have "xs ! 0 \<in> set xs" by (rule nth_mem) (use assms(2) in linarith)
  moreover have "\<And>x. x \<in> set xs \<Longrightarrow> xs ! 0 \<le> x"
    by (auto simp: in_set_conv_nth [of _ xs] intro: sorted_nth_le [OF assms(1)])
  ultimately have "Min (set xs) = xs ! 0" by (intro Min_eqI) auto
  with i show ?thesis by (simp add: next_after_def above_sorted [OF assms])
qed

lemma select_run_cycle:
  assumes "sorted_wrt (<) xs" and "i < length xs"
    and "positions r model = Some (xs ! i)"
    and "\<forall>cs \<in> set css. set cs = set xs"
  shows "select_run r model css = map (\<lambda>k. xs ! ((i + Suc k) mod length xs)) [0..<length css]"
  using assms(2-4)
proof (induction css arbitrary: r i)
  case (Cons cs css)
  let ?j = "Suc i mod length xs"
  have ne: "xs \<noteq> []" using Cons.prems by auto
  then have cs: "cs \<noteq> []" "set cs = set xs" using Cons.prems(3) by auto
  have sel: "Select r model cs = (r\<lparr>positions := (positions r)(model \<mapsto> xs ! ?j)\<rparr>, xs ! ?j, True)"
    using Select_next_after [OF cs(1), of r model] next_after_sorted [OF assms(1) Cons.prems(1)] cs
    by (simp add: Cons.prems(2))
  have j: "?j < length xs" using ne by simp
  have "select_run (r\<lparr>positions := (positions r)(model \<mapsto> xs ! ?j)\<rparr>) model css =
      map (\<lambda>k. xs ! ((?j + Suc k) mod length xs)) [0..<length css]"
    by (rule Cons.IH [OF j]) (use Cons.prems(3) in auto)
  also have "\<dots> = map (\<lambda>k. xs ! ((i + Suc (Suc k)) mod length xs)) [0..<length css]"
  proof (rule map_cong [OF refl])
    fix k
    have "(?j + Suc k) mod length xs = (Suc i + Suc k) mod length xs" by (rule mod_add_left_eq)
    then show "xs ! ((?j + Suc k) mod length xs) = xs ! ((i + Suc (Suc k)) mod length xs)" by simp
  qed
  finally show ?case
    by (simp add: sel upt_conv_Cons map_Suc_upt [symmetric] comp_def del: upt_Suc)
qed simp

text \<open>Turning the indices once around the circle is a permutation of them.\<close>

lemma rotation_bij:
  assumes "0 < (n :: nat)"
  shows "distinct (map (\<lambda>k. (i + k) mod n) [0..<n])" "set (map (\<lambda>k. (i + k) mod n) [0..<n]) = {0..<n}"
proof -
  have inj: "inj_on (\<lambda>k. (i + k) mod n) {0..<n}"
  proof (rule inj_onI)
    have *: "a \<ge> b" if "a < n" "b < n" "(i + a) mod n = (i + b) mod n" for a b
    proof (rule ccontr)
      assume "\<not> a \<ge> b"
      with that(3) have "n dvd b - a" using mod_eq_dvd_iff_nat [of "i + a" "i + b" n] by simp
      with \<open>\<not> a \<ge> b\<close> that(2) show False by (auto dest: dvd_imp_le)
    qed
    fix a b assume "a \<in> {0..<n}" "b \<in> {0..<n}" "(i + a) mod n = (i + b) mod n"
    then show "a = b" using * [of a b] * [of b a] by auto
  qed
  then show "distinct (map (\<lambda>k. (i + k) mod n) [0..<n])" by (simp add: distinct_map)
  have "card ((\<lambda>k. (i + k) mod n) ` {0..<n}) = card {0..<n}" by (rule card_image [OF inj])
  moreover have "(\<lambda>k. (i + k) mod n) ` {0..<n} \<subseteq> {0..<n}" using assms by auto
  ultimately show "set (map (\<lambda>k. (i + k) mod n) [0..<n]) = {0..<n}"
    by (simp add: card_subset_eq)
qed

lemma select_run_full_turn:
  assumes "sorted_wrt (<) xs" and "xs \<noteq> []" and "length css = length xs"
    and "\<forall>cs \<in> set css. set cs = set xs"
  shows "\<exists>i. select_run r model css = map (\<lambda>k. xs ! ((i + k) mod length xs)) [0..<length xs]"
proof -
  let ?n = "length xs"
  from assms obtain cs rest where css: "css = cs # rest" by (cases css) auto
  have cs: "cs \<noteq> []" "set cs = set xs" using assms css by auto
  let ?c = "next_after (positions r model) (set cs)"
  let ?r = "r\<lparr>positions := (positions r)(model \<mapsto> ?c)\<rparr>"
  have "?c \<in> set xs" using cs by (metis List.finite_set next_after_in set_empty2)
  then obtain i where i: "i < ?n" "?c = xs ! i" by (auto simp: in_set_conv_nth)
  have "select_run ?r model rest = map (\<lambda>k. xs ! ((i + Suc k) mod ?n)) [0..<length rest]"
    by (rule select_run_cycle [OF assms(1) i(1)]) (use i assms(4) css in auto)
  then have "select_run r model css = xs ! i # map (\<lambda>k. xs ! ((i + Suc k) mod ?n)) [0..<length rest]"
    by (simp add: css Select_next_after [OF cs(1)] i(2))
  also have "\<dots> = map (\<lambda>k. xs ! ((i + k) mod ?n)) [0..<?n]"
  proof -
    have n: "?n = Suc (length rest)" using assms(3) css by simp
    show ?thesis using i(1) unfolding n map_upt_Suc by simp
  qed
  finally show ?thesis ..
qed

text \<open>
  C19. Fairness: as many consecutive selections as there are candidates, over the same candidate
  set in any order and from any earlier position, choose every candidate exactly once.
\<close>

theorem Select_fair:
  assumes "C \<noteq> {}" and "finite C" and "length css = card C" and "\<forall>cs \<in> set css. set cs = C"
  shows "distinct (select_run r model css) \<and> set (select_run r model css) = C"
proof -
  let ?xs = "sorted_list_of_set C"
  have xs: "sorted_wrt (<) ?xs" "set ?xs = C" "length ?xs = card C" "?xs \<noteq> []"
    using assms by (auto simp: strict_sorted_list_of_set)
  have "length css = length ?xs" and "\<forall>cs \<in> set css. set cs = set ?xs"
    using assms(3,4) xs(2,3) by simp_all
  then obtain i where run: "select_run r model css = map (\<lambda>k. ?xs ! ((i + k) mod card C)) [0..<card C]"
    using select_run_full_turn [OF xs(1,4), of css r model] xs(3) by auto
  let ?ks = "map (\<lambda>k. (i + k) mod card C) [0..<card C]"
  have pos: "0 < card C" using assms by (simp add: card_gt_0_iff)
  note rot = rotation_bij [OF pos, of i]
  have "inj_on ((!) ?xs) {0..<card C}"
    using xs by (intro inj_onI) (auto simp: nth_eq_iff_index_eq)
  then have "distinct (map ((!) ?xs) ?ks)"
    using rot by (simp only: distinct_map)
  moreover have "set (map ((!) ?xs) ?ks) = C"
  proof -
    have "set (map ((!) ?xs) ?ks) = (!) ?xs ` {0..<card C}" by (subst set_map) (simp only: rot(2))
    also have "\<dots> = C" using nth_image [of "card C" ?xs] xs(2,3) by simp
    finally show ?thesis .
  qed
  moreover have "select_run r model css = map ((!) ?xs) ?ks"
    unfolding run by simp
  ultimately show ?thesis by simp
qed

theorem Select_fair_witness:
  "distinct (select_run \<lparr>positions = [''m'' \<mapsto> ''b'']\<rparr> ''m'' [[''b'', ''a''], [''a'', ''b'']]) \<and>
   set (select_run \<lparr>positions = [''m'' \<mapsto> ''b'']\<rparr> ''m'' [[''b'', ''a''], [''a'', ''b'']]) = {''a'', ''b''}"
  by (rule Select_fair) auto

section \<open>The interface\<close>

text \<open>What request execution relies on: a choice among the candidates, or none for no candidate.\<close>

locale account_selector =
  fixes select :: "'r \<Rightarrow> string \<Rightarrow> account_id list \<Rightarrow> 'r \<times> account_id \<times> bool"
  assumes select_empty: "select r model [] = (r, [], False)"
    and select_nonempty: "cs \<noteq> [] \<Longrightarrow> \<exists>r' i. select r model cs = (r', i, True) \<and> i \<in> set cs"
begin

lemma select_ok_iff: "snd (snd (select r model cs)) \<longleftrightarrow> cs \<noteq> []"
  using select_empty [of r model] select_nonempty [of cs r model] by (cases "cs = []") auto

lemma select_member: "select r model cs = (r', i, True) \<Longrightarrow> i \<in> set cs"
  using select_empty [of r model] select_nonempty [of cs r model] by (cases "cs = []") auto

lemma select_refused: "select r model cs = (r', i, False) \<Longrightarrow> cs = [] \<and> r' = r"
  using select_empty [of r model] select_nonempty [of cs r model] by (cases "cs = []") auto

end

interpretation rr: account_selector Select
proof unfold_locales
  fix r model show "Select r model [] = (r, [], False)" by (simp add: Select_def)
next
  fix cs :: "account_id list" and r model
  assume "cs \<noteq> []"
  then show "\<exists>r' i. Select r model cs = (r', i, True) \<and> i \<in> set cs"
    by (simp add: Select_next_after next_after_in)
qed

end
