(* ===== verification/Clan_Errors.thy ===== *)
theory Clan_Errors
  imports Clan_Prelude
begin

text \<open>
  Error values. Go code returns sentinel variables, structs that implement \<open>error\<close>, wrapped
  errors (\<open>fmt.Errorf("%w: ...")\<close>) and joined ones (\<open>errors.Join\<close>), and tests them with
  \<open>errors.Is\<close> and \<open>errors.As\<close>, which walk the tree of wrapped errors in depth-first order.
  The datatype \<open>error\<close> has one constructor per shape, \<open>chain\<close> is that walk, and the
  queries below are \<open>errors.Is\<close> and \<open>errors.As\<close> on it.
  The cooldown and failure structs of \<open>internal/retry\<close>, \<open>internal/codex\<close> and
  \<open>internal/codexoauth\<close> are here because errors carry them.
\<close>

section \<open>Cooldowns and failures\<close>

datatype CooldownKind = NoCooldown | RetryAt | RetryBlocked

record Cooldown =
  cd_Kind :: CooldownKind
  cd_Until :: time

definition zero_Cooldown :: Cooldown where
  "zero_Cooldown = \<lparr>cd_Kind = NoCooldown, cd_Until = 0\<rparr>"

definition blocked_Cooldown :: Cooldown where
  "blocked_Cooldown = \<lparr>cd_Kind = RetryBlocked, cd_Until = 0\<rparr>"

definition until_Cooldown :: "time \<Rightarrow> Cooldown" where
  "until_Cooldown t = \<lparr>cd_Kind = RetryAt, cd_Until = t\<rparr>"

lemmas cooldown_defs = zero_Cooldown_def blocked_Cooldown_def until_Cooldown_def

datatype ctx_error = Canceled | DeadlineExceeded

text \<open>\<open>codex.Category\<close> is a string type: the wire can carry any value.\<close>

type_synonym Category = string

definition InvalidRequest :: Category where "InvalidRequest = ''invalid_request''"
definition AccountProblem :: Category where "AccountProblem = ''account_problem''"
definition ProviderLimit :: Category where "ProviderLimit = ''provider_limit''"
definition ProviderFailure :: Category where "ProviderFailure = ''provider_failure''"
definition TransportFailure :: Category where "TransportFailure = ''transport_failure''"
definition InvalidResponse :: Category where "InvalidResponse = ''invalid_response''"

lemmas category_defs =
  InvalidRequest_def AccountProblem_def ProviderLimit_def ProviderFailure_def
  TransportFailure_def InvalidResponse_def

record Failure =
  f_Category :: Category
  f_HTTPStatus :: int
  f_SafeToRetry :: bool
  f_RetryAfter :: Cooldown
  f_cause :: "ctx_error option"

definition mk_Failure :: "Category \<Rightarrow> int \<Rightarrow> bool \<Rightarrow> Failure" where
  "mk_Failure c status safe =
     \<lparr>f_Category = c, f_HTTPStatus = status, f_SafeToRetry = safe,
      f_RetryAfter = zero_Cooldown, f_cause = None\<rparr>"

datatype FailureKind = FailureRejected | FailureTransient | FailureInvalidResponse

record OAuthFailure =
  o_Kind :: FailureKind
  o_StatusCode :: int
  o_RetryAfter :: Cooldown
  o_cause :: "ctx_error option"

definition mk_OAuthFailure :: "FailureKind \<Rightarrow> int \<Rightarrow> OAuthFailure" where
  "mk_OAuthFailure k status =
     \<lparr>o_Kind = k, o_StatusCode = status, o_RetryAfter = zero_Cooldown, o_cause = None\<rparr>"

section \<open>The error tree\<close>

datatype sentinel =
    ErrUnauthorized | ErrClosed | ErrNoAccounts | ErrUnavailable | ErrDelivery \<comment> \<open>execution\<close>
  | ErrLimitReached \<comment> \<open>concurrency\<close>
  | ErrNotFound | ErrConflict | ErrInvalid | ErrCorrupt \<comment> \<open>storage\<close>
  | OAuthErrClosed | OAuthErrDisabled | OAuthErrNeedsSignIn | OAuthErrUnavailable
  | OAuthErrLoginPending | OAuthErrLoginMismatch | OAuthErrInvalidLogin \<comment> \<open>codexoauth\<close>
  | ErrCatalogUnavailable | ErrCatalogClosed | ErrPayloadTooLarge \<comment> \<open>codex\<close>
  | ErrInvalidBody \<comment> \<open>gateway\<close>
  | EOF \<comment> \<open>io\<close>

datatype error =
    Sentinel sentinel
  | CtxErr ctx_error
  | ValidationError string
  | FailureErr Failure
  | OAuthFailureErr OAuthFailure
  | MaxBytesErr
  | NetErr bool \<comment> \<open>a \<open>net.Error\<close> and its \<open>Timeout()\<close>\<close>
  | PlainErr string
  | WrapErr string error
  | JoinErr "error list"

type_synonym 'a result = "error + 'a"

text \<open>Early return: \<open>if err != nil { return err }\<close> after a call with a result, and after a check.\<close>

definition bindR :: "'a result \<Rightarrow> ('a \<Rightarrow> 'b result) \<Rightarrow> 'b result" where
  "bindR m f = (case m of Inl err \<Rightarrow> Inl err | Inr x \<Rightarrow> f x)"

definition checkR :: "error option \<Rightarrow> 'b result \<Rightarrow> 'b result" where
  "checkR e k = (case e of Some err \<Rightarrow> Inl err | None \<Rightarrow> k)"

lemma bindR_simps [simp]: "bindR (Inl e) f = Inl e" "bindR (Inr x) f = f x"
  by (simp_all add: bindR_def)

lemma checkR_simps [simp]: "checkR None k = k" "checkR (Some e) k = Inl e"
  by (simp_all add: checkR_def)

lemma bindR_Inr: "bindR m f = Inr y \<longleftrightarrow> (\<exists>x. m = Inr x \<and> f x = Inr y)"
  by (cases m) simp_all

lemma checkR_Inr: "checkR e k = Inr y \<longleftrightarrow> e = None \<and> k = Inr y"
  by (cases e) simp_all

lemma bindR_cong [fundef_cong]: "m = m' \<Longrightarrow> (\<And>x. m' = Inr x \<Longrightarrow> f x = f' x) \<Longrightarrow> bindR m f = bindR m' f'"
  by (cases m') simp_all

text \<open>The nodes \<open>errors.Is\<close> and \<open>errors.As\<close> visit, in their order.\<close>

fun chain :: "error \<Rightarrow> error list" where
  "chain (FailureErr f) = FailureErr f # (case f_cause f of None \<Rightarrow> [] | Some c \<Rightarrow> [CtxErr c])"
| "chain (OAuthFailureErr f) =
     OAuthFailureErr f # (case o_cause f of None \<Rightarrow> [] | Some c \<Rightarrow> [CtxErr c])"
| "chain (WrapErr msg e) = WrapErr msg e # chain e"
| "chain (JoinErr es) = JoinErr es # concat (map chain es)"
| "chain e = [e]"

definition errors_Is :: "error \<Rightarrow> sentinel \<Rightarrow> bool" where
  "errors_Is e s \<longleftrightarrow> Sentinel s \<in> set (chain e)"

definition is_ctx :: "error \<Rightarrow> ctx_error \<Rightarrow> bool" where
  "is_ctx e c \<longleftrightarrow> CtxErr c \<in> set (chain e)"

fun first_some :: "('a \<Rightarrow> 'b option) \<Rightarrow> 'a list \<Rightarrow> 'b option" where
  "first_some f [] = None"
| "first_some f (x # xs) = (case f x of Some y \<Rightarrow> Some y | None \<Rightarrow> first_some f xs)"

definition as_Failure :: "error \<Rightarrow> Failure option" where
  "as_Failure e = first_some (\<lambda>x. case x of FailureErr f \<Rightarrow> Some f | _ \<Rightarrow> None) (chain e)"

definition as_OAuthFailure :: "error \<Rightarrow> OAuthFailure option" where
  "as_OAuthFailure e = first_some (\<lambda>x. case x of OAuthFailureErr f \<Rightarrow> Some f | _ \<Rightarrow> None) (chain e)"

definition as_Validation :: "error \<Rightarrow> string option" where
  "as_Validation e = first_some (\<lambda>x. case x of ValidationError f \<Rightarrow> Some f | _ \<Rightarrow> None) (chain e)"

definition as_MaxBytes :: "error \<Rightarrow> bool" where
  "as_MaxBytes e \<longleftrightarrow> MaxBytesErr \<in> set (chain e)"

text \<open>
  \<open>errors.As(err, &network) && network.Timeout()\<close>: the first \<open>net.Error\<close> decides; \<open>context.DeadlineExceeded\<close> is one.
\<close>

definition as_net_timeout :: "error \<Rightarrow> bool" where
  "as_net_timeout e =
     (case first_some (\<lambda>x. case x of NetErr b \<Rightarrow> Some b | CtxErr DeadlineExceeded \<Rightarrow> Some True | _ \<Rightarrow> None) (chain e) of
        Some b \<Rightarrow> b | None \<Rightarrow> False)"

lemmas error_query_defs [go_defs] =
  errors_Is_def is_ctx_def as_Failure_def as_OAuthFailure_def as_Validation_def as_MaxBytes_def
  as_net_timeout_def

text \<open>\<open>errors.Join\<close> drops nil errors and is nil when none is left.\<close>

definition errors_Join :: "error option list \<Rightarrow> error option" where
  "errors_Join es = (case List.map_filter (\<lambda>e. e) es of [] \<Rightarrow> None | xs \<Rightarrow> Some (JoinErr xs))"

lemma chain_hd [simp]: "e \<in> set (chain e)"
  by (cases e) auto

lemma errors_Is_simps [simp]:
  "errors_Is (Sentinel t) s \<longleftrightarrow> t = s"
  "\<not> errors_Is (CtxErr c) s" "\<not> errors_Is (ValidationError v) s" "\<not> errors_Is (FailureErr f) s"
  "\<not> errors_Is (PlainErr m) s" "errors_Is (WrapErr m e) s \<longleftrightarrow> errors_Is e s"
  "errors_Is (JoinErr es) s \<longleftrightarrow> (\<exists>e \<in> set es. errors_Is e s)"
  "\<not> errors_Is (OAuthFailureErr g) s" "\<not> errors_Is MaxBytesErr s" "\<not> errors_Is (NetErr b) s"
  by (auto simp: errors_Is_def split: option.splits)

lemma is_ctx_simps [simp]:
  "is_ctx (CtxErr c) d \<longleftrightarrow> c = d" "\<not> is_ctx (Sentinel t) d" "\<not> is_ctx (ValidationError v) d"
  "is_ctx (FailureErr f) d \<longleftrightarrow> f_cause f = Some d"
  "\<not> is_ctx (PlainErr m) d" "is_ctx (WrapErr m e) d \<longleftrightarrow> is_ctx e d"
  "is_ctx (JoinErr es) d \<longleftrightarrow> (\<exists>e \<in> set es. is_ctx e d)"
  "is_ctx (OAuthFailureErr g) d \<longleftrightarrow> o_cause g = Some d" "\<not> is_ctx MaxBytesErr d" "\<not> is_ctx (NetErr b) d"
  by (auto simp: is_ctx_def split: option.splits)

lemma as_Failure_simps [simp]:
  "as_Failure (FailureErr f) = Some f" "as_Failure (Sentinel t) = None" "as_Failure (CtxErr c) = None"
  "as_Failure (ValidationError v) = None" "as_Failure (PlainErr m) = None"
  "as_Failure (WrapErr m e) = as_Failure e"
  by (simp_all add: as_Failure_def)

lemma as_Validation_simps [simp]:
  "as_Validation (ValidationError v) = Some v" "as_Validation (Sentinel t) = None"
  "as_Validation (CtxErr c) = None" "as_Validation (PlainErr m) = None"
  "as_Validation (WrapErr m e) = as_Validation e"
  "as_Validation (FailureErr f) = None"
  by (simp_all add: as_Validation_def split: option.splits)

lemma mk_Failure_simps [simp]:
  "f_Category (mk_Failure c n s) = c" "f_HTTPStatus (mk_Failure c n s) = n"
  "f_SafeToRetry (mk_Failure c n s) = s" "f_RetryAfter (mk_Failure c n s) = zero_Cooldown"
  "f_cause (mk_Failure c n s) = None"
  by (simp_all add: mk_Failure_def)

lemma first_some_Some: "first_some f xs = Some y \<Longrightarrow> \<exists>x \<in> set xs. f x = Some y"
  by (induction xs) (auto split: option.splits)

lemma first_some_None: "first_some f xs = None \<longleftrightarrow> (\<forall>x \<in> set xs. f x = None)"
  by (induction xs) (auto split: option.splits)

lemma map_filter_id_Some_iff: "x \<in> set (List.map_filter (\<lambda>e. e) es) \<longleftrightarrow> Some x \<in> set es"
  by (induction es) (auto simp: List.map_filter_simps split: option.splits)

lemma errors_Join_None: "errors_Join es = None \<longleftrightarrow> (\<forall>e \<in> set es. e = None)"
proof -
  have "List.map_filter (\<lambda>e. e) es = [] \<longleftrightarrow> (\<forall>e \<in> set es. e = None)"
    by (induction es) (auto simp: List.map_filter_simps split: option.splits)
  then show ?thesis by (cases "List.map_filter (\<lambda>e. e) es") (auto simp: errors_Join_def)
qed

end
