(* ===== verification/Limiter.thy ===== *)
theory Limiter
  imports Clan_Errors
begin

text \<open>
  \<open>internal/concurrency/limiter.go\<close>: the per-key slot counter. The state is the map \<open>active\<close>
  and the \<open>sync.OnceFunc\<close> closures handed out so far, each with its key and whether it has
  run; a \<open>Slot\<close> is a reference to one of them, so copies of a slot share it, and the zero
  slot refers to none. Each operation runs under the limiter's mutex, so it is one step.
\<close>

section \<open>State and operations\<close>

type_synonym key_id = string

definition Unlimited :: int where "Unlimited = - 1"

record Limiter =
  active_slots :: "key_id \<rightharpoonup> int"
  closures :: "(key_id \<times> bool) list" \<comment> \<open>key and ``already run''\<close>

type_synonym Slot = "nat option"

definition New_Limiter :: Limiter where
  "New_Limiter = \<lparr>active_slots = Map.empty, closures = []\<rparr>"

text \<open>Reading a missing key of a Go map gives the zero value.\<close>

definition active_count :: "Limiter \<Rightarrow> key_id \<Rightarrow> int" where
  "active_count l k = (case active_slots l k of None \<Rightarrow> 0 | Some n \<Rightarrow> n)"

definition TryAcquire :: "Limiter \<Rightarrow> key_id \<Rightarrow> int \<Rightarrow> Limiter \<times> Slot result" where
  "TryAcquire l keyID limit =
     (if blank keyID then (l, Inl (PlainErr ''concurrency: access key id is required''))
      else if limit < Unlimited
        then (l, Inl (PlainErr ''concurrency: limit must be Unlimited or nonnegative''))
      else if limit \<noteq> Unlimited \<and> active_count l keyID \<ge> limit then (l, Inl (Sentinel ErrLimitReached))
      else (l\<lparr>active_slots := (active_slots l)(keyID \<mapsto> active_count l keyID + 1),
              closures := closures l @ [(keyID, False)]\<rparr>,
            Inr (Some (length (closures l)))))"

definition release :: "Limiter \<Rightarrow> key_id \<Rightarrow> Limiter" where
  "release l keyID =
     (let n = active_count l keyID - 1
      in if n = 0 then l\<lparr>active_slots := (active_slots l)(keyID := None)\<rparr>
         else l\<lparr>active_slots := (active_slots l)(keyID \<mapsto> n)\<rparr>)"

text \<open>\<open>Slot.Release\<close> runs the slot's \<open>OnceFunc\<close>: the first call releases, later ones do nothing.\<close>

definition Release :: "Limiter \<Rightarrow> Slot \<Rightarrow> Limiter" where
  "Release l slot =
     (case slot of
        None \<Rightarrow> l
      | Some i \<Rightarrow>
          if i < length (closures l) \<and> \<not> snd (closures l ! i)
          then release (l\<lparr>closures := (closures l)[i := (fst (closures l ! i), True)]\<rparr>) (fst (closures l ! i))
          else l)"

section \<open>The invariant\<close>

text \<open>The slots that were handed out for a key and not given back.\<close>

definition held :: "Limiter \<Rightarrow> key_id \<Rightarrow> nat" where
  "held l k = length (filter (\<lambda>(k', fired). k' = k \<and> \<not> fired) (closures l))"

definition limiter_inv :: "Limiter \<Rightarrow> bool" where
  [inv_defs]: "limiter_inv l \<longleftrightarrow>
     (\<forall>k. active_slots l k = (if held l k = 0 then None else Some (int (held l k))))"

lemma active_count_held: "limiter_inv l \<Longrightarrow> active_count l k = int (held l k)"
  by (auto simp: limiter_inv_def active_count_def)

lemma held_New [simp]: "held New_Limiter k = 0"
  by (simp add: held_def New_Limiter_def)

lemma limiter_inv_New [simp]: "limiter_inv New_Limiter"
  by (simp add: limiter_inv_def New_Limiter_def held_def)

lemma filter_update_length:
  "i < length xs \<Longrightarrow> P (xs ! i) \<Longrightarrow> \<not> P y \<Longrightarrow>
    length (filter P xs) = Suc (length (filter P (xs[i := y])))"
  by (induction xs arbitrary: i) (auto split: nat.splits simp: nth_Cons')

lemma filter_update_same:
  "i < length xs \<Longrightarrow> P (xs ! i) = P y \<Longrightarrow> length (filter P (xs[i := y])) = length (filter P xs)"
  by (induction xs arbitrary: i) (auto split: nat.splits simp: nth_Cons')

text \<open>The slot a successful acquisition returns, and the outstanding slots a state has.\<close>

definition slot_live :: "Limiter \<Rightarrow> nat \<Rightarrow> bool" where
  "slot_live l i \<longleftrightarrow> i < length (closures l) \<and> \<not> snd (closures l ! i)"

lemma TryAcquire_error: "TryAcquire l k limit = (l', Inl e) \<Longrightarrow> l' = l"
  by (auto simp: TryAcquire_def split: if_splits)

lemma TryAcquire_ok:
  assumes "TryAcquire l k limit = (l', Inr s)"
  shows "s = Some (length (closures l))" and "closures l' = closures l @ [(k, False)]"
    and "held l' j = held l j + (if j = k then 1 else 0)"
    and "\<not> blank k" and "limit = Unlimited \<or> active_count l k < limit"
  using assms by (auto simp: TryAcquire_def held_def split: if_splits)

lemma TryAcquire_inv:
  assumes "limiter_inv l" and "TryAcquire l k limit = (l', r)"
  shows "limiter_inv l'"
proof (cases r)
  case (Inl e)
  with assms show ?thesis by (auto dest: TryAcquire_error)
next
  case (Inr s)
  with assms(2) have "held l' j = held l j + (if j = k then 1 else 0)" for j
    by (intro TryAcquire_ok(3)) simp
  moreover from assms Inr have "active_slots l' = (active_slots l)(k \<mapsto> int (held l k) + 1)"
    by (auto simp: TryAcquire_def active_count_held split: if_splits)
  ultimately show ?thesis using assms(1) by (auto simp: limiter_inv_def)
qed

lemma Release_dead: "\<not> slot_live l i \<Longrightarrow> Release l (Some i) = l"
  by (auto simp: Release_def slot_live_def)

lemma Release_closures:
  "slot_live l i \<Longrightarrow> closures (Release l (Some i)) = (closures l)[i := (fst (closures l ! i), True)]"
  by (auto simp: Release_def slot_live_def release_def Let_def)

lemma Release_held:
  assumes "slot_live l i"
  shows "held l k = held (Release l (Some i)) k + (if k = fst (closures l ! i) then 1 else 0)"
proof -
  obtain k' where ki: "closures l ! i = (k', False)" and i: "i < length (closures l)"
    using assms by (cases "closures l ! i") (auto simp: slot_live_def)
  show ?thesis
  proof (cases "k = k'")
    case True
    then show ?thesis
      using filter_update_length [OF i, of "\<lambda>(j, fired). j = k \<and> \<not> fired" "(k', True)"]
      by (simp add: held_def Release_closures [OF assms] ki)
  next
    case False
    then show ?thesis
      using filter_update_same [OF i, of "\<lambda>(j, fired). j = k \<and> \<not> fired" "(k', True)"]
      by (simp add: held_def Release_closures [OF assms] ki)
  qed
qed

lemma Release_inv:
  assumes "limiter_inv l"
  shows "limiter_inv (Release l s)"
proof (cases "\<exists>i. s = Some i \<and> slot_live l i")
  case True
  then obtain i where s: "s = Some i" and live: "slot_live l i" by auto
  let ?k = "fst (closures l ! i)"
  have held: "held l k = held (Release l s) k + (if k = ?k then 1 else 0)" for k
    unfolding s by (rule Release_held [OF live])
  have slots: "active_slots (Release l s) =
      (active_slots l)(?k := (if active_count l ?k - 1 = 0 then None else Some (active_count l ?k - 1)))"
    using live by (auto simp: s Release_def slot_live_def release_def Let_def active_count_def fun_eq_iff)
  show ?thesis
    unfolding limiter_inv_def
  proof
    fix k
    show "active_slots (Release l s) k =
        (if held (Release l s) k = 0 then None else Some (int (held (Release l s) k)))"
      using held [of k] held [of ?k] active_count_held [OF assms, of ?k] assms
      by (cases "k = ?k") (auto simp: slots limiter_inv_def)
  qed
next
  case False
  then have "Release l s = l" by (cases s) (auto simp: Release_def slot_live_def)
  with assms show ?thesis by simp
qed

lemma Release_twice: "Release (Release l s) s = Release l s"
proof (cases s)
  case (Some i)
  show ?thesis
  proof (cases "slot_live l i")
    case True
    then have "\<not> slot_live (Release l s) i"
      unfolding Some by (auto simp: slot_live_def Release_closures [OF True])
    then show ?thesis unfolding Some by (rule Release_dead)
  qed (simp add: Some Release_dead)
qed (simp add: Release_def)

section \<open>Interleavings\<close>

text \<open>Any sequence of acquisitions, with any limits, and releases of any slots, also repeated.\<close>

inductive limiter_step :: "Limiter \<Rightarrow> Limiter \<Rightarrow> bool" where
  acquire: "TryAcquire l k limit = (l', r) \<Longrightarrow> limiter_step l l'"
| give_back: "limiter_step l (Release l s)"

inductive_cases limiter_stepE: "limiter_step l l'"

lemma limiter_step_inv: "limiter_inv l \<Longrightarrow> limiter_step l l' \<Longrightarrow> limiter_inv l'"
  by (auto elim!: limiter_stepE intro: TryAcquire_inv Release_inv)

interpretation limiter_sys: invariant_system "\<lambda>l. l = New_Limiter" limiter_step limiter_inv
  by unfold_locales (auto intro: limiter_step_inv)

text \<open>
  C20. In every state the limiter can reach, the count of a key is the number of its slots that
  were acquired and not yet released, and a key with no such slot has no map entry: releasing a
  slot twice, or through a copy, never frees capacity a second time.
\<close>

theorem limiter_counts_outstanding_slots:
  "reachable (\<lambda>l. l = New_Limiter) limiter_step l \<Longrightarrow>
    active_slots l k = (if held l k = 0 then None else Some (int (held l k))) \<and>
    Release (Release l s) s = Release l s"
  using limiter_sys.inv_reachable by (auto simp: limiter_inv_def Release_twice)

theorem limiter_counts_outstanding_slots_witness:
  "active_slots (fst (TryAcquire New_Limiter ''k'' 2)) ''k'' = Some 1 \<and>
   Release (Release (fst (TryAcquire New_Limiter ''k'' 2)) (Some 0)) (Some 0) =
     Release (fst (TryAcquire New_Limiter ''k'' 2)) (Some 0)"
proof -
  let ?l = "fst (TryAcquire New_Limiter ''k'' 2)"
  have "\<not> blank ''k''" by code_simp
  then have h: "held ?l ''k'' = 1"
    by (simp add: TryAcquire_def Unlimited_def active_count_def New_Limiter_def held_def)
  have "reachable (\<lambda>l. l = New_Limiter) limiter_step ?l"
    by (rule reach_step [OF reach_start]) (auto intro: limiter_step.acquire [OF surjective_pairing])
  from limiter_counts_outstanding_slots [OF this, of "''k''" "Some 0"] h show ?thesis by simp
qed

text \<open>
  Admission control: with a nonnegative limit, an acquisition succeeds exactly when the key
  is nonblank and holds fewer slots than the limit; it then holds one slot more, never above the
  limit, no other key's count changes, and a refused acquisition changes nothing.
\<close>

theorem TryAcquire_respects_limit:
  assumes "limiter_inv l" and "0 \<le> limit"
  shows "case TryAcquire l k limit of
      (l', Inr s) \<Rightarrow> \<not> blank k \<and> int (held l k) < limit \<and> int (held l' k) \<le> limit \<and>
                      held l' k = Suc (held l k) \<and> (\<forall>j. j \<noteq> k \<longrightarrow> held l' j = held l j)
    | (l', Inl e) \<Rightarrow> l' = l \<and> (blank k \<or> e = Sentinel ErrLimitReached \<and> limit \<le> int (held l k))"
proof (cases "TryAcquire l k limit")
  case (Pair l' r)
  show ?thesis
  proof (cases r)
    case (Inr s)
    with Pair have ok: "TryAcquire l k limit = (l', Inr s)" by simp
    show ?thesis
      using TryAcquire_ok(3) [OF ok] TryAcquire_ok(4,5) [OF ok] assms(2) active_count_held [OF assms(1), of k]
      by (auto simp: ok Unlimited_def)
  next
    case (Inl e)
    with Pair assms active_count_held [OF assms(1), of k] show ?thesis
      by (auto simp: TryAcquire_def Unlimited_def split: if_splits)
  qed
qed

theorem TryAcquire_respects_limit_witness:
  "limiter_inv New_Limiter \<and>
   (case TryAcquire New_Limiter ''k'' 0 of
      (l', Inr s) \<Rightarrow> False
    | (l', Inl e) \<Rightarrow> l' = New_Limiter \<and> e = Sentinel ErrLimitReached)"
proof -
  have "\<not> blank ''k''" by code_simp
  with TryAcquire_respects_limit [OF limiter_inv_New, of 0 "''k''"] show ?thesis
    by (auto split: prod.splits sum.splits)
qed

section \<open>The interface\<close>

text \<open>What request execution relies on: a held count per key, moved by one per slot.\<close>

locale slot_limiter =
  fixes acquire :: "'l \<Rightarrow> key_id \<Rightarrow> int \<Rightarrow> 'l \<times> Slot result"
    and give :: "'l \<Rightarrow> Slot \<Rightarrow> 'l"
    and holds :: "'l \<Rightarrow> key_id \<Rightarrow> nat"
    and live :: "'l \<Rightarrow> nat \<Rightarrow> bool"
    and owner :: "'l \<Rightarrow> nat \<Rightarrow> key_id"
    and inv :: "'l \<Rightarrow> bool"
  assumes acquire_error: "acquire l k n = (l', Inl e) \<Longrightarrow> l' = l"
    and acquire_slot: "acquire l k n = (l', Inr s) \<Longrightarrow>
          \<exists>i. s = Some i \<and> \<not> live l i \<and> live l' i \<and> owner l' i = k \<and>
              (\<forall>j. live l j \<longrightarrow> live l' j \<and> owner l' j = owner l j)"
    and acquire_holds: "acquire l k n = (l', Inr s) \<Longrightarrow> holds l' k' = holds l k' + (if k' = k then 1 else 0)"
    and acquire_limit: "inv l \<Longrightarrow> acquire l k n = (l', Inr s) \<Longrightarrow> n = -1 \<or> int (holds l k) < n"
    and give_live: "live l i \<Longrightarrow> holds l k = holds (give l (Some i)) k + (if k = owner l i then 1 else 0)"
    and give_others: "live l i \<Longrightarrow> live (give l (Some i)) j \<longleftrightarrow> live l j \<and> j \<noteq> i"
    and give_owner: "live l j \<Longrightarrow> owner (give l s) j = owner l j"
    and inv_acquire: "inv l \<Longrightarrow> acquire l k n = (l', r) \<Longrightarrow> inv l'"
    and inv_give: "inv l \<Longrightarrow> inv (give l s)"

text \<open>
  A client that keeps a list of the slots it holds, each with its key, and acquires and gives back
  through the list, always agrees with the counts.
\<close>

definition accounted ::
  "('l \<Rightarrow> nat \<Rightarrow> bool) \<Rightarrow> ('l \<Rightarrow> nat \<Rightarrow> key_id) \<Rightarrow> ('l \<Rightarrow> key_id \<Rightarrow> nat) \<Rightarrow> 'l \<Rightarrow> (nat \<times> key_id) list \<Rightarrow> bool" where
  "accounted live owner holds l hs \<longleftrightarrow>
     distinct (map fst hs) \<and> (\<forall>i k. (i, k) \<in> set hs \<longrightarrow> live l i \<and> owner l i = k) \<and>
     (\<forall>k. holds l k = length (filter (\<lambda>h. snd h = k) hs))"

context slot_limiter
begin

lemma accounted_acquire:
  assumes "accounted live owner holds l hs" and "acquire l k n = (l', Inr s)"
  shows "\<exists>i. s = Some i \<and> accounted live owner holds l' (hs @ [(i, k)])"
proof -
  from acquire_slot [OF assms(2)] obtain i where i: "s = Some i" "\<not> live l i" "live l' i" "owner l' i = k"
    and old: "\<And>j. live l j \<Longrightarrow> live l' j \<and> owner l' j = owner l j" by blast
  from assms(1) i(2) have "i \<notin> fst ` set hs" by (auto simp: accounted_def)
  with assms(1) i old have "accounted live owner holds l' (hs @ [(i, k)])"
    unfolding accounted_def by (auto simp: acquire_holds [OF assms(2)])
  with i(1) show ?thesis by blast
qed

lemma filter_give:
  "distinct (map fst hs) \<Longrightarrow> (i, k) \<in> set hs \<Longrightarrow>
    length (filter (\<lambda>h. snd h = j) hs) =
      length (filter (\<lambda>h. snd h = j) (filter (\<lambda>h. fst h \<noteq> i) hs)) + (if j = k then 1 else 0)"
proof (induction hs)
  case (Cons h hs)
  show ?case
  proof (cases "h = (i, k)")
    case True
    with Cons.prems have "filter (\<lambda>h. fst h \<noteq> i) hs = hs" by (auto simp: filter_id_conv image_iff)
    with True show ?thesis by simp
  next
    case False
    with Cons.prems have "fst h \<noteq> i" by (auto simp: image_iff)
    with Cons False show ?thesis by auto
  qed
qed simp

lemma accounted_give:
  assumes "accounted live owner holds l hs" and "(i, k) \<in> set hs"
  shows "accounted live owner holds (give l (Some i)) (filter (\<lambda>h. fst h \<noteq> i) hs)"
proof -
  from assms have live: "live l i" and own: "owner l i = k" and d: "distinct (map fst hs)" by (auto simp: accounted_def)
  have "holds (give l (Some i)) j = length (filter (\<lambda>h. snd h = j) (filter (\<lambda>h. fst h \<noteq> i) hs))" for j
    using give_live [OF live, of j] filter_give [OF d assms(2), of j] assms(1) own by (simp add: accounted_def)
  moreover have "distinct (map fst (filter (\<lambda>h. fst h \<noteq> i) hs))" using d by (simp add: distinct_map_filter)
  ultimately show ?thesis using assms(1)
    unfolding accounted_def by (auto simp: give_others [OF live] give_owner)
qed

end

interpretation lim: slot_limiter TryAcquire Release held slot_live "\<lambda>l i. fst (closures l ! i)" limiter_inv
proof unfold_locales
  fix l k n l' e assume "TryAcquire l k n = (l', Inl e)"
  then show "l' = l" by (rule TryAcquire_error)
next
  fix l k n l' s assume "TryAcquire l k n = (l', Inr s)"
  from TryAcquire_ok(1,2) [OF this]
  show "\<exists>i. s = Some i \<and> \<not> slot_live l i \<and> slot_live l' i \<and> fst (closures l' ! i) = k \<and>
      (\<forall>j. slot_live l j \<longrightarrow> slot_live l' j \<and> fst (closures l' ! j) = fst (closures l ! j))"
    by (auto simp: slot_live_def nth_append)
next
  fix l k n l' s j assume "TryAcquire l k n = (l', Inr s)"
  then show "held l' j = held l j + (if j = k then 1 else 0)" by (rule TryAcquire_ok)
next
  fix l k n l' s assume "limiter_inv l" "TryAcquire l k n = (l', Inr s)"
  then show "n = -1 \<or> int (held l k) < n"
    using TryAcquire_ok(5) active_count_held by (fastforce simp: Unlimited_def)
next
  fix l i k assume "slot_live l i"
  then show "held l k = held (Release l (Some i)) k + (if k = fst (closures l ! i) then 1 else 0)"
    by (rule Release_held)
next
  fix l i j assume "slot_live l i"
  then show "slot_live (Release l (Some i)) j \<longleftrightarrow> slot_live l j \<and> j \<noteq> i"
    by (auto simp: slot_live_def Release_closures nth_list_update)
next
  fix l j s assume "slot_live l j"
  then show "fst (closures (Release l s) ! j) = fst (closures l ! j)"
    by (cases "\<exists>i. s = Some i \<and> slot_live l i")
       (auto simp: Release_closures nth_list_update slot_live_def Release_def release_def Let_def split: option.splits)
qed (auto intro: TryAcquire_inv Release_inv)

end
