(* ===== verification/Retry.thy ===== *)
theory Retry
  imports Clan_Errors
begin

text \<open>
  \<open>internal/retry/retry.go\<close>: the reading of a \<open>Retry-After\<close> header.
  \<open>http.ParseTime\<close> is the argument \<open>ParseTime\<close>; no property depends on which dates it accepts.
\<close>

definition max_retry_seconds :: int where
  "max_retry_seconds = max_int64 div Second"

definition ParseRetryAfter :: "(string \<Rightarrow> time option) \<Rightarrow> string \<Rightarrow> time \<Rightarrow> Cooldown result" where
  "ParseRetryAfter ParseTime value0 receivedAt =
     (if time_IsZero receivedAt then Inl (PlainErr ''retry: receipt time is required'')
      else
        let value = TrimSet value0 [CHR '' '', CHR 0x09];
            httpDate = (case ParseTime value of
                          None \<Rightarrow> Inr zero_Cooldown
                        | Some t \<Rightarrow> Inr (until_Cooldown t))
        in case value of
             [] \<Rightarrow> httpDate
           | c # _ \<Rightarrow>
               if digit c then
                 (case ParseUint max_uint64 value of
                    Inr seconds \<Rightarrow>
                      if seconds > max_retry_seconds then Inr blocked_Cooldown
                      else Inr (until_Cooldown (receivedAt + wrap64 (seconds * Second)))
                  | Inl e \<Rightarrow>
                      if e = ErrRange \<and> TrimSet value ''0123456789'' = [] then Inr blocked_Cooldown
                      else httpDate)
               else httpDate)"

lemma max_retry_seconds_eq: "max_retry_seconds = 9223372036"
  by (simp add: max_retry_seconds_def max_int64_def)

lemma retry_seconds_no_wrap:
  "0 \<le> s \<Longrightarrow> s \<le> max_retry_seconds \<Longrightarrow> wrap64 (s * Second) = s * Second"
  by (rule wrap64_id) (auto simp: max_retry_seconds_eq max_int64_def min_int64_def)

lemma TrimSet_all: "list_all (\<lambda>c. c \<in> set cutset) s \<Longrightarrow> TrimSet s cutset = []"
  by (simp add: TrimSet_def list_all_iff dropWhile_eq_Nil_conv [THEN iffD2])

lemma digit_in_digits: "digit c \<longleftrightarrow> c \<in> set ''0123456789''"
proof
  assume "digit c"
  then have "(of_char c :: nat) \<in> set [48..<58]" by (simp add: digit_def) arith
  moreover have "c = char_of (of_char c :: nat)" by simp
  ultimately have "c \<in> char_of ` set [48..<(58::nat)]" by blast
  also have "char_of ` set [48..<(58::nat)] = set ''0123456789''" by (simp add: upt_rec char_of_def bit_Suc_0_iff)
  finally show "c \<in> set ''0123456789''" .
qed (auto simp: digit_def)

text \<open>
  C40. A decimal \<open>Retry-After\<close> of any length is understood exactly: up to 9223372036 seconds the
  candidate may retry at receipt plus that many seconds, with no 64-bit overflow on the way, and
  any larger number of seconds blocks the candidate instead of wrapping to an earlier time.
\<close>

theorem ParseRetryAfter_decimal:
  assumes "receivedAt \<noteq> 0"
    and "TrimSet value [CHR '' '', CHR 0x09] = ds" and "ds \<noteq> []" and "list_all digit ds"
  shows "ParseRetryAfter ParseTime value receivedAt =
    Inr (if dec_val ds \<le> 9223372036 then until_Cooldown (receivedAt + dec_val ds * Second)
         else blocked_Cooldown)"
proof -
  obtain c cs where ds: "ds = c # cs" using assms(3) by (cases ds) auto
  have dig: "digit c" using assms(4) ds by simp
  have nonneg: "0 \<le> dec_val ds"
    using foldl_dec_mono [OF assms(4), of 0] by (simp add: dec_val_def)
  have blank: "TrimSet ds ''0123456789'' = []"
    using assms(4) by (intro TrimSet_all) (simp add: list_all_iff digit_in_digits)
  have parse: "ParseUint max_uint64 ds = (if dec_val ds \<le> max_uint64 then Inr (dec_val ds) else Inl ErrRange)"
    using parse_digits_digits [OF assms(4), of 0 max_uint64] assms(3)
    by (simp add: ParseUint_def dec_val_def)
  have big: "max_retry_seconds \<le> max_uint64"
    by (simp add: max_retry_seconds_eq max_uint64_def)
  show ?thesis
    using assms(1,2) dig nonneg blank parse big retry_seconds_no_wrap [of "dec_val ds"]
    by (auto simp: ParseRetryAfter_def time_IsZero_def Let_def ds max_retry_seconds_eq)
qed

theorem ParseRetryAfter_decimal_witness:
  "ParseRetryAfter (\<lambda>_. None) ''120 '' 5 = Inr (until_Cooldown (5 + 120 * Second)) \<and>
   ParseRetryAfter (\<lambda>_. None) ''99999999999999999999999'' 5 = Inr blocked_Cooldown"
proof -
  have a: "TrimSet ''120 '' [CHR '' '', CHR 0x09] = ''120''" "list_all digit ''120''" "dec_val ''120'' = 120"
    by (simp_all add: TrimSet_def digit_def dec_val_def digit_val_def)
  have b: "TrimSet ''99999999999999999999999'' [CHR '' '', CHR 0x09] = ''99999999999999999999999''"
    "list_all digit ''99999999999999999999999''" "dec_val ''99999999999999999999999'' = 99999999999999999999999"
    by (simp_all add: TrimSet_def digit_def dec_val_def digit_val_def)
  show ?thesis
    using ParseRetryAfter_decimal [OF _ a(1) _ a(2), of 5 "\<lambda>_. None"]
      ParseRetryAfter_decimal [OF _ b(1) _ b(2), of 5 "\<lambda>_. None"] a(3) b(3)
    by simp
qed

text \<open>A result never carries a time unless it is a \<open>RetryAt\<close>, as the type documents.\<close>

definition wf_Cooldown :: "Cooldown \<Rightarrow> bool" where
  "wf_Cooldown c \<longleftrightarrow> (cd_Kind c \<noteq> RetryAt \<longrightarrow> cd_Until c = 0)"

lemma wf_Cooldown_simps [simp]:
  "wf_Cooldown zero_Cooldown" "wf_Cooldown blocked_Cooldown" "wf_Cooldown (until_Cooldown t)"
  by (simp_all add: wf_Cooldown_def cooldown_defs)

lemma ParseRetryAfter_wf: "ParseRetryAfter pt value t = Inr c \<Longrightarrow> wf_Cooldown c"
  by (auto simp: ParseRetryAfter_def Let_def split: if_splits list.splits option.splits sum.splits)

lemma ParseRetryAfter_Inl: "ParseRetryAfter pt value t = Inl e \<longleftrightarrow> t = 0 \<and> e = PlainErr ''retry: receipt time is required''"
  by (auto simp: ParseRetryAfter_def Let_def time_IsZero_def split: if_splits list.splits option.splits sum.splits)

end
