(* ===== verification/Base64.thy ===== *)
theory Base64
  imports Clan_Prelude
begin

text \<open>
  \<open>encoding/base64\<close> as the sources use it: the standard and the URL alphabet, with and without
  padding, decoding strictly (no stray low bits) or not. As in Go, a decoder ignores carriage
  returns and line feeds. The locale \<open>base64_alphabet\<close> holds the laws that depend on the
  alphabet only through its being 64 distinct bytes without newline or \<open>=\<close>.
\<close>

section \<open>Definitions\<close>

definition std_alphabet :: string where
  "std_alphabet = ''ABCDEFGHIJKLMNOPQRSTUVWXYZabcdefghijklmnopqrstuvwxyz0123456789+/''"

definition url_alphabet :: string where
  "url_alphabet = ''ABCDEFGHIJKLMNOPQRSTUVWXYZabcdefghijklmnopqrstuvwxyz0123456789-_''"

fun index_of :: "'a list \<Rightarrow> 'a \<Rightarrow> nat option" where
  "index_of [] y = None"
| "index_of (x # xs) y = (if x = y then Some 0 else map_option Suc (index_of xs y))"

abbreviation byte :: "char \<Rightarrow> nat" where "byte c \<equiv> of_char c"

fun encode_raw :: "string \<Rightarrow> bytes \<Rightarrow> string" where
  "encode_raw al [] = []"
| "encode_raw al [a] = [al ! (byte a div 4), al ! (byte a mod 4 * 16)]"
| "encode_raw al [a, b] =
     [al ! (byte a div 4), al ! (byte a mod 4 * 16 + byte b div 16), al ! (byte b mod 16 * 4)]"
| "encode_raw al (a # b # c # rest) =
     al ! (byte a div 4) # al ! (byte a mod 4 * 16 + byte b div 16) #
     al ! (byte b mod 16 * 4 + byte c div 64) # al ! (byte c mod 64) # encode_raw al rest"

text \<open>The last, partial quantum: two or three characters.\<close>

definition decode_tail2 :: "string \<Rightarrow> bool \<Rightarrow> char \<Rightarrow> char \<Rightarrow> bytes option" where
  "decode_tail2 al strict a b =
     (case (index_of al a, index_of al b) of
        (Some x, Some y) \<Rightarrow>
          if strict \<and> y mod 16 \<noteq> 0 then None else Some [char_of (x * 4 + y div 16)]
      | _ \<Rightarrow> None)"

definition decode_tail3 :: "string \<Rightarrow> bool \<Rightarrow> char \<Rightarrow> char \<Rightarrow> char \<Rightarrow> bytes option" where
  "decode_tail3 al strict a b c =
     (case (index_of al a, index_of al b, index_of al c) of
        (Some x, Some y, Some z) \<Rightarrow>
          if strict \<and> z mod 4 \<noteq> 0 then None
          else Some [char_of (x * 4 + y div 16), char_of (y mod 16 * 16 + z div 4)]
      | _ \<Rightarrow> None)"

definition decode_quad :: "string \<Rightarrow> char \<Rightarrow> char \<Rightarrow> char \<Rightarrow> char \<Rightarrow> bytes option" where
  "decode_quad al a b c d =
     (case (index_of al a, index_of al b, index_of al c, index_of al d) of
        (Some x, Some y, Some z, Some w) \<Rightarrow>
          Some [char_of (x * 4 + y div 16), char_of (y mod 16 * 16 + z div 4), char_of (z mod 4 * 64 + w)]
      | _ \<Rightarrow> None)"

fun decode_quanta :: "string \<Rightarrow> bool \<Rightarrow> bool \<Rightarrow> string \<Rightarrow> bytes option" where
  "decode_quanta al padded strict [] = Some []"
| "decode_quanta al padded strict [a] = None"
| "decode_quanta al padded strict [a, b] = (if padded then None else decode_tail2 al strict a b)"
| "decode_quanta al padded strict [a, b, c] = (if padded then None else decode_tail3 al strict a b c)"
| "decode_quanta al padded strict (a # b # c # d # rest) =
     (if padded \<and> rest = [] \<and> c = CHR ''='' \<and> d = CHR ''='' then decode_tail2 al strict a b
      else if padded \<and> rest = [] \<and> d = CHR ''='' then decode_tail3 al strict a b c
      else case decode_quad al a b c d of
             None \<Rightarrow> None
           | Some bs \<Rightarrow> map_option (\<lambda>cs. bs @ cs) (decode_quanta al padded strict rest))"

definition newline :: "char \<Rightarrow> bool" where
  "newline c \<longleftrightarrow> c = CHR 0x0A \<or> c = CHR 0x0D"

definition base64_decode :: "string \<Rightarrow> bool \<Rightarrow> bool \<Rightarrow> string \<Rightarrow> bytes option" where
  "base64_decode al padded strict s = decode_quanta al padded strict (filter (\<lambda>c. \<not> newline c) s)"

definition RawURL_Encode :: "bytes \<Rightarrow> string" where
  "RawURL_Encode = encode_raw url_alphabet"

definition RawURL_Decode :: "string \<Rightarrow> bytes option" where
  "RawURL_Decode = base64_decode url_alphabet False False"

definition RawURL_Decode_strict :: "string \<Rightarrow> bytes option" where
  "RawURL_Decode_strict = base64_decode url_alphabet False True"

definition Std_Decode :: "string \<Rightarrow> bytes option" where
  "Std_Decode = base64_decode std_alphabet True False"

definition Std_Decode_strict :: "string \<Rightarrow> bytes option" where
  "Std_Decode_strict = base64_decode std_alphabet True True"

lemmas base64_defs [go_defs] =
  RawURL_Encode_def RawURL_Decode_def RawURL_Decode_strict_def Std_Decode_def Std_Decode_strict_def

section \<open>Laws\<close>

lemma index_of_Some: "index_of xs y = Some i \<Longrightarrow> i < length xs \<and> xs ! i = y"
  by (induction xs arbitrary: i) (auto split: if_splits)

lemma index_of_nth: "distinct xs \<Longrightarrow> i < length xs \<Longrightarrow> index_of xs (xs ! i) = Some i"
  by (induction xs arbitrary: i) (auto simp: nth_Cons' less_Suc_eq_0_disj split: nat.splits)

lemma byte_less: "byte c < 256"
  by simp

text \<open>Cutting three bytes into four sextets and joining them again, in both directions.\<close>

lemma join_div [simp]: "r < m \<Longrightarrow> (q * m + r) div m = (q :: nat)"
  and join_mod [simp]: "r < m \<Longrightarrow> (q * m + r) mod m = (r :: nat)"
  by simp_all

lemma byte_pieces [simp]:
  assumes "(a :: nat) < 256"
  shows "a div 4 < 64" "a div 16 < 16" "a div 64 < 4"
  using assms by (simp_all add: less_mult_imp_div_less)

lemma sextet_pieces [simp]:
  assumes "(x :: nat) < 64"
  shows "x div 16 < 4" "x div 4 < 16"
  using assms by (simp_all add: less_mult_imp_div_less)

lemma scale_add_less: "q < (k :: nat) \<Longrightarrow> r < m \<Longrightarrow> q * m + r < k * m"
proof -
  assume "q < k" "r < m"
  then have "q * m + r < Suc q * m" by simp
  also have "\<dots> \<le> k * m" using \<open>q < k\<close> by (intro mult_le_mono1) simp
  finally show ?thesis .
qed

lemma sextet_ranges:
  fixes a b c :: nat
  assumes "a < 256" "b < 256" "c < 256"
  shows "a div 4 < 64" "a mod 4 * 16 < 64" "a mod 4 * 16 + b div 16 < 64" "b mod 16 * 4 < 64"
    "b mod 16 * 4 + c div 64 < 64" "c mod 64 < 64"
  using assms scale_add_less [of "a mod 4" 4 "b div 16" 16] scale_add_less [of "a mod 4" 4 0 16]
    scale_add_less [of "b mod 16" 16 "c div 64" 4] scale_add_less [of "b mod 16" 16 0 4]
  by simp_all

lemma join_sextets:
  fixes a b c :: nat
  assumes "a < 256" "b < 256" "c < 256"
  shows "a div 4 * 4 + (a mod 4 * 16) div 16 = a"
    "a div 4 * 4 + (a mod 4 * 16 + b div 16) div 16 = a"
    "(a mod 4 * 16 + b div 16) mod 16 * 16 + (b mod 16 * 4) div 4 = b"
    "(a mod 4 * 16 + b div 16) mod 16 * 16 + (b mod 16 * 4 + c div 64) div 4 = b"
    "(b mod 16 * 4 + c div 64) mod 4 * 64 + c mod 64 = c"
    "(a mod 4 * 16) mod 16 = 0" "(b mod 16 * 4) mod 4 = 0"
  using assms by (simp_all only: byte_pieces join_div join_mod mod_mult_self2_is_0 nonzero_mult_div_cancel_right
    div_mult_mod_eq zero_neq_numeral not_False_eq_True simp_thms)

lemma split_octets:
  fixes x y z w :: nat
  assumes "x < 64" "y < 64" "z < 64" "w < 64"
  shows "x * 4 + y div 16 < 256" "y mod 16 * 16 + z div 4 < 256" "z mod 4 * 64 + w < 256"
    "(x * 4 + y div 16) div 4 = x"
    "y mod 16 = 0 \<Longrightarrow> (x * 4 + y div 16) mod 4 * 16 = y"
    "(x * 4 + y div 16) mod 4 * 16 + (y mod 16 * 16 + z div 4) div 16 = y"
    "z mod 4 = 0 \<Longrightarrow> (y mod 16 * 16 + z div 4) mod 16 * 4 = z"
    "(y mod 16 * 16 + z div 4) mod 16 * 4 + (z mod 4 * 64 + w) div 64 = z"
    "(z mod 4 * 64 + w) mod 64 = w"
proof -
  note p = sextet_pieces [OF assms(2)] sextet_pieces [OF assms(3)]
  show "x * 4 + y div 16 < 256" using scale_add_less [OF assms(1) p(1)] by simp
  show "y mod 16 * 16 + z div 4 < 256" using scale_add_less [of "y mod 16" 16, OF _ p(4)] by simp
  show "z mod 4 * 64 + w < 256" using scale_add_less [of "z mod 4" 4, OF _ assms(4)] by simp
  show "(x * 4 + y div 16) div 4 = x" by (rule join_div [OF p(1)])
  show "y mod 16 = 0 \<Longrightarrow> (x * 4 + y div 16) mod 4 * 16 = y"
    using join_mod [OF p(1), of x] div_mult_mod_eq [of y 16] by simp
  show "(x * 4 + y div 16) mod 4 * 16 + (y mod 16 * 16 + z div 4) div 16 = y"
    unfolding join_mod [OF p(1)] join_div [OF p(4)] by (rule div_mult_mod_eq)
  show "z mod 4 = 0 \<Longrightarrow> (y mod 16 * 16 + z div 4) mod 16 * 4 = z"
    using join_mod [OF p(4), of "y mod 16"] div_mult_mod_eq [of z 4] by simp
  show "(y mod 16 * 16 + z div 4) mod 16 * 4 + (z mod 4 * 64 + w) div 64 = z"
    unfolding join_mod [OF p(4)] join_div [OF assms(4)] by (rule div_mult_mod_eq)
  show "(z mod 4 * 64 + w) mod 64 = w" by (rule join_mod [OF assms(4)])
qed

lemma triple_induct [case_names nil one two three]:
  "P [] \<Longrightarrow> (\<And>a. P [a]) \<Longrightarrow> (\<And>a b. P [a, b]) \<Longrightarrow>
    (\<And>a b c rest. P rest \<Longrightarrow> P (a # b # c # rest)) \<Longrightarrow> P (bs :: bytes)"
  by induction_schema (pat_completeness, lexicographic_order)

lemma quad_induct [case_names nil one two three four]:
  "P [] \<Longrightarrow> (\<And>a. P [a]) \<Longrightarrow> (\<And>a b. P [a, b]) \<Longrightarrow> (\<And>a b c. P [a, b, c]) \<Longrightarrow>
    (\<And>a b c d rest. P rest \<Longrightarrow> P (a # b # c # d # rest)) \<Longrightarrow> P (s :: string)"
  by induction_schema (pat_completeness, lexicographic_order)

locale base64_alphabet =
  fixes al :: string
  assumes len: "length al = 64" and dist: "distinct al"
    and clean: "\<forall>c \<in> set al. \<not> newline c \<and> c \<noteq> CHR ''=''"
begin

lemma index_nth: "i < 64 \<Longrightarrow> index_of al (al ! i) = Some i"
  using index_of_nth [OF dist] len by simp

lemma index_range: "index_of al c = Some i \<Longrightarrow> i < 64 \<and> al ! i = c"
  using index_of_Some [of al c i] len by simp

lemma nth_clean: "i < 64 \<Longrightarrow> \<not> newline (al ! i) \<and> al ! i \<noteq> CHR ''=''"
  using clean len by simp

lemma encode_clean: "list_all (\<lambda>c. \<not> newline c \<and> c \<noteq> CHR ''='') (encode_raw al bs)"
  by (induction bs rule: triple_induct)
    (simp_all add: nth_clean sextet_ranges [OF byte_less byte_less byte_less])

lemma encode_filter: "filter (\<lambda>c. \<not> newline c) (encode_raw al bs) = encode_raw al bs"
  using encode_clean by (auto simp: list_all_iff filter_id_conv)

lemma decode_encode: "decode_quanta al False strict (encode_raw al bs) = Some bs"
  by (induction bs rule: triple_induct)
    (simp_all add: decode_quad_def decode_tail2_def decode_tail3_def index_nth
      sextet_ranges [OF byte_less byte_less byte_less] join_sextets [OF byte_less byte_less byte_less])

lemma encode_decode:
  "decode_quanta al False True s = Some bs \<Longrightarrow> encode_raw al bs = s"
proof (induction s arbitrary: bs rule: quad_induct)
  case (two a b)
  then obtain x y where "index_of al a = Some x" "index_of al b = Some y" "y mod 16 = 0"
    "bs = [char_of (x * 4 + y div 16)]"
    by (auto simp: decode_tail2_def split: option.splits if_splits)
  with index_range [of a x] index_range [of b y] split_octets [of x y 0 0] show ?case by simp
next
  case (three a b c)
  then obtain x y z where "index_of al a = Some x" "index_of al b = Some y"
    "index_of al c = Some z" "z mod 4 = 0"
    "bs = [char_of (x * 4 + y div 16), char_of (y mod 16 * 16 + z div 4)]"
    by (auto simp: decode_tail3_def split: option.splits if_splits)
  with index_range [of a x] index_range [of b y] index_range [of c z] split_octets [of x y z 0]
  show ?case by simp
next
  case (four a b c d rest)
  from four.prems obtain x y z w cs where "index_of al a = Some x" "index_of al b = Some y"
    "index_of al c = Some z" "index_of al d = Some w" and rest: "decode_quanta al False True rest = Some cs"
    "bs = [char_of (x * 4 + y div 16), char_of (y mod 16 * 16 + z div 4), char_of (z mod 4 * 64 + w)] @ cs"
    by (auto simp: decode_quad_def split: option.splits if_splits)
  with four.IH [OF rest(1)] index_range [of a x] index_range [of b y] index_range [of c z]
    index_range [of d w] split_octets [of x y z w]
  show ?case by simp
qed simp_all

lemma decode_length:
  "decode_quanta al False strict s = Some bs \<Longrightarrow> length bs = length s * 3 div 4"
  by (induction s arbitrary: bs rule: quad_induct)
    (auto simp: decode_quad_def decode_tail2_def decode_tail3_def split: option.splits if_splits)

end

interpretation url64: base64_alphabet url_alphabet
  by unfold_locales (simp_all add: url_alphabet_def newline_def)

interpretation std64: base64_alphabet std_alphabet
  by unfold_locales (simp_all add: std_alphabet_def newline_def)

lemma RawURL_decode_encode [simp]: "RawURL_Decode (RawURL_Encode bs) = Some bs"
  by (simp add: base64_defs base64_decode_def url64.encode_filter url64.decode_encode)

lemma RawURL_strict_encode [simp]: "RawURL_Decode_strict (RawURL_Encode bs) = Some bs"
  by (simp add: base64_defs base64_decode_def url64.encode_filter url64.decode_encode)

lemma RawURL_Encode_length: "length (RawURL_Encode bs) = (length bs * 4 + 2) div 3"
  unfolding RawURL_Encode_def
  by (induction bs rule: triple_induct) auto

text \<open>
  A strict decoder is exact on texts whose length leaves no room for ignored newlines: the
  text is the canonical encoding of what it decodes to.
\<close>

lemma RawURL_strict_canonical:
  assumes "RawURL_Decode_strict s = Some bs" and "length s = (length bs * 4 + 2) div 3"
  shows "s = RawURL_Encode bs"
proof -
  let ?t = "filter (\<lambda>c. \<not> newline c) s"
  from assms(1) have "decode_quanta url_alphabet False True ?t = Some bs"
    by (simp add: base64_defs base64_decode_def)
  then have t: "encode_raw url_alphabet bs = ?t" by (rule url64.encode_decode)
  then have "length ?t = length s"
    using RawURL_Encode_length [of bs] assms(2) by (simp add: RawURL_Encode_def)
  then have "?t = s" by (metis filter_id_conv length_filter_less less_irrefl)
  with t show ?thesis by (simp add: RawURL_Encode_def)
qed

end
