(* ===== verification/AccessKey.thy ===== *)
theory AccessKey
  imports Base64 Clan_Errors
begin

text \<open>
  \<open>internal/accesskey\<close>: client key metadata (\<open>access_key.go\<close>) and the generation and
  verification of key secrets (\<open>verification.go\<close>). \<open>crypto/sha256\<close> is the argument
  \<open>sha256\<close>, and the random bytes of \<open>Generate\<close> are its argument \<open>secret\<close>.
\<close>

section \<open>Key metadata\<close>

record KeyIdentity =
  ki_ID :: string
  ki_Name :: string

record AccessKey =
  ak_identity :: KeyIdentity
  ak_enabled :: bool

definition zero_AccessKey :: AccessKey where
  "zero_AccessKey = \<lparr>ak_identity = \<lparr>ki_ID = [], ki_Name = []\<rparr>, ak_enabled = False\<rparr>"

definition AccessKey_New :: "KeyIdentity \<Rightarrow> bool \<Rightarrow> AccessKey result" where
  "AccessKey_New identity enabled =
     (if blank (ki_ID identity) then Inl (PlainErr ''access key: id is required'')
      else if blank (ki_Name identity) then Inl (PlainErr ''access key: name is required'')
      else Inr \<lparr>ak_identity = identity, ak_enabled = enabled\<rparr>)"

definition wf_AccessKey :: "AccessKey \<Rightarrow> bool" where
  "wf_AccessKey k \<longleftrightarrow> \<not> blank (ki_ID (ak_identity k)) \<and> \<not> blank (ki_Name (ak_identity k))"

lemma AccessKey_New_Inr:
  "AccessKey_New i en = Inr k \<longleftrightarrow> wf_AccessKey k \<and> k = \<lparr>ak_identity = i, ak_enabled = en\<rparr>"
  by (auto simp: AccessKey_New_def wf_AccessKey_def)

lemma AccessKey_New_wf:
  "wf_AccessKey k \<Longrightarrow> AccessKey_New (ak_identity k) (ak_enabled k) = Inr k"
  by (simp add: AccessKey_New_Inr)

section \<open>Secrets\<close>

definition keyPrefix :: string where "keyPrefix = ''clan_''"

type_synonym VerificationHash = bytes

definition Generate :: "(bytes \<Rightarrow> VerificationHash) \<Rightarrow> bytes \<Rightarrow> string \<times> VerificationHash" where
  "Generate sha256 secret =
     (let raw = keyPrefix @ RawURL_Encode secret in (raw, sha256 raw))"

definition Hash :: "(bytes \<Rightarrow> VerificationHash) \<Rightarrow> string \<Rightarrow> VerificationHash option" where
  "Hash sha256 raw =
     (if length raw \<noteq> 48 \<or> \<not> HasPrefix raw keyPrefix then None
      else case RawURL_Decode_strict (drop (length keyPrefix) raw) of
             None \<Rightarrow> None
           | Some secret \<Rightarrow> if length secret \<noteq> 32 then None else Some (sha256 raw))"

lemma Hash_Some_iff:
  "Hash sha256 raw = Some h \<longleftrightarrow>
     (\<exists>secret. length secret = 32 \<and> raw = keyPrefix @ RawURL_Encode secret \<and> h = sha256 raw)"
proof
  assume h: "Hash sha256 raw = Some h"
  then obtain secret where *: "length raw = 48" "HasPrefix raw keyPrefix"
    "RawURL_Decode_strict (drop (length keyPrefix) raw) = Some secret" "length secret = 32" "h = sha256 raw"
    by (auto simp: Hash_def split: if_splits option.splits)
  have "length (drop (length keyPrefix) raw) = (length secret * 4 + 2) div 3"
    using * by (simp add: keyPrefix_def)
  from RawURL_strict_canonical [OF *(3) this] HasPrefixD [OF *(2)] *
  show "\<exists>secret. length secret = 32 \<and> raw = keyPrefix @ RawURL_Encode secret \<and> h = sha256 raw"
    by auto
next
  assume "\<exists>secret. length secret = 32 \<and> raw = keyPrefix @ RawURL_Encode secret \<and> h = sha256 raw"
  then show "Hash sha256 raw = Some h"
    by (auto simp: Hash_def RawURL_Encode_length keyPrefix_def HasPrefix_def)
qed

text \<open>
  A presented key is hashed for lookup exactly when it is a key \<open>Generate\<close> can issue: the
  prefix and the one canonical encoding of 32 secret bytes. No other spelling of a secret (other
  case, padding, stray low bits, embedded newlines) is accepted, and the hash is the stored one.
\<close>

theorem Hash_accepts_exactly_generated:
  "Hash sha256 raw = Some h \<longleftrightarrow> (\<exists>secret. length secret = 32 \<and> Generate sha256 secret = (raw, h))"
  by (auto simp: Hash_Some_iff Generate_def Let_def)

text \<open>
  Different secrets give different raw keys, so a collision of stored hashes is a collision
  of the hash function.
\<close>

theorem Generate_injective:
  "fst (Generate sha256 a) = fst (Generate sha256 b) \<longleftrightarrow> a = b"
  by (auto simp: Generate_def Let_def) (metis RawURL_decode_encode option.inject)

end
