(* ===== verification/Account.thy ===== *)
theory Account
  imports Clan_Errors
begin

text \<open>
  \<open>internal/account/account.go\<close>: account identity and OAuth credentials. Snapshots are
  immutable, so the Go accessor methods are the record selectors.
\<close>

record AccountIdentity =
  ai_ID :: string
  ai_Name :: string

record OAuthCredentials =
  ChatGPTAccountID :: string
  AccessToken :: string
  RefreshToken :: string
  ExpiresAt :: time

record Account =
  acc_identity :: AccountIdentity
  acc_credentials :: OAuthCredentials

definition zero_OAuthCredentials :: OAuthCredentials where
  "zero_OAuthCredentials =
     \<lparr>ChatGPTAccountID = [], AccessToken = [], RefreshToken = [], ExpiresAt = 0\<rparr>"

definition ValidateCredentials :: "OAuthCredentials \<Rightarrow> error option" where
  "ValidateCredentials c =
     (if blank (ChatGPTAccountID c) then Some (PlainErr ''account: ChatGPT account ID is required'')
      else if blank (AccessToken c) then Some (PlainErr ''account: OAuth access token is required'')
      else None)"

definition Account_New :: "AccountIdentity \<Rightarrow> OAuthCredentials \<Rightarrow> Account result" where
  "Account_New identity credentials =
     (if blank (ai_ID identity) then Inl (PlainErr ''account: id is required'')
      else if blank (ai_Name identity) then Inl (PlainErr ''account: name is required'')
      else case ValidateCredentials credentials of
             Some err \<Rightarrow> Inl err
           | None \<Rightarrow> Inr \<lparr>acc_identity = identity, acc_credentials = credentials\<rparr>)"

definition wf_credentials :: "OAuthCredentials \<Rightarrow> bool" where
  "wf_credentials c \<longleftrightarrow> \<not> blank (ChatGPTAccountID c) \<and> \<not> blank (AccessToken c)"

definition wf_Account :: "Account \<Rightarrow> bool" where
  "wf_Account a \<longleftrightarrow> \<not> blank (ai_ID (acc_identity a)) \<and> \<not> blank (ai_Name (acc_identity a)) \<and>
     wf_credentials (acc_credentials a)"

lemma ValidateCredentials_None: "ValidateCredentials c = None \<longleftrightarrow> wf_credentials c"
  by (simp add: ValidateCredentials_def wf_credentials_def)

lemma Account_New_Inr:
  "Account_New i c = Inr a \<longleftrightarrow> wf_Account a \<and> a = \<lparr>acc_identity = i, acc_credentials = c\<rparr>"
proof -
  have "Account_New i c = Inr a \<longleftrightarrow>
      \<not> blank (ai_ID i) \<and> \<not> blank (ai_Name i) \<and> ValidateCredentials c = None \<and>
      a = \<lparr>acc_identity = i, acc_credentials = c\<rparr>"
    by (auto simp: Account_New_def split: option.splits)
  then show ?thesis by (auto simp: ValidateCredentials_None wf_Account_def)
qed

lemma Account_New_wf: "wf_Account a \<Longrightarrow> Account_New (acc_identity a) (acc_credentials a) = Inr a"
  by (simp add: Account_New_Inr)

end
