(* ===== verification/CredentialCipher.thy ===== *)
theory CredentialCipher
  imports Clan_Errors
begin

text \<open>
  \<open>internal/credentialcipher/cipher.go\<close>: the encrypted credential record. The AEAD that
  \<open>cipher.NewGCMWithRandomNonce\<close> returns is the record \<open>AEAD\<close> of its two operations, and
  \<open>aead_of\<close> builds it from a key; the random nonce of \<open>Seal\<close> is an argument. What the
  package relies on is named \<open>aead_ok\<close>: opening what was sealed under the same associated data
  gives the plaintext back, and sealing adds a 12-byte nonce and a 16-byte tag.
\<close>

section \<open>Definitions\<close>

record AEAD =
  Seal :: "bytes \<Rightarrow> bytes \<Rightarrow> bytes \<Rightarrow> bytes" \<comment> \<open>nonce, plaintext, associated data\<close>
  Open :: "bytes \<Rightarrow> bytes \<Rightarrow> bytes option" \<comment> \<open>sealed text, associated data\<close>

definition aead_ok :: "AEAD \<Rightarrow> bool" where
  "aead_ok a \<longleftrightarrow> (\<forall>n p d. length n = 12 \<longrightarrow>
     Open a (Seal a n p d) d = Some p \<and> length (Seal a n p d) = length p + 28)"

definition recordVersion :: char where "recordVersion = CHR 0x01"
definition recordOverhead :: nat where "recordOverhead = 1 + 12 + 16"
definition maxPlaintext :: int where "maxPlaintext = (2 ^ 32 - 2) * 16"

definition Cipher_New :: "(bytes \<Rightarrow> AEAD result) \<Rightarrow> bytes \<Rightarrow> AEAD result" where
  "Cipher_New aead_of key =
     (if length key \<noteq> 32 then Inl (PlainErr ''credential cipher: key must contain exactly 32 bytes'')
      else aead_of key)"

definition associatedData :: "string \<Rightarrow> bytes result" where
  "associatedData accountID =
     (if blank accountID then Inl (PlainErr ''credential cipher: account ID must be nonblank'')
      else Inr accountID)"

definition Encrypt :: "AEAD \<Rightarrow> bytes \<Rightarrow> string \<Rightarrow> bytes \<Rightarrow> bytes result" where
  "Encrypt c nonce accountID plaintext =
     (if int (length plaintext) > maxPlaintext \<or> int (length plaintext) > max_int64 - int recordOverhead
      then Inl (PlainErr ''credential cipher: plaintext is too large'')
      else case associatedData accountID of
             Inl err \<Rightarrow> Inl err
           | Inr aad \<Rightarrow> Inr (recordVersion # Seal c nonce plaintext aad))"

definition Decrypt :: "AEAD \<Rightarrow> string \<Rightarrow> bytes \<Rightarrow> bytes result" where
  "Decrypt c accountID record =
     (if length record < recordOverhead \<or> record ! 0 \<noteq> recordVersion \<or>
         int (length record - recordOverhead) > maxPlaintext
      then Inl (PlainErr ''credential cipher: invalid encrypted record'')
      else case associatedData accountID of
             Inl err \<Rightarrow> Inl err
           | Inr aad \<Rightarrow>
               (case Open c (drop 1 record) aad of
                  None \<Rightarrow> Inl (PlainErr ''credential cipher: authentication failed'')
                | Some plaintext \<Rightarrow> Inr plaintext))"

section \<open>Properties\<close>

lemma Encrypt_Inr:
  "Encrypt c n i p = Inr r \<longleftrightarrow>
     int (length p) \<le> maxPlaintext \<and> \<not> blank i \<and> r = recordVersion # Seal c n p i"
  by (auto simp: Encrypt_def associatedData_def maxPlaintext_def max_int64_def recordOverhead_def)

lemma Decrypt_Encrypt:
  assumes "aead_ok c" and "length n = 12" and "Encrypt c n i p = Inr r"
  shows "Decrypt c i r = Inr p"
  using assms by (auto simp: Encrypt_Inr Decrypt_def aead_ok_def associatedData_def recordOverhead_def)

text \<open>
  C39. Credentials survive storage: for every nonblank account ID and every plaintext within the
  cipher's bound, encryption succeeds with a record of exactly 29 bytes of overhead that starts
  with the version byte, and decrypting that record under the same ID gives the plaintext back;
  a blank ID or a larger plaintext is refused.
\<close>

theorem cipher_round_trip:
  assumes "aead_ok c" and "length n = 12"
  shows "if int (length p) \<le> maxPlaintext \<and> \<not> blank i
    then \<exists>r. Encrypt c n i p = Inr r \<and> length r = length p + 29 \<and> r ! 0 = recordVersion \<and>
             Decrypt c i r = Inr p
    else \<exists>e. Encrypt c n i p = Inl e"
proof (cases "int (length p) \<le> maxPlaintext \<and> \<not> blank i")
  case True
  let ?r = "recordVersion # Seal c n p i"
  have "Encrypt c n i p = Inr ?r" using True by (simp add: Encrypt_Inr)
  moreover from this have "Decrypt c i ?r = Inr p" using assms by (intro Decrypt_Encrypt)
  moreover have "length ?r = length p + 29" using assms by (simp add: aead_ok_def)
  ultimately show ?thesis using True by auto
next
  case False
  then have "\<not> (\<exists>r. Encrypt c n i p = Inr r)" by (auto simp: Encrypt_Inr)
  then have "\<exists>e. Encrypt c n i p = Inl e" by (cases "Encrypt c n i p") auto
  with False show ?thesis by auto
qed

text \<open>An AEAD that satisfies \<open>aead_ok\<close>: no confidentiality, but the associated data is checked.\<close>

definition plain_aead :: AEAD where
  "plain_aead =
     \<lparr>Seal = (\<lambda>n p d. n @ p @ take 16 (d @ replicate 16 CHR 0x00)),
      Open = (\<lambda>s d. if drop (length s - 16) s = take 16 (d @ replicate 16 CHR 0x00)
                    then Some (drop 12 (take (length s - 16) s)) else None)\<rparr>"

lemma plain_aead_ok: "aead_ok plain_aead"
  by (auto simp: aead_ok_def plain_aead_def)

theorem cipher_round_trip_witness:
  "aead_ok plain_aead \<and>
   (\<exists>r. Encrypt plain_aead (replicate 12 CHR 0x07) ''acct'' ''secret'' = Inr r \<and> length r = 35 \<and>
        r ! 0 = recordVersion \<and> Decrypt plain_aead ''acct'' r = Inr ''secret'')"
proof -
  have "\<not> blank ''acct''" by code_simp
  moreover have "int (length ''secret'') \<le> maxPlaintext" by (simp add: maxPlaintext_def)
  ultimately show ?thesis
    using cipher_round_trip [OF plain_aead_ok, of "replicate 12 CHR 0x07" "''secret''" "''acct''"] plain_aead_ok
    by simp
qed

end
