(* ===== verification/Storage.thy ===== *)
theory Storage
  imports Account AccessKey CredentialCipher
begin

text \<open>
  \<open>internal/storage\<close>: the SQLite tables and the statements on accounts (\<open>account.go\<close>) and
  client keys (\<open>accesskey.go\<close>). A database is the record of its tables, each the list of its
  rows; a statement is a function on it. What SQLite or a canceled context can do to a call is
  the argument \<open>io\<close>: \<open>Some e\<close> is the error the driver returns, with nothing written.
  The JSON encoding of credentials and the cipher are in \<open>StoreEnv\<close>, the nonce of an encryption
  is an argument.
\<close>

section \<open>Tables and records\<close>

record account_row =
  ar_id :: string
  ar_name :: string
  ar_enabled :: int
  ar_credentials :: bytes

record key_row =
  kr_id :: string
  kr_name :: string
  kr_hash :: bytes
  kr_enabled :: int
  kr_limit :: int

record request_row =
  rr_id :: string
  rr_finished_at :: int
  rr_key_id :: string
  rr_account_id :: "string option"
  rr_model :: "string option"
  rr_result :: string
  rr_duration_ms :: int
  rr_response_started :: int
  rr_input :: "int option"
  rr_output :: "int option"
  rr_total :: "int option"

record DB =
  accounts_t :: "account_row list"
  access_keys_t :: "key_row list"
  requests_t :: "request_row list"

definition empty_DB :: DB where
  "empty_DB = \<lparr>accounts_t = [], access_keys_t = [], requests_t = []\<rparr>"

record StoreEnv =
  se_cipher :: AEAD
  se_marshal :: "OAuthCredentials \<Rightarrow> bytes option"
  se_unmarshal :: "bytes \<Rightarrow> OAuthCredentials option"

record AccountRecord =
  rec_Account :: Account
  rec_Enabled :: bool
  rec_revision :: bytes

record AccessKeyRecord =
  akr_Key :: AccessKey
  akr_VerificationHash :: VerificationHash
  akr_ConcurrencyLimit :: int

definition invalid_input :: "string \<Rightarrow> error" where
  "invalid_input msg = WrapErr msg (Sentinel ErrInvalid)"

definition validateAccountID :: "string \<Rightarrow> error option" where
  "validateAccountID i = (if blank i then Some (invalid_input ''account id is required'') else None)"

definition validateAccessKeyID :: "string \<Rightarrow> error option" where
  "validateAccessKeyID i = (if blank i then Some (invalid_input ''access key id is required'') else None)"

datatype sql_error = ConstraintPrimaryKey | ConstraintUnique | OtherSQL error

definition classifyWriteError :: "string \<Rightarrow> sql_error \<Rightarrow> error" where
  "classifyWriteError operation err =
     (case err of
        ConstraintPrimaryKey \<Rightarrow> WrapErr operation (Sentinel ErrConflict)
      | ConstraintUnique \<Rightarrow> WrapErr operation (Sentinel ErrConflict)
      | OtherSQL e \<Rightarrow> WrapErr operation e)"

definition requireAffected :: "nat result \<Rightarrow> error option" where
  "requireAffected result =
     (case result of
        Inl err \<Rightarrow> Some (WrapErr ''storage: checking updated record'' err)
      | Inr affected \<Rightarrow> if affected \<noteq> 0 then None else Some (Sentinel ErrNotFound))"

section \<open>Accounts\<close>

definition validateAccount :: "Account \<Rightarrow> (AccountIdentity \<times> OAuthCredentials) result" where
  "validateAccount value =
     (case Account_New (acc_identity value) (acc_credentials value) of
        Inl _ \<Rightarrow> Inl (invalid_input ''account'')
      | Inr _ \<Rightarrow> Inr (acc_identity value, acc_credentials value))"

definition encryptCredentials :: "StoreEnv \<Rightarrow> bytes \<Rightarrow> string \<Rightarrow> OAuthCredentials \<Rightarrow> bytes result" where
  "encryptCredentials env nonce i credentials =
     (case se_marshal env credentials of
        None \<Rightarrow> Inl (invalid_input ''storage: encoding account credentials'')
      | Some encoded \<Rightarrow>
          (case Encrypt (se_cipher env) nonce i encoded of
             Inl _ \<Rightarrow> Inl (invalid_input ''storage: encrypting account credentials'')
           | Inr encrypted \<Rightarrow> Inr encrypted))"

definition decodeAccount :: "StoreEnv \<Rightarrow> string \<Rightarrow> string \<Rightarrow> int \<Rightarrow> bytes \<Rightarrow> AccountRecord result" where
  "decodeAccount env i name enabled encrypted =
     (if enabled \<noteq> 0 \<and> enabled \<noteq> 1 then Inl (Sentinel ErrCorrupt)
      else case Decrypt (se_cipher env) i encrypted of
             Inl _ \<Rightarrow> Inl (Sentinel ErrCorrupt)
           | Inr plaintext \<Rightarrow>
               (case se_unmarshal env plaintext of
                  None \<Rightarrow> Inl (Sentinel ErrCorrupt)
                | Some credentials \<Rightarrow>
                    (case Account_New \<lparr>ai_ID = i, ai_Name = name\<rparr> credentials of
                       Inl _ \<Rightarrow> Inl (Sentinel ErrCorrupt)
                     | Inr value \<Rightarrow>
                         Inr \<lparr>rec_Account = value, rec_Enabled = (enabled = 1), rec_revision = encrypted\<rparr>)))"

definition CreateAccount ::
  "StoreEnv \<Rightarrow> bytes \<Rightarrow> error option \<Rightarrow> DB \<Rightarrow> Account \<Rightarrow> bool \<Rightarrow> DB \<times> error option" where
  "CreateAccount env nonce io db value enabled =
     (case validateAccount value of
        Inl err \<Rightarrow> (db, Some err)
      | Inr (identity, credentials) \<Rightarrow>
          (case encryptCredentials env nonce (ai_ID identity) credentials of
             Inl err \<Rightarrow> (db, Some err)
           | Inr encrypted \<Rightarrow>
               (case io of
                  Some e \<Rightarrow> (db, Some (classifyWriteError ''creating account'' (OtherSQL e)))
                | None \<Rightarrow>
                    if tbl_lookup ar_id (ai_ID identity) (accounts_t db) \<noteq> None
                    then (db, Some (classifyWriteError ''creating account'' ConstraintPrimaryKey))
                    else (db\<lparr>accounts_t := accounts_t db @
                            [\<lparr>ar_id = ai_ID identity, ar_name = ai_Name identity,
                              ar_enabled = of_bool enabled, ar_credentials = encrypted\<rparr>]\<rparr>, None))))"

definition GetAccount :: "StoreEnv \<Rightarrow> error option \<Rightarrow> DB \<Rightarrow> string \<Rightarrow> AccountRecord result" where
  "GetAccount env io db i =
     (case validateAccountID i of
        Some err \<Rightarrow> Inl err
      | None \<Rightarrow>
          (case io of
             Some e \<Rightarrow> Inl (WrapErr ''storage: reading account'' e)
           | None \<Rightarrow>
               (case tbl_lookup ar_id i (accounts_t db) of
                  None \<Rightarrow> Inl (Sentinel ErrNotFound)
                | Some row \<Rightarrow> decodeAccount env i (ar_name row) (ar_enabled row) (ar_credentials row))))"

fun decode_rows :: "StoreEnv \<Rightarrow> account_row list \<Rightarrow> AccountRecord list result" where
  "decode_rows env [] = Inr []"
| "decode_rows env (row # rows) =
     (case decodeAccount env (ar_id row) (ar_name row) (ar_enabled row) (ar_credentials row) of
        Inl err \<Rightarrow> Inl err
      | Inr r \<Rightarrow>
          (case decode_rows env rows of Inl err \<Rightarrow> Inl err | Inr rs \<Rightarrow> Inr (r # rs)))"

definition ListAccounts :: "StoreEnv \<Rightarrow> error option \<Rightarrow> DB \<Rightarrow> AccountRecord list result" where
  "ListAccounts env io db =
     (case io of
        Some e \<Rightarrow> Inl (WrapErr ''storage: listing accounts'' e)
      | None \<Rightarrow> decode_rows env (sort_key ar_id (accounts_t db)))"

definition ReplaceAccountCredentialsIfUnchanged ::
  "StoreEnv \<Rightarrow> bytes \<Rightarrow> error option \<Rightarrow> DB \<Rightarrow> AccountRecord \<Rightarrow> OAuthCredentials \<Rightarrow> DB \<times> error option" where
  "ReplaceAccountCredentialsIfUnchanged env nonce io db previous credentials =
     (let i = ai_ID (acc_identity (rec_Account previous)) in
      case validateAccountID i of
        Some err \<Rightarrow> (db, Some err)
      | None \<Rightarrow>
          if rec_revision previous = [] then (db, Some (invalid_input ''account revision is required''))
          else (case ValidateCredentials credentials of
             Some err \<Rightarrow> (db, Some (invalid_input ''credentials''))
           | None \<Rightarrow>
               (case encryptCredentials env nonce i credentials of
                  Inl err \<Rightarrow> (db, Some err)
                | Inr encrypted \<Rightarrow>
                    (case io of
                       Some e \<Rightarrow> (db, Some (WrapErr ''storage: conditionally replacing account credentials'' e))
                     | None \<Rightarrow>
                         let hit = (\<lambda>row. ar_id row = i \<and> ar_credentials row = rec_revision previous \<and> ar_enabled row = 1);
                             db' = db\<lparr>accounts_t := tbl_update hit (\<lambda>row. row\<lparr>ar_credentials := encrypted\<rparr>) (accounts_t db)\<rparr>
                         in case requireAffected (Inr (tbl_affected hit (accounts_t db))) of
                              None \<Rightarrow> (db', None)
                            | Some err \<Rightarrow> (db', Some (if errors_Is err ErrNotFound then Sentinel ErrConflict else err))))))"

text \<open>The conditional update of \<open>EnableAccount\<close> and the number of rows it changed.\<close>

definition enable_write :: "DB \<Rightarrow> string \<Rightarrow> bytes \<Rightarrow> bytes \<Rightarrow> DB \<times> nat" where
  "enable_write db i revision encrypted =
     (let hit = (\<lambda>row. ar_id row = i \<and> ar_enabled row = 0 \<and> ar_credentials row = revision)
      in (db\<lparr>accounts_t := tbl_update hit (\<lambda>row. row\<lparr>ar_enabled := 1, ar_credentials := encrypted\<rparr>) (accounts_t db)\<rparr>,
          tbl_affected hit (accounts_t db)))"

text \<open>
  One turn of the loop in \<open>EnableAccount\<close>: the read, whatever other connections do before the
  write (\<open>et_others\<close>), the conditional write. \<open>None\<close> means the loop goes on.
\<close>

record enable_turn =
  et_nonce :: bytes
  et_others :: "DB \<Rightarrow> DB"
  et_io_read :: "error option"
  et_io_write :: "error option"

definition enable_once :: "StoreEnv \<Rightarrow> enable_turn \<Rightarrow> DB \<Rightarrow> string \<Rightarrow> DB \<times> error option option" where
  "enable_once env turn db i =
     (case GetAccount env (et_io_read turn) db i of
        Inl err \<Rightarrow> (et_others turn db, Some (Some err))
      | Inr previous \<Rightarrow>
          if rec_Enabled previous then (et_others turn db, Some None)
          else (case encryptCredentials env (et_nonce turn) i (acc_credentials (rec_Account previous)) of
             Inl err \<Rightarrow> (et_others turn db, Some (Some err))
           | Inr encrypted \<Rightarrow>
               (case et_io_write turn of
                  Some e \<Rightarrow> (et_others turn db, Some (Some (WrapErr ''storage: enabling account'' e)))
                | None \<Rightarrow>
                    (let (db', affected) = enable_write (et_others turn db) i (rec_revision previous) encrypted;
                         err = requireAffected (Inr affected)
                     in if err = Some (Sentinel ErrNotFound) then (db', None) else (db', Some err)))))"

fun EnableAccount :: "StoreEnv \<Rightarrow> enable_turn list \<Rightarrow> DB \<Rightarrow> string \<Rightarrow> DB \<times> error option option" where
  "EnableAccount env [] db i = (db, None)"
| "EnableAccount env (turn # turns) db i =
     (case enable_once env turn db i of
        (db', None) \<Rightarrow> EnableAccount env turns db' i
      | (db', Some r) \<Rightarrow> (db', Some r))"

definition DisableAccount :: "error option \<Rightarrow> DB \<Rightarrow> string \<Rightarrow> DB \<times> error option" where
  "DisableAccount io db i =
     (case validateAccountID i of
        Some err \<Rightarrow> (db, Some err)
      | None \<Rightarrow>
          (case io of
             Some e \<Rightarrow> (db, Some (WrapErr ''storage: disabling account'' e))
           | None \<Rightarrow>
               (db\<lparr>accounts_t := tbl_update (\<lambda>row. ar_id row = i) (\<lambda>row. row\<lparr>ar_enabled := 0\<rparr>) (accounts_t db)\<rparr>,
                requireAffected (Inr (tbl_affected (\<lambda>row. ar_id row = i) (accounts_t db))))))"

definition DeleteAccount :: "error option \<Rightarrow> DB \<Rightarrow> string \<Rightarrow> DB \<times> error option" where
  "DeleteAccount io db i =
     (case validateAccountID i of
        Some err \<Rightarrow> (db, Some err)
      | None \<Rightarrow>
          (case io of
             Some e \<Rightarrow> (db, Some (WrapErr ''storage: deleting account'' e))
           | None \<Rightarrow>
               (db\<lparr>accounts_t := tbl_delete (\<lambda>row. ar_id row = i) (accounts_t db)\<rparr>,
                requireAffected (Inr (tbl_affected (\<lambda>row. ar_id row = i) (accounts_t db))))))"

section \<open>Client keys\<close>

definition unlimitedConcurrencyLimit :: int where "unlimitedConcurrencyLimit = - 1"

definition decodeAccessKey :: "string \<Rightarrow> string \<Rightarrow> bytes \<Rightarrow> int \<Rightarrow> int \<Rightarrow> AccessKeyRecord result" where
  "decodeAccessKey i name storedHash enabled limit =
     (if length storedHash \<noteq> 32 then Inl (Sentinel ErrCorrupt)
      else if enabled \<noteq> 0 \<and> enabled \<noteq> 1 then Inl (Sentinel ErrCorrupt)
      else if limit < unlimitedConcurrencyLimit then Inl (Sentinel ErrCorrupt)
      else case AccessKey_New \<lparr>ki_ID = i, ki_Name = name\<rparr> (enabled = 1) of
             Inl _ \<Rightarrow> Inl (Sentinel ErrCorrupt)
           | Inr key \<Rightarrow>
               Inr \<lparr>akr_Key = key, akr_VerificationHash = storedHash, akr_ConcurrencyLimit = limit\<rparr>)"

definition scanAccessKey :: "key_row \<Rightarrow> AccessKeyRecord result" where
  "scanAccessKey row = decodeAccessKey (kr_id row) (kr_name row) (kr_hash row) (kr_enabled row) (kr_limit row)"

definition CreateAccessKey ::
  "error option \<Rightarrow> DB \<Rightarrow> AccessKey \<Rightarrow> VerificationHash \<Rightarrow> int \<Rightarrow> DB \<times> error option" where
  "CreateAccessKey io db key hash concurrencyLimit =
     (case AccessKey_New (ak_identity key) (ak_enabled key) of
        Inl _ \<Rightarrow> (db, Some (invalid_input ''access key''))
      | Inr _ \<Rightarrow>
          if concurrencyLimit < unlimitedConcurrencyLimit
          then (db, Some (invalid_input ''concurrency limit is invalid''))
          else (case io of
             Some e \<Rightarrow> (db, Some (classifyWriteError ''creating access key'' (OtherSQL e)))
           | None \<Rightarrow>
               if tbl_lookup kr_id (ki_ID (ak_identity key)) (access_keys_t db) \<noteq> None
               then (db, Some (classifyWriteError ''creating access key'' ConstraintPrimaryKey))
               else if tbl_lookup kr_hash hash (access_keys_t db) \<noteq> None
               then (db, Some (classifyWriteError ''creating access key'' ConstraintUnique))
               else (db\<lparr>access_keys_t := access_keys_t db @
                       [\<lparr>kr_id = ki_ID (ak_identity key), kr_name = ki_Name (ak_identity key), kr_hash = hash,
                         kr_enabled = of_bool (ak_enabled key), kr_limit = concurrencyLimit\<rparr>]\<rparr>, None)))"

fun scan_keys :: "key_row list \<Rightarrow> AccessKeyRecord list result" where
  "scan_keys [] = Inr []"
| "scan_keys (row # rows) =
     (case scanAccessKey row of
        Inl err \<Rightarrow> Inl err
      | Inr r \<Rightarrow> (case scan_keys rows of Inl err \<Rightarrow> Inl err | Inr rs \<Rightarrow> Inr (r # rs)))"

definition ListAccessKeys :: "error option \<Rightarrow> DB \<Rightarrow> AccessKeyRecord list result" where
  "ListAccessKeys io db =
     (case io of
        Some e \<Rightarrow> Inl (WrapErr ''storage: listing access keys'' e)
      | None \<Rightarrow> scan_keys (sort_key kr_id (access_keys_t db)))"

definition FindAccessKeyByHash :: "error option \<Rightarrow> DB \<Rightarrow> VerificationHash \<Rightarrow> AccessKeyRecord result" where
  "FindAccessKeyByHash io db hash =
     (case io of
        Some e \<Rightarrow> Inl (WrapErr ''storage: finding access key'' (WrapErr ''storage: scanning access key'' e))
      | None \<Rightarrow>
          (case tbl_lookup kr_hash hash (access_keys_t db) of
             None \<Rightarrow> Inl (Sentinel ErrNotFound)
           | Some row \<Rightarrow>
               (case scanAccessKey row of
                  Inl err \<Rightarrow> Inl (WrapErr ''storage: finding access key'' err)
                | Inr r \<Rightarrow> Inr r)))"

definition RevokeAccessKey :: "error option \<Rightarrow> DB \<Rightarrow> string \<Rightarrow> DB \<times> error option" where
  "RevokeAccessKey io db i =
     (case validateAccessKeyID i of
        Some err \<Rightarrow> (db, Some err)
      | None \<Rightarrow>
          (case io of
             Some e \<Rightarrow> (db, Some (WrapErr ''storage: revoking access key'' e))
           | None \<Rightarrow>
               (db\<lparr>access_keys_t := tbl_update (\<lambda>row. kr_id row = i) (\<lambda>row. row\<lparr>kr_enabled := 0\<rparr>) (access_keys_t db)\<rparr>,
                requireAffected (Inr (tbl_affected (\<lambda>row. kr_id row = i) (access_keys_t db))))))"

definition UpdateAccessKeyConcurrency :: "error option \<Rightarrow> DB \<Rightarrow> string \<Rightarrow> int \<Rightarrow> DB \<times> error option" where
  "UpdateAccessKeyConcurrency io db i concurrencyLimit =
     (case validateAccessKeyID i of
        Some err \<Rightarrow> (db, Some err)
      | None \<Rightarrow>
          if concurrencyLimit < unlimitedConcurrencyLimit
          then (db, Some (invalid_input ''concurrency limit is invalid''))
          else (case io of
             Some e \<Rightarrow> (db, Some (WrapErr ''storage: updating access-key concurrency'' e))
           | None \<Rightarrow>
               (db\<lparr>access_keys_t := tbl_update (\<lambda>row. kr_id row = i) (\<lambda>row. row\<lparr>kr_limit := concurrencyLimit\<rparr>) (access_keys_t db)\<rparr>,
                requireAffected (Inr (tbl_affected (\<lambda>row. kr_id row = i) (access_keys_t db))))))"

section \<open>Table lemmas\<close>

interpretation upd_cred: keyed_update ar_id "\<lambda>row. row\<lparr>ar_credentials := e\<rparr>" for e
  by unfold_locales simp

interpretation upd_enable: keyed_update ar_id "\<lambda>row. row\<lparr>ar_enabled := 1, ar_credentials := e\<rparr>" for e
  by unfold_locales simp

interpretation upd_disable: keyed_update ar_id "\<lambda>row. row\<lparr>ar_enabled := 0\<rparr>"
  by unfold_locales simp

interpretation upd_revoke: keyed_update kr_id "\<lambda>row. row\<lparr>kr_enabled := 0\<rparr>"
  by unfold_locales simp

interpretation upd_revoke_hash: keyed_update kr_hash "\<lambda>row. row\<lparr>kr_enabled := 0\<rparr>"
  by unfold_locales simp

interpretation upd_limit: keyed_update kr_id "\<lambda>row. row\<lparr>kr_limit := n\<rparr>" for n
  by unfold_locales simp

interpretation upd_limit_hash: keyed_update kr_hash "\<lambda>row. row\<lparr>kr_limit := n\<rparr>" for n
  by unfold_locales simp

lemmas unique_updates =
  upd_cred.unique_update upd_enable.unique_update upd_disable.unique_update
  upd_revoke.unique_update upd_revoke_hash.unique_update upd_limit.unique_update
  upd_limit_hash.unique_update

text \<open>What each mutation does to the tables, errors included.\<close>

lemma validateAccount_Inr: "validateAccount v = Inr p \<longleftrightarrow> wf_Account v \<and> p = (acc_identity v, acc_credentials v)"
proof -
  have "wf_Account v \<longleftrightarrow> (\<exists>a. Account_New (acc_identity v) (acc_credentials v) = Inr a)"
    by (cases v) (auto simp: Account_New_Inr)
  then show ?thesis
    by (cases "Account_New (acc_identity v) (acc_credentials v)") (auto simp: validateAccount_def)
qed

lemma update_no_hit: "(\<And>row. row \<in> set t \<Longrightarrow> \<not> p row) \<Longrightarrow> tbl_update p f t = t"
  by (auto simp: tbl_update_def intro!: map_idI)

lemma CreateAccount_tables:
  assumes "CreateAccount env nonce io db v en = (db', r)"
  shows "(r \<noteq> None \<and> db' = db) \<or>
    (r = None \<and> wf_Account v \<and>
     (\<exists>e. encryptCredentials env nonce (ai_ID (acc_identity v)) (acc_credentials v) = Inr e \<and>
      tbl_lookup ar_id (ai_ID (acc_identity v)) (accounts_t db) = None \<and>
      db' = db\<lparr>accounts_t := accounts_t db @
        [\<lparr>ar_id = ai_ID (acc_identity v), ar_name = ai_Name (acc_identity v), ar_enabled = of_bool en, ar_credentials = e\<rparr>]\<rparr>))"
  using assms
  by (auto simp: CreateAccount_def validateAccount_Inr split: sum.splits option.splits if_splits)

lemma Replace_tables:
  assumes "ReplaceAccountCredentialsIfUnchanged env nonce io db prev c = (db', r)"
  defines "i \<equiv> ai_ID (acc_identity (rec_Account prev))"
  defines "hit \<equiv> (\<lambda>row. ar_id row = i \<and> ar_credentials row = rec_revision prev \<and> ar_enabled row = 1)"
  shows "(r \<noteq> None \<and> db' = db) \<or>
    (r = None \<and> (\<exists>row \<in> set (accounts_t db). hit row) \<and> wf_credentials c \<and>
     (\<exists>e. encryptCredentials env nonce i c = Inr e \<and>
       db' = db\<lparr>accounts_t := tbl_update hit (\<lambda>row. row\<lparr>ar_credentials := e\<rparr>) (accounts_t db)\<rparr>))"
proof -
  have same: "tbl_update hit f (accounts_t db) = accounts_t db" if "tbl_affected hit (accounts_t db) = 0" for f
    using that by (intro update_no_hit) (auto simp: tbl_affected_def filter_empty_conv)
  have ex: "\<exists>row \<in> set (accounts_t db). hit row" if "tbl_affected hit (accounts_t db) \<noteq> 0"
    using that by (auto simp: tbl_affected_def filter_empty_conv)
  show ?thesis
    using assms(1) same ex
    unfolding ReplaceAccountCredentialsIfUnchanged_def Let_def i_def [symmetric] hit_def [symmetric]
    by (auto simp: requireAffected_def validateAccountID_def ValidateCredentials_None split: sum.splits option.splits if_splits)
qed

lemma DisableAccount_tables:
  assumes "DisableAccount io db i = (db', r)"
  shows "(r \<noteq> None \<and> db' = db) \<or>
    (r = None \<and> \<not> blank i \<and> tbl_lookup ar_id i (accounts_t db) \<noteq> None \<and>
     db' = db\<lparr>accounts_t := tbl_update (\<lambda>row. ar_id row = i) (\<lambda>row. row\<lparr>ar_enabled := 0\<rparr>) (accounts_t db)\<rparr>)"
proof -
  have "tbl_update (\<lambda>row. ar_id row = i) f (accounts_t db) = accounts_t db"
    if "tbl_lookup ar_id i (accounts_t db) = None" for f
    using that by (intro update_no_hit) (auto simp: tbl_lookup_None_iff)
  then show ?thesis
    using assms
    by (auto simp: DisableAccount_def validateAccountID_def requireAffected_def tbl_affected_key split: option.splits if_splits)
qed

lemma DeleteAccount_tables:
  assumes "DeleteAccount io db i = (db', r)"
  shows "(r \<noteq> None \<and> db' = db) \<or>
    (r = None \<and> \<not> blank i \<and> tbl_lookup ar_id i (accounts_t db) \<noteq> None \<and>
     db' = db\<lparr>accounts_t := tbl_delete (\<lambda>row. ar_id row = i) (accounts_t db)\<rparr>)"
proof -
  have "tbl_delete (\<lambda>row. ar_id row = i) (accounts_t db) = accounts_t db"
    if "tbl_lookup ar_id i (accounts_t db) = None"
    using that by (auto simp: tbl_delete_def tbl_lookup_None_iff intro!: filter_True)
  then show ?thesis
    using assms
    by (auto simp: DeleteAccount_def validateAccountID_def requireAffected_def tbl_affected_key split: option.splits if_splits)
qed

lemma RevokeAccessKey_tables:
  assumes "RevokeAccessKey io db i = (db', r)"
  shows "(r \<noteq> None \<and> db' = db) \<or>
    (r = None \<and> \<not> blank i \<and> tbl_lookup kr_id i (access_keys_t db) \<noteq> None \<and>
     db' = db\<lparr>access_keys_t := tbl_update (\<lambda>row. kr_id row = i) (\<lambda>row. row\<lparr>kr_enabled := 0\<rparr>) (access_keys_t db)\<rparr>)"
proof -
  have "tbl_update (\<lambda>row. kr_id row = i) f (access_keys_t db) = access_keys_t db"
    if "tbl_lookup kr_id i (access_keys_t db) = None" for f
    using that by (intro update_no_hit) (auto simp: tbl_lookup_None_iff)
  then show ?thesis
    using assms
    by (auto simp: RevokeAccessKey_def validateAccessKeyID_def requireAffected_def tbl_affected_key split: option.splits if_splits)
qed

lemma UpdateAccessKeyConcurrency_tables:
  assumes "UpdateAccessKeyConcurrency io db i n = (db', r)"
  shows "(r \<noteq> None \<and> db' = db) \<or>
    (r = None \<and> - 1 \<le> n \<and> tbl_lookup kr_id i (access_keys_t db) \<noteq> None \<and>
     db' = db\<lparr>access_keys_t := tbl_update (\<lambda>row. kr_id row = i) (\<lambda>row. row\<lparr>kr_limit := n\<rparr>) (access_keys_t db)\<rparr>)"
proof -
  have "tbl_update (\<lambda>row. kr_id row = i) f (access_keys_t db) = access_keys_t db"
    if "tbl_lookup kr_id i (access_keys_t db) = None" for f
    using that by (intro update_no_hit) (auto simp: tbl_lookup_None_iff)
  then show ?thesis
    using assms
    by (auto simp: UpdateAccessKeyConcurrency_def validateAccessKeyID_def requireAffected_def tbl_affected_key
        unlimitedConcurrencyLimit_def split: option.splits if_splits)
qed

lemma CreateAccessKey_tables:
  assumes "CreateAccessKey io db key hash n = (db', r)"
  shows "(r \<noteq> None \<and> db' = db) \<or>
    (r = None \<and> wf_AccessKey key \<and> - 1 \<le> n \<and>
     tbl_lookup kr_id (ki_ID (ak_identity key)) (access_keys_t db) = None \<and>
     tbl_lookup kr_hash hash (access_keys_t db) = None \<and>
     db' = db\<lparr>access_keys_t := access_keys_t db @
       [\<lparr>kr_id = ki_ID (ak_identity key), kr_name = ki_Name (ak_identity key), kr_hash = hash,
         kr_enabled = of_bool (ak_enabled key), kr_limit = n\<rparr>]\<rparr>)"
  using assms
  by (cases key) (auto simp: CreateAccessKey_def AccessKey_New_Inr unlimitedConcurrencyLimit_def
      split: sum.splits option.splits if_splits)

section \<open>Well-formed databases\<close>

text \<open>
  \<open>encoding/json\<close> gives back the credentials it encoded (it does for values that are valid
  UTF-8 with times it can represent); the hypothesis is stated of the credentials stored.
\<close>

definition codec_ok :: "StoreEnv \<Rightarrow> OAuthCredentials \<Rightarrow> bool" where
  "codec_ok env c \<longleftrightarrow> (case se_marshal env c of None \<Rightarrow> True | Some b \<Rightarrow> se_unmarshal env b = Some c)"

definition wf_account_row :: "StoreEnv \<Rightarrow> account_row \<Rightarrow> bool" where
  "wf_account_row env r \<longleftrightarrow> \<not> blank (ar_id r) \<and> \<not> blank (ar_name r) \<and> ar_enabled r \<in> {0, 1} \<and>
     (\<exists>c. wf_credentials c \<and>
       decodeAccount env (ar_id r) (ar_name r) (ar_enabled r) (ar_credentials r) =
         Inr \<lparr>rec_Account = \<lparr>acc_identity = \<lparr>ai_ID = ar_id r, ai_Name = ar_name r\<rparr>, acc_credentials = c\<rparr>,
              rec_Enabled = (ar_enabled r = 1), rec_revision = ar_credentials r\<rparr>)"

definition wf_key_row :: "key_row \<Rightarrow> bool" where
  "wf_key_row r \<longleftrightarrow> \<not> blank (kr_id r) \<and> \<not> blank (kr_name r) \<and> length (kr_hash r) = 32 \<and>
     kr_enabled r \<in> {0, 1} \<and> - 1 \<le> kr_limit r"

definition db_wf :: "StoreEnv \<Rightarrow> DB \<Rightarrow> bool" where
  [inv_defs]: "db_wf env db \<longleftrightarrow>
     tbl_keys_unique ar_id (accounts_t db) \<and> list_all (wf_account_row env) (accounts_t db) \<and>
     tbl_keys_unique kr_id (access_keys_t db) \<and> tbl_keys_unique kr_hash (access_keys_t db) \<and>
     list_all wf_key_row (access_keys_t db)"

lemma decode_encrypted:
  assumes "aead_ok (se_cipher env)" and "length nonce = 12" and "codec_ok env c"
    and "encryptCredentials env nonce i c = Inr e" and "wf_credentials c"
    and "\<not> blank name" and "en \<in> {0, 1}"
  shows "decodeAccount env i name en e =
    Inr \<lparr>rec_Account = \<lparr>acc_identity = \<lparr>ai_ID = i, ai_Name = name\<rparr>, acc_credentials = c\<rparr>,
         rec_Enabled = (en = 1), rec_revision = e\<rparr>"
proof -
  obtain b where b: "se_marshal env c = Some b" "Encrypt (se_cipher env) nonce i b = Inr e"
    using assms(4) by (auto simp: encryptCredentials_def split: option.splits sum.splits)
  have dec: "Decrypt (se_cipher env) i e = Inr b" using Decrypt_Encrypt [OF assms(1,2) b(2)] .
  have un: "se_unmarshal env b = Some c" using assms(3) b by (simp add: codec_ok_def)
  have "\<not> blank i" using b(2) by (simp add: Encrypt_Inr)
  then have "Account_New \<lparr>ai_ID = i, ai_Name = name\<rparr> c =
      Inr \<lparr>acc_identity = \<lparr>ai_ID = i, ai_Name = name\<rparr>, acc_credentials = c\<rparr>"
    using assms by (simp add: Account_New_Inr wf_Account_def)
  then show ?thesis using dec un assms(7) by (auto simp: decodeAccount_def)
qed

lemma wf_account_row_encrypted:
  assumes "aead_ok (se_cipher env)" and "length nonce = 12" and "codec_ok env c"
    and "encryptCredentials env nonce (ar_id r) c = Inr (ar_credentials r)" and "wf_credentials c"
    and "\<not> blank (ar_name r)" and "ar_enabled r \<in> {0, 1}"
  shows "wf_account_row env r"
proof -
  have "\<not> blank (ar_id r)"
    using assms(4) by (auto simp: encryptCredentials_def Encrypt_Inr split: option.splits sum.splits)
  then show ?thesis
    using decode_encrypted [OF assms] assms(5-7) by (auto simp: wf_account_row_def)
qed

lemma wf_account_row_disable: "wf_account_row env r \<Longrightarrow> wf_account_row env (r\<lparr>ar_enabled := 0\<rparr>)"
  by (auto simp: wf_account_row_def decodeAccount_def split: sum.splits option.splits if_splits)

text \<open>Every write of the two files, at the granularity of SQL statements, with any outcome.\<close>

inductive db_step :: "StoreEnv \<Rightarrow> DB \<Rightarrow> DB \<Rightarrow> bool" for env where
  create_account: "CreateAccount env nonce io db v en = (db', r) \<Longrightarrow> length nonce = 12 \<Longrightarrow>
    codec_ok env (acc_credentials v) \<Longrightarrow> db_step env db db'"
| replace: "ReplaceAccountCredentialsIfUnchanged env nonce io db prev c = (db', r) \<Longrightarrow> length nonce = 12 \<Longrightarrow>
    codec_ok env c \<Longrightarrow> db_step env db db'"
| enable: "enable_write db i revn e = (db', n) \<Longrightarrow> encryptCredentials env nonce i c = Inr e \<Longrightarrow>
    length nonce = 12 \<Longrightarrow> wf_credentials c \<Longrightarrow> codec_ok env c \<Longrightarrow> db_step env db db'"
| disable: "DisableAccount io db i = (db', r) \<Longrightarrow> db_step env db db'"
| delete: "DeleteAccount io db i = (db', r) \<Longrightarrow> db_step env db db'"
| create_key: "CreateAccessKey io db key hash n = (db', r) \<Longrightarrow> length hash = 32 \<Longrightarrow> db_step env db db'"
| revoke: "RevokeAccessKey io db i = (db', r) \<Longrightarrow> db_step env db db'"
| set_limit: "UpdateAccessKeyConcurrency io db i n = (db', r) \<Longrightarrow> db_step env db db'"

lemma list_all_update:
  "list_all P t \<Longrightarrow> (\<And>r. P r \<Longrightarrow> p r \<Longrightarrow> P (f r)) \<Longrightarrow> list_all P (tbl_update p f t)"
  by (auto simp: list_all_iff tbl_update_def)

lemma list_all_delete: "list_all P t \<Longrightarrow> list_all P (tbl_delete p t)"
  by (auto simp: list_all_iff tbl_delete_def)

lemma db_wf_accounts_update:
  assumes "db_wf env db" and "\<And>r. wf_account_row env r \<Longrightarrow> p r \<Longrightarrow> wf_account_row env (f r)"
    and "tbl_keys_unique ar_id (tbl_update p f (accounts_t db))"
  shows "db_wf env (db\<lparr>accounts_t := tbl_update p f (accounts_t db)\<rparr>)"
  using assms by (simp add: db_wf_def list_all_update)

lemma db_wf_keys_update:
  assumes "db_wf env db" and "\<And>r. wf_key_row r \<Longrightarrow> wf_key_row (f r)"
    and "tbl_keys_unique kr_id (tbl_update p f (access_keys_t db))"
    and "tbl_keys_unique kr_hash (tbl_update p f (access_keys_t db))"
  shows "db_wf env (db\<lparr>access_keys_t := tbl_update p f (access_keys_t db)\<rparr>)"
  using assms by (simp add: db_wf_def list_all_update)

lemma db_step_wf:
  assumes "aead_ok (se_cipher env)"
  shows "db_step env db db' \<Longrightarrow> db_wf env db \<Longrightarrow> db_wf env db'"
proof (induction rule: db_step.induct)
  case (create_account nonce io db v en db' r)
  from CreateAccount_tables [OF create_account(1)] show ?case
  proof (elim disjE conjE exE)
    fix e assume e: "encryptCredentials env nonce (ai_ID (acc_identity v)) (acc_credentials v) = Inr e"
      and v: "wf_Account v" and none: "tbl_lookup ar_id (ai_ID (acc_identity v)) (accounts_t db) = None"
      and db': "db' = db\<lparr>accounts_t := accounts_t db @
        [\<lparr>ar_id = ai_ID (acc_identity v), ar_name = ai_Name (acc_identity v), ar_enabled = of_bool en, ar_credentials = e\<rparr>]\<rparr>"
    have "wf_account_row env \<lparr>ar_id = ai_ID (acc_identity v), ar_name = ai_Name (acc_identity v),
        ar_enabled = of_bool en, ar_credentials = e\<rparr>"
      using e v create_account by (intro wf_account_row_encrypted [OF assms, of nonce]) (auto simp: wf_Account_def)
    then show ?case using none create_account(4) by (simp add: db' db_wf_def tbl_unique_append)
  qed (use create_account(4) in simp)
next
  case (replace nonce io db prev c db' r)
  from Replace_tables [OF replace(1)] replace(2-4) show ?case
    by (auto intro!: db_wf_accounts_update wf_account_row_encrypted [OF assms, of nonce c]
        simp: unique_updates db_wf_def [of env db]) (auto simp: wf_account_row_def)
next
  case (enable db i revn e db' n nonce c)
  then show ?case
    by (auto simp: enable_write_def Let_def unique_updates db_wf_def [of env db]
        intro!: db_wf_accounts_update wf_account_row_encrypted [OF assms, of nonce c]) (auto simp: wf_account_row_def)
next
  case (disable io db i db' r)
  from DisableAccount_tables [OF disable(1)] disable(2) show ?case
    by (auto intro!: db_wf_accounts_update simp: unique_updates wf_account_row_disable db_wf_def [of env db])
next
  case (delete io db i db' r)
  from DeleteAccount_tables [OF delete(1)] delete(2) show ?case
    by (auto simp: db_wf_def tbl_unique_delete list_all_delete)
next
  case (create_key io db key hash n db' r)
  from CreateAccessKey_tables [OF create_key(1)] create_key(2,3) show ?case
    by (auto simp: db_wf_def tbl_unique_append wf_key_row_def wf_AccessKey_def)
next
  case (revoke io db i db' r)
  from RevokeAccessKey_tables [OF revoke(1)] revoke(2) show ?case
    by (auto intro!: db_wf_keys_update simp: unique_updates wf_key_row_def db_wf_def [of env db])
next
  case (set_limit io db i n db' r)
  from UpdateAccessKeyConcurrency_tables [OF set_limit(1)] set_limit(2) show ?case
    by (auto intro!: db_wf_keys_update simp: unique_updates wf_key_row_def db_wf_def [of env db])
qed

lemma db_wf_empty: "db_wf env empty_DB"
  by (simp add: db_wf_def empty_DB_def tbl_keys_unique_def)

interpretation db_sys: invariant_system "\<lambda>db. db = empty_DB" "db_step env"
    "\<lambda>db. aead_ok (se_cipher env) \<longrightarrow> db_wf env db" for env
  by unfold_locales (use db_wf_empty db_step_wf in blast)+

end
