(* ===== verification/StorageLaws.thy ===== *)
theory StorageLaws
  imports Storage
begin

text \<open>
  What the storage package promises its clients: every reachable database lists without
  corruption, writes are read back, a credential write based on a stale snapshot never lands,
  enabling converges, and a revoked client key never authenticates again.
\<close>

section \<open>Listings\<close>

lemma decode_rows_wf:
  "list_all (wf_account_row env) rows \<Longrightarrow>
   \<exists>rs. decode_rows env rows = Inr rs \<and> map (\<lambda>r. ai_ID (acc_identity (rec_Account r))) rs = map ar_id rows \<and>
     map rec_revision rs = map ar_credentials rows \<and> list_all (\<lambda>r. wf_Account (rec_Account r)) rs"
  by (induction rows) (auto simp: wf_account_row_def wf_Account_def)

lemma scan_wf_key_row:
  "wf_key_row r \<Longrightarrow> scanAccessKey r =
     Inr \<lparr>akr_Key = \<lparr>ak_identity = \<lparr>ki_ID = kr_id r, ki_Name = kr_name r\<rparr>, ak_enabled = (kr_enabled r = 1)\<rparr>,
          akr_VerificationHash = kr_hash r, akr_ConcurrencyLimit = kr_limit r\<rparr>"
  by (auto simp: scanAccessKey_def decodeAccessKey_def wf_key_row_def AccessKey_New_def unlimitedConcurrencyLimit_def)

lemma scan_keys_wf:
  "list_all wf_key_row rows \<Longrightarrow>
   \<exists>ks. scan_keys rows = Inr ks \<and> map (\<lambda>r. ki_ID (ak_identity (akr_Key r))) ks = map kr_id rows \<and>
     map akr_VerificationHash ks = map kr_hash rows \<and> list_all (\<lambda>r. - 1 \<le> akr_ConcurrencyLimit r) ks"
  by (induction rows) (auto simp: scan_wf_key_row wf_key_row_def)

lemma list_all_sort: "list_all P (sort_key f xs) = list_all P xs"
  by (simp add: list_all_iff)

text \<open>
  C23. However the store was written to, with whatever I/O failures in between, both listings
  succeed (no row is ever reported corrupt), return one record per stored row in strictly
  increasing ID order, and every record is valid.
\<close>

theorem reachable_store_lists:
  assumes "aead_ok (se_cipher env)" and "reachable (\<lambda>db. db = empty_DB) (db_step env) db"
  shows "\<exists>rs ks. ListAccounts env None db = Inr rs \<and> ListAccessKeys None db = Inr ks \<and>
    map (\<lambda>r. ai_ID (acc_identity (rec_Account r))) rs = map ar_id (sort_key ar_id (accounts_t db)) \<and>
    sorted_wrt (<) (map (\<lambda>r. ai_ID (acc_identity (rec_Account r))) rs) \<and>
    sorted_wrt (<) (map (\<lambda>r. ki_ID (ak_identity (akr_Key r))) ks) \<and>
    length ks = length (access_keys_t db) \<and>
    list_all (\<lambda>r. wf_Account (rec_Account r)) rs \<and> list_all (\<lambda>r. - 1 \<le> akr_ConcurrencyLimit r) ks"
proof -
  have wf: "db_wf env db" using db_sys.inv_reachable [OF assms(2)] assms(1) by simp
  have strict: "sorted_wrt (<) (map f (sort_key f t))" if "tbl_keys_unique f t"
    for f :: "'r \<Rightarrow> string" and t
    using that by (simp add: tbl_keys_unique_def strict_sorted_iff distinct_map)
  obtain rs where rs: "decode_rows env (sort_key ar_id (accounts_t db)) = Inr rs"
    "map (\<lambda>r. ai_ID (acc_identity (rec_Account r))) rs = map ar_id (sort_key ar_id (accounts_t db))"
    "list_all (\<lambda>r. wf_Account (rec_Account r)) rs"
    using decode_rows_wf [of env "sort_key ar_id (accounts_t db)"] wf by (auto simp: list_all_sort db_wf_def)
  obtain ks where ks: "scan_keys (sort_key kr_id (access_keys_t db)) = Inr ks"
    "map (\<lambda>r. ki_ID (ak_identity (akr_Key r))) ks = map kr_id (sort_key kr_id (access_keys_t db))"
    "list_all (\<lambda>r. - 1 \<le> akr_ConcurrencyLimit r) ks"
    using scan_keys_wf [of "sort_key kr_id (access_keys_t db)"] wf by (auto simp: list_all_sort db_wf_def)
  have "length ks = length (access_keys_t db)" using arg_cong [OF ks(2), of length] by simp
  then show ?thesis
    using rs ks strict [of ar_id "accounts_t db"] strict [of kr_id "access_keys_t db"] wf
    by (simp add: ListAccounts_def ListAccessKeys_def db_wf_def)
qed

text \<open>A concrete environment: credentials encoded as their three strings, each behind a length byte.\<close>

definition toy_marshal :: "OAuthCredentials \<Rightarrow> bytes option" where
  "toy_marshal c = (if ExpiresAt c = 0 \<and> RefreshToken c = [] \<and> length (AccessToken c) < 200
     then Some (char_of (length (AccessToken c)) # AccessToken c @ ChatGPTAccountID c) else None)"

definition toy_unmarshal :: "bytes \<Rightarrow> OAuthCredentials option" where
  "toy_unmarshal b = (case b of [] \<Rightarrow> None
     | n # r \<Rightarrow> Some \<lparr>ChatGPTAccountID = drop (of_char n) r, AccessToken = take (of_char n) r,
                       RefreshToken = [], ExpiresAt = 0\<rparr>)"

definition toy_env :: StoreEnv where
  "toy_env = \<lparr>se_cipher = plain_aead, se_marshal = toy_marshal, se_unmarshal = toy_unmarshal\<rparr>"

lemma toy_codec_ok: "codec_ok toy_env c"
  by (cases c) (simp add: codec_ok_def toy_env_def toy_marshal_def toy_unmarshal_def)

definition toy_account :: Account where
  "toy_account = \<lparr>acc_identity = \<lparr>ai_ID = ''a1'', ai_Name = ''n''\<rparr>,
     acc_credentials = \<lparr>ChatGPTAccountID = ''w'', AccessToken = ''t'', RefreshToken = [], ExpiresAt = 0\<rparr>\<rparr>"

definition toy_nonce :: bytes where "toy_nonce = replicate 12 CHR 0x07"
definition toy_db :: DB where "toy_db = fst (CreateAccount toy_env toy_nonce None empty_DB toy_account True)"

lemma toy_cipher_ok: "aead_ok (se_cipher toy_env)"
  by (simp add: toy_env_def plain_aead_ok)

lemma toy_reachable: "reachable (\<lambda>db. db = empty_DB) (db_step toy_env) toy_db"
proof (rule reach_step)
  show "reachable (\<lambda>db. db = empty_DB) (db_step toy_env) empty_DB" by (simp add: reach_start)
  show "db_step toy_env empty_DB toy_db"
    unfolding toy_db_def
    by (rule db_step.create_account [of toy_env toy_nonce None _ toy_account True _
          "snd (CreateAccount toy_env toy_nonce None empty_DB toy_account True)"])
       (simp_all add: toy_codec_ok toy_nonce_def)
qed

theorem reachable_store_lists_witness:
  "length (accounts_t toy_db) = 1 \<and>
   (\<exists>rs. ListAccounts toy_env None toy_db = Inr rs \<and> map (\<lambda>r. ai_ID (acc_identity (rec_Account r))) rs = [''a1''])"
proof -
  have ids: "map ar_id (accounts_t toy_db) = [''a1'']" by code_simp
  then have "map ar_id (sort_key ar_id (accounts_t toy_db)) = [''a1'']"
    by (cases "accounts_t toy_db") auto
  moreover have "length (accounts_t toy_db) = 1" using arg_cong [OF ids, of length] by simp
  ultimately show ?thesis
    using reachable_store_lists [OF toy_cipher_ok toy_reachable] by auto
qed

section \<open>Accounts\<close>

lemma tbl_lookup_hit:
  "tbl_keys_unique ar_id t \<Longrightarrow> row \<in> set t \<Longrightarrow> ar_id row = i \<Longrightarrow> tbl_lookup ar_id i t = Some row"
  by (auto dest: tbl_lookup_unique)

text \<open>
  A stored account is read back: after a successful creation \<open>GetAccount\<close> returns exactly
  the identity, credentials and enabled flag that were given, with a nonempty revision, every
  other account reads as before, and creating the same ID again is a conflict that writes nothing.
\<close>

theorem create_then_get_account:
  assumes "aead_ok (se_cipher env)" and "length nonce = 12" and "codec_ok env (acc_credentials v)"
    and "CreateAccount env nonce None db v en = (db', None)"
  shows "(\<exists>revn. revn \<noteq> [] \<and> GetAccount env None db' (ai_ID (acc_identity v)) =
      Inr \<lparr>rec_Account = v, rec_Enabled = en, rec_revision = revn\<rparr>) \<and>
    (\<forall>i. i \<noteq> ai_ID (acc_identity v) \<longrightarrow> GetAccount env None db' i = GetAccount env None db i) \<and>
    (\<exists>e. CreateAccount env nonce None db' v en' = (db', Some e) \<and> errors_Is e ErrConflict)"
proof -
  let ?i = "ai_ID (acc_identity v)"
  obtain e where v: "wf_Account v" and e: "encryptCredentials env nonce ?i (acc_credentials v) = Inr e"
    and none: "tbl_lookup ar_id ?i (accounts_t db) = None"
    and db': "db' = db\<lparr>accounts_t := accounts_t db @ [\<lparr>ar_id = ?i, ar_name = ai_Name (acc_identity v),
        ar_enabled = of_bool en, ar_credentials = e\<rparr>]\<rparr>"
    using CreateAccount_tables [OF assms(4)] by auto
  have ne: "e \<noteq> []" using e by (auto simp: encryptCredentials_def Encrypt_Inr split: option.splits sum.splits)
  have "decodeAccount env ?i (ai_Name (acc_identity v)) (of_bool en) e =
      Inr \<lparr>rec_Account = v, rec_Enabled = en, rec_revision = e\<rparr>"
    using decode_encrypted [OF assms(1,2,3) e, of "ai_Name (acc_identity v)" "of_bool en"] v
    by (auto simp: wf_Account_def)
  then have get: "GetAccount env None db' ?i = Inr \<lparr>rec_Account = v, rec_Enabled = en, rec_revision = e\<rparr>"
    using v none by (simp add: GetAccount_def validateAccountID_def wf_Account_def db' tbl_lookup_append)
  have other: "GetAccount env None db' i = GetAccount env None db i" if "i \<noteq> ?i" for i
    using that none by (simp add: GetAccount_def db' tbl_lookup_append split: option.split)
  have "validateAccount v = Inr (acc_identity v, acc_credentials v)" using v by (simp add: validateAccount_Inr)
  then have again: "CreateAccount env nonce None db' v en' =
      (db', Some (classifyWriteError ''creating account'' ConstraintPrimaryKey))"
    using e none by (simp add: CreateAccount_def db' tbl_lookup_append)
  show ?thesis
    using ne get other again by (auto simp: classifyWriteError_def)
qed

theorem create_then_get_account_witness:
  "CreateAccount toy_env toy_nonce None empty_DB toy_account True = (toy_db, None) \<and>
   (\<exists>revn. GetAccount toy_env None toy_db ''a1'' =
      Inr \<lparr>rec_Account = toy_account, rec_Enabled = True, rec_revision = revn\<rparr>)"
proof -
  have "snd (CreateAccount toy_env toy_nonce None empty_DB toy_account True) = None" by code_simp
  then have c: "CreateAccount toy_env toy_nonce None empty_DB toy_account True = (toy_db, None)"
    by (cases "CreateAccount toy_env toy_nonce None empty_DB toy_account True") (simp add: toy_db_def)
  have "length toy_nonce = 12" by (simp add: toy_nonce_def)
  from create_then_get_account [OF toy_cipher_ok this toy_codec_ok c] c
  show ?thesis by (auto simp: toy_account_def)
qed

text \<open>
  A snapshot of account \<open>i\<close> at revision \<open>revn\<close> is stale when no enabled row carries both.
\<close>

definition stale :: "DB \<Rightarrow> string \<Rightarrow> bytes \<Rightarrow> bool" where
  "stale db i revn \<longleftrightarrow>
     list_all (\<lambda>row. \<not> (ar_id row = i \<and> ar_credentials row = revn \<and> ar_enabled row = 1)) (accounts_t db)"

text \<open>
  The writes other clients of the store can make, none of which produces the ciphertext \<open>revn\<close>
  a second time: every encryption draws a fresh random nonce.
\<close>

inductive fresh_step :: "StoreEnv \<Rightarrow> bytes \<Rightarrow> DB \<Rightarrow> DB \<Rightarrow> bool" for env revn where
  "CreateAccount env nonce io db v en = (db', r) \<Longrightarrow>
     encryptCredentials env nonce (ai_ID (acc_identity v)) (acc_credentials v) \<noteq> Inr revn \<Longrightarrow> fresh_step env revn db db'"
| "ReplaceAccountCredentialsIfUnchanged env nonce io db prev c = (db', r) \<Longrightarrow>
     encryptCredentials env nonce (ai_ID (acc_identity (rec_Account prev))) c \<noteq> Inr revn \<Longrightarrow> fresh_step env revn db db'"
| "enable_write db i old e = (db', n) \<Longrightarrow> e \<noteq> revn \<Longrightarrow> fresh_step env revn db db'"
| "DisableAccount io db i = (db', r) \<Longrightarrow> fresh_step env revn db db'"
| "DeleteAccount io db i = (db', r) \<Longrightarrow> fresh_step env revn db db'"

lemma stale_step: "fresh_step env revn db db' \<Longrightarrow> stale db i revn \<Longrightarrow> stale db' i revn"
proof (induction rule: fresh_step.induct)
  case (1 nonce io db v en db' r)
  then show ?case using CreateAccount_tables [OF 1(1)] by (auto simp: stale_def)
next
  case (2 nonce io db prev c db' r)
  then show ?case using Replace_tables [OF 2(1)] by (auto simp: stale_def list_all_iff tbl_update_def)
next
  case (3 db i old e db' n)
  then show ?case by (auto simp: enable_write_def Let_def stale_def list_all_iff tbl_update_def)
next
  case (4 io db i db' r)
  then show ?case using DisableAccount_tables [OF 4(1)] by (auto simp: stale_def list_all_iff tbl_update_def)
next
  case (5 io db i db' r)
  then show ?case using DeleteAccount_tables [OF 5(1)] by (auto simp: stale_def list_all_iff tbl_delete_def)
qed

lemma stale_steps: "(fresh_step env revn)\<^sup>*\<^sup>* db db' \<Longrightarrow> stale db i revn \<Longrightarrow> stale db' i revn"
  by (induction rule: rtranclp_induct) (auto intro: stale_step)

lemma Replace_stale:
  assumes "stale db i (rec_revision prev)" and "i = ai_ID (acc_identity (rec_Account prev))"
    and "\<not> blank i" and "rec_revision prev \<noteq> []" and "wf_credentials c"
    and "encryptCredentials env nonce i c = Inr e"
  shows "ReplaceAccountCredentialsIfUnchanged env nonce None db prev c = (db, Some (Sentinel ErrConflict))"
proof -
  let ?hit = "\<lambda>row. ar_id row = i \<and> ar_credentials row = rec_revision prev \<and> ar_enabled row = 1"
  have none: "\<not> ?hit row" if "row \<in> set (accounts_t db)" for row
    using assms(1) that by (auto simp: stale_def list_all_iff)
  have "tbl_affected ?hit (accounts_t db) = 0" using none by (auto simp: tbl_affected_def filter_empty_conv)
  moreover have "tbl_update ?hit f (accounts_t db) = accounts_t db" for f using none by (intro update_no_hit) auto
  ultimately show ?thesis
    using assms(3-6) unfolding ReplaceAccountCredentialsIfUnchanged_def Let_def assms(2) [symmetric]
    by (simp add: validateAccountID_def requireAffected_def ValidateCredentials_None [THEN iffD2])
qed

lemma stale_after_write:
  assumes "tbl_keys_unique ar_id (accounts_t db)"
    and "DisableAccount None db i = (db1, None) \<or> DeleteAccount None db i = (db1, None) \<or>
      (\<exists>nonce prev c. ReplaceAccountCredentialsIfUnchanged env nonce None db prev c = (db1, None) \<and>
        ai_ID (acc_identity (rec_Account prev)) = i \<and> encryptCredentials env nonce i c \<noteq> Inr revn)"
  shows "stale db1 i revn"
  using assms(2)
proof (elim disjE exE conjE)
  assume "DisableAccount None db i = (db1, None)"
  then have "db1 = db\<lparr>accounts_t := tbl_update (\<lambda>row. ar_id row = i) (\<lambda>row. row\<lparr>ar_enabled := 0\<rparr>) (accounts_t db)\<rparr>"
    using DisableAccount_tables [of None db i db1 None] by blast
  moreover have "ar_enabled row \<noteq> 1"
    if "row \<in> set (tbl_update (\<lambda>row. ar_id row = i) (\<lambda>row. row\<lparr>ar_enabled := 0\<rparr>) t)" "ar_id row = i" for row t
    using that by (elim tbl_update_memE) simp_all
  ultimately show ?thesis by (auto simp: stale_def list_all_iff)
next
  assume "DeleteAccount None db i = (db1, None)"
  then have "db1 = db\<lparr>accounts_t := tbl_delete (\<lambda>row. ar_id row = i) (accounts_t db)\<rparr>"
    using DeleteAccount_tables [of None db i db1 None] by blast
  then show ?thesis by (simp add: stale_def list_all_iff tbl_delete_def)
next
  fix nonce prev c
  assume r: "ReplaceAccountCredentialsIfUnchanged env nonce None db prev c = (db1, None)"
    and i: "ai_ID (acc_identity (rec_Account prev)) = i" and fresh: "encryptCredentials env nonce i c \<noteq> Inr revn"
  let ?hit = "\<lambda>row. ar_id row = i \<and> ar_credentials row = rec_revision prev \<and> ar_enabled row = 1"
  obtain row e where row: "row \<in> set (accounts_t db)" "?hit row" and e: "encryptCredentials env nonce i c = Inr e"
    and db1: "db1 = db\<lparr>accounts_t := tbl_update ?hit (\<lambda>row. row\<lparr>ar_credentials := e\<rparr>) (accounts_t db)\<rparr>"
    using Replace_tables [OF r] i by auto
  have "q = row" if "q \<in> set (accounts_t db)" "ar_id q = i" for q
    using tbl_lookup_hit [OF assms(1) that] tbl_lookup_hit [OF assms(1) row(1)] row(2) by simp
  then show ?thesis using e fresh row by (auto simp: db1 stale_def list_all_iff tbl_update_def)
qed

text \<open>
  C21. Lost updates are impossible: once an account was disabled, deleted or given other
  credentials, and whatever account writes follow (re-enabling or re-creating it included), a
  credential write that was prepared from the earlier snapshot returns \<open>ErrConflict\<close> and
  changes nothing.
\<close>

theorem stale_snapshot_conflicts:
  assumes "tbl_keys_unique ar_id (accounts_t db)"
    and "i = ai_ID (acc_identity (rec_Account prev))" and "\<not> blank i" and "rec_revision prev \<noteq> []"
    and "DisableAccount None db i = (db1, None) \<or> DeleteAccount None db i = (db1, None) \<or>
      (\<exists>n' p' c'. ReplaceAccountCredentialsIfUnchanged env n' None db p' c' = (db1, None) \<and>
        ai_ID (acc_identity (rec_Account p')) = i \<and> encryptCredentials env n' i c' \<noteq> Inr (rec_revision prev))"
    and "(fresh_step env (rec_revision prev))\<^sup>*\<^sup>* db1 db2"
    and "wf_credentials c" and "encryptCredentials env nonce i c = Inr e"
  shows "ReplaceAccountCredentialsIfUnchanged env nonce None db2 prev c = (db2, Some (Sentinel ErrConflict))"
proof -
  have "stale db1 i (rec_revision prev)" using stale_after_write [OF assms(1,5)] .
  then have "stale db2 i (rec_revision prev)" by (rule stale_steps [OF assms(6)])
  then show ?thesis using assms by (intro Replace_stale) auto
qed

definition toy_record :: AccountRecord where
  "toy_record = \<lparr>rec_Account = toy_account, rec_Enabled = True,
     rec_revision = recordVersion # Seal plain_aead toy_nonce (char_of (1::nat) # ''tw'') ''a1''\<rparr>"

theorem stale_snapshot_conflicts_witness:
  "GetAccount toy_env None toy_db ''a1'' = Inr toy_record \<and>
   snd (ReplaceAccountCredentialsIfUnchanged toy_env toy_nonce None toy_db toy_record (acc_credentials toy_account)) = None \<and>
   snd (ReplaceAccountCredentialsIfUnchanged toy_env toy_nonce None
     (fst (EnableAccount toy_env [\<lparr>et_nonce = replicate 12 CHR 0x08, et_others = id, et_io_read = None, et_io_write = None\<rparr>]
       (fst (DisableAccount None toy_db ''a1'')) ''a1'')) toy_record (acc_credentials toy_account)) = Some (Sentinel ErrConflict)"
proof -
  let ?db1 = "fst (DisableAccount None toy_db ''a1'')"
  let ?db2 = "fst (EnableAccount toy_env [\<lparr>et_nonce = replicate 12 CHR 0x08, et_others = id, et_io_read = None, et_io_write = None\<rparr>]
       ?db1 ''a1'')"
  let ?e = "recordVersion # Seal plain_aead (replicate 12 CHR 0x08) (char_of (1::nat) # ''tw'') ''a1''"
  have 1: "GetAccount toy_env None toy_db ''a1'' = Inr toy_record" by code_simp
  have 2: "snd (ReplaceAccountCredentialsIfUnchanged toy_env toy_nonce None toy_db toy_record (acc_credentials toy_account)) = None"
    by code_simp
  have "snd (DisableAccount None toy_db ''a1'') = None" by code_simp
  then have d: "DisableAccount None toy_db ''a1'' = (?db1, None)" by (metis prod.collapse)
  have "fst (enable_write ?db1 ''a1'' (rec_revision toy_record) ?e) = ?db2" by code_simp
  then have en: "enable_write ?db1 ''a1'' (rec_revision toy_record) ?e =
      (?db2, snd (enable_write ?db1 ''a1'' (rec_revision toy_record) ?e))"
    by (metis prod.collapse)
  have "?e \<noteq> rec_revision toy_record" by code_simp
  from fresh_step.intros(3) [OF en this]
  have st: "(fresh_step toy_env (rec_revision toy_record))\<^sup>*\<^sup>* ?db1 ?db2" by (rule r_into_rtranclp)
  have k: "tbl_keys_unique ar_id (accounts_t toy_db)" by code_simp
  have i: "''a1'' = ai_ID (acc_identity (rec_Account toy_record))" by code_simp
  have b: "\<not> blank ''a1''" by code_simp
  have r: "rec_revision toy_record \<noteq> []" by code_simp
  have w: "wf_credentials (acc_credentials toy_account)" by code_simp
  have c: "encryptCredentials toy_env toy_nonce ''a1'' (acc_credentials toy_account) = Inr (rec_revision toy_record)"
    by code_simp
  show ?thesis
    using 1 2 stale_snapshot_conflicts [OF k i b r disjI1 [OF d] st w c] by simp
qed

lemma enable_write_lookup:
  "tbl_lookup ar_id i (accounts_t db) = Some row \<Longrightarrow> ar_enabled row = 0 \<Longrightarrow> ar_credentials row = old \<Longrightarrow>
   \<exists>n. enable_write db i old e = (fst (enable_write db i old e), Suc n) \<and>
     tbl_lookup ar_id i (accounts_t (fst (enable_write db i old e))) = Some (row\<lparr>ar_enabled := 1, ar_credentials := e\<rparr>)"
proof -
  assume l: "tbl_lookup ar_id i (accounts_t db) = Some row" and en: "ar_enabled row = 0" and c: "ar_credentials row = old"
  let ?hit = "\<lambda>row. ar_id row = i \<and> ar_enabled row = 0 \<and> ar_credentials row = old"
  have "row \<in> set (accounts_t db) \<and> ?hit row" using tbl_lookup_Some [OF l] en c by simp
  then have "tbl_affected ?hit (accounts_t db) \<noteq> 0" by (auto simp: tbl_affected_def filter_empty_conv)
  then obtain n where "tbl_affected ?hit (accounts_t db) = Suc n" by (auto simp: gr0_conv_Suc)
  then show ?thesis
    using l en c tbl_lookup_Some [OF l] by (auto simp: enable_write_def Let_def upd_enable.lookup_update)
qed

text \<open>
  C22. \<open>EnableAccount\<close> ends: after any turns that lost their race, one turn that no other write
  disturbs is enough. The account then reads as enabled with unchanged identity and credentials,
  under the ciphertext made in that turn.
\<close>

theorem EnableAccount_converges:
  assumes "aead_ok (se_cipher env)" and "length (et_nonce turn) = 12"
    and "et_others turn = id" and "et_io_read turn = None" and "et_io_write turn = None"
    and "EnableAccount env lost db i = (db1, None)"
    and "GetAccount env None db1 i = Inr r" and "\<not> rec_Enabled r"
    and "codec_ok env (acc_credentials (rec_Account r))"
    and "encryptCredentials env (et_nonce turn) i (acc_credentials (rec_Account r)) = Inr e"
  shows "\<exists>db2. EnableAccount env (lost @ turn # rest) db i = (db2, Some None) \<and>
    GetAccount env None db2 i = Inr (r\<lparr>rec_Enabled := True, rec_revision := e\<rparr>)"
proof -
  obtain row where row: "\<not> blank i" "tbl_lookup ar_id i (accounts_t db1) = Some row"
    "decodeAccount env i (ar_name row) (ar_enabled row) (ar_credentials row) = Inr r"
    using assms(7) by (auto simp: GetAccount_def validateAccountID_def split: if_splits option.splits)
  have r: "ar_enabled row = 0" "rec_revision r = ar_credentials row" "\<not> blank (ar_name row)"
    "wf_credentials (acc_credentials (rec_Account r))" "acc_identity (rec_Account r) = \<lparr>ai_ID = i, ai_Name = ar_name row\<rparr>"
    using row(3) assms(8) by (auto simp: decodeAccount_def Account_New_Inr wf_Account_def split: if_splits sum.splits option.splits)
  obtain n where n: "enable_write db1 i (rec_revision r) e = (fst (enable_write db1 i (rec_revision r) e), Suc n)"
    and l: "tbl_lookup ar_id i (accounts_t (fst (enable_write db1 i (rec_revision r) e))) =
      Some (row\<lparr>ar_enabled := 1, ar_credentials := e\<rparr>)"
    using enable_write_lookup [OF row(2) r(1), of "rec_revision r" e] r(2) by auto
  let ?db2 = "fst (enable_write db1 i (rec_revision r) e)"
  have skip: "EnableAccount env (lost @ ts) db i = EnableAccount env ts db1 i" for ts
    using assms(6) by (induction lost arbitrary: db) (auto split: prod.splits option.splits)
  have "enable_once env turn db1 i = (?db2, Some None)"
    unfolding enable_once_def assms(3-5,7) sum.case id_apply assms(10) option.case Let_def
    by (subst n) (simp add: assms(8) requireAffected_def)
  then have "EnableAccount env (lost @ turn # rest) db i = (?db2, Some None)" by (simp add: skip)
  moreover have "GetAccount env None ?db2 i = Inr (r\<lparr>rec_Enabled := True, rec_revision := e\<rparr>)"
  proof -
    have "GetAccount env None ?db2 i = decodeAccount env i (ar_name row) 1 e"
      using row(1) by (simp add: GetAccount_def validateAccountID_def l)
    also have "\<dots> = Inr (r\<lparr>rec_Enabled := True, rec_revision := e\<rparr>)"
      using decode_encrypted [OF assms(1,2,9,10) r(4,3), of 1] r(5)
      by (cases r, cases "rec_Account r") simp
    finally show ?thesis .
  qed
  ultimately show ?thesis by blast
qed

definition toy_turn :: enable_turn where
  "toy_turn = \<lparr>et_nonce = replicate 12 CHR 0x08, et_others = id, et_io_read = None, et_io_write = None\<rparr>"

text \<open>A lost turn: between its read and its write another client replaces the ciphertext.\<close>

definition toy_lost :: enable_turn where
  "toy_lost = toy_turn\<lparr>et_others := (\<lambda>db. db\<lparr>accounts_t := tbl_update (\<lambda>_. True)
     (\<lambda>row. row\<lparr>ar_credentials := recordVersion # Seal plain_aead (replicate 12 CHR 0x09) (char_of (1::nat) # ''tw'') ''a1''\<rparr>)
     (accounts_t db)\<rparr>)\<rparr>"

theorem EnableAccount_converges_witness:
  "\<exists>db2. EnableAccount toy_env [toy_lost, toy_turn] (fst (DisableAccount None toy_db ''a1'')) ''a1'' = (db2, Some None)"
proof -
  let ?db = "fst (DisableAccount None toy_db ''a1'')"
  let ?db1 = "fst (EnableAccount toy_env [toy_lost] ?db ''a1'')"
  let ?r = "toy_record\<lparr>rec_Enabled := False,
    rec_revision := recordVersion # Seal plain_aead (replicate 12 CHR 0x09) (char_of (1::nat) # ''tw'') ''a1''\<rparr>"
  have "snd (EnableAccount toy_env [toy_lost] ?db ''a1'') = None" by code_simp
  then have lost: "EnableAccount toy_env [toy_lost] ?db ''a1'' = (?db1, None)" by (metis prod.collapse)
  have get: "GetAccount toy_env None ?db1 ''a1'' = Inr ?r" by code_simp
  have enc: "encryptCredentials toy_env (et_nonce toy_turn) ''a1'' (acc_credentials (rec_Account ?r)) =
      Inr (recordVersion # Seal plain_aead (replicate 12 CHR 0x08) (char_of (1::nat) # ''tw'') ''a1'')"
    by code_simp
  from EnableAccount_converges [OF toy_cipher_ok _ _ _ _ lost get _ toy_codec_ok enc, of "[]"]
  show ?thesis by (auto simp: toy_turn_def)
qed

section \<open>Client keys\<close>

lemma Find_lookup:
  "tbl_lookup kr_hash hash (access_keys_t db) = Some row \<Longrightarrow> wf_key_row row \<Longrightarrow>
   FindAccessKeyByHash None db hash =
     Inr \<lparr>akr_Key = \<lparr>ak_identity = \<lparr>ki_ID = kr_id row, ki_Name = kr_name row\<rparr>, ak_enabled = (kr_enabled row = 1)\<rparr>,
          akr_VerificationHash = hash, akr_ConcurrencyLimit = kr_limit row\<rparr>"
  using tbl_lookup_Some [of kr_hash hash "access_keys_t db" row]
  by (auto simp: FindAccessKeyByHash_def scan_wf_key_row)

text \<open>
  A created key is found under its hash with exactly the identity, enabled flag and limit it
  was created with, and under no other hash a key is gained or lost; a hash or an ID that is
  taken is refused without a write.
\<close>

theorem create_then_find_key:
  assumes "length hash = 32" and "CreateAccessKey None db key hash n = (db', r)"
  shows "case r of
      None \<Rightarrow> FindAccessKeyByHash None db' hash =
          Inr \<lparr>akr_Key = key, akr_VerificationHash = hash, akr_ConcurrencyLimit = n\<rparr> \<and>
        (\<forall>h. h \<noteq> hash \<longrightarrow> FindAccessKeyByHash None db' h = FindAccessKeyByHash None db h)
    | Some e \<Rightarrow> db' = db \<and>
        (errors_Is e ErrConflict \<longleftrightarrow> wf_AccessKey key \<and> - 1 \<le> n \<and>
          (tbl_lookup kr_id (ki_ID (ak_identity key)) (access_keys_t db) \<noteq> None \<or>
           tbl_lookup kr_hash hash (access_keys_t db) \<noteq> None))"
proof (cases r)
  case None
  let ?row = "\<lparr>kr_id = ki_ID (ak_identity key), kr_name = ki_Name (ak_identity key), kr_hash = hash,
    kr_enabled = of_bool (ak_enabled key), kr_limit = n\<rparr>"
  have k: "wf_AccessKey key" "- 1 \<le> n" "tbl_lookup kr_hash hash (access_keys_t db) = None"
    and db': "db' = db\<lparr>access_keys_t := access_keys_t db @ [?row]\<rparr>"
    using CreateAccessKey_tables [OF assms(2)] None by auto
  have "tbl_lookup kr_hash hash (access_keys_t db') = Some ?row"
    using k by (simp add: db' tbl_lookup_append)
  moreover have "wf_key_row ?row" using k assms(1) by (auto simp: wf_key_row_def wf_AccessKey_def)
  ultimately have "FindAccessKeyByHash None db' hash =
      Inr \<lparr>akr_Key = key, akr_VerificationHash = hash, akr_ConcurrencyLimit = n\<rparr>"
    by (simp add: Find_lookup)
  moreover have "FindAccessKeyByHash None db' h = FindAccessKeyByHash None db h" if "h \<noteq> hash" for h
    using that by (simp add: FindAccessKeyByHash_def db' tbl_lookup_append split: option.split)
  ultimately show ?thesis using None by simp
next
  case (Some e)
  have "(\<exists>k. AccessKey_New (ak_identity key) (ak_enabled key) = Inr k) \<longleftrightarrow> wf_AccessKey key"
    by (cases key) (auto simp: AccessKey_New_Inr)
  then show ?thesis
    using assms(2) Some
    by (auto simp: CreateAccessKey_def classifyWriteError_def invalid_input_def unlimitedConcurrencyLimit_def
        split: sum.splits if_splits option.splits)
qed

definition toy_key :: AccessKey where
  "toy_key = \<lparr>ak_identity = \<lparr>ki_ID = ''k1'', ki_Name = ''laptop''\<rparr>, ak_enabled = True\<rparr>"

definition toy_hash :: VerificationHash where "toy_hash = replicate 32 CHR 0x05"
definition toy_key_db :: DB where "toy_key_db = fst (CreateAccessKey None empty_DB toy_key toy_hash 2)"

lemma toy_key_created: "CreateAccessKey None empty_DB toy_key toy_hash 2 = (toy_key_db, None)"
proof -
  have "snd (CreateAccessKey None empty_DB toy_key toy_hash 2) = None" by code_simp
  then show ?thesis unfolding toy_key_db_def by (metis prod.collapse)
qed

theorem create_then_find_key_witness:
  "CreateAccessKey None empty_DB toy_key toy_hash 2 = (toy_key_db, None) \<and>
   FindAccessKeyByHash None toy_key_db toy_hash =
     Inr \<lparr>akr_Key = toy_key, akr_VerificationHash = toy_hash, akr_ConcurrencyLimit = 2\<rparr>"
  using toy_key_created create_then_find_key [OF _ toy_key_created] by (simp add: toy_hash_def)

text \<open>The key with this hash has this ID and is disabled; no statement takes that back.\<close>

definition key_revoked :: "DB \<Rightarrow> VerificationHash \<Rightarrow> string \<Rightarrow> bool" where
  "key_revoked db hash i \<longleftrightarrow>
     (case tbl_lookup kr_hash hash (access_keys_t db) of None \<Rightarrow> False
      | Some row \<Rightarrow> kr_id row = i \<and> kr_enabled row = 0)"

lemma key_revoked_step: "db_step env db db' \<Longrightarrow> key_revoked db hash i \<Longrightarrow> key_revoked db' hash i"
proof (induction rule: db_step.induct)
  case (create_account nonce io db v en db' r)
  then show ?case using CreateAccount_tables [OF create_account(1)] by (auto simp: key_revoked_def)
next
  case (replace nonce io db prev c db' r)
  then show ?case using Replace_tables [OF replace(1)] by (auto simp: key_revoked_def)
next
  case (enable db i revn e db' n nonce c)
  then show ?case by (auto simp: enable_write_def Let_def key_revoked_def)
next
  case (disable io db i db' r)
  then show ?case using DisableAccount_tables [OF disable(1)] by (auto simp: key_revoked_def)
next
  case (delete io db i db' r)
  then show ?case using DeleteAccount_tables [OF delete(1)] by (auto simp: key_revoked_def)
next
  case (create_key io db key h n db' r)
  then show ?case using CreateAccessKey_tables [OF create_key(1)]
    by (auto simp: key_revoked_def tbl_lookup_append split: option.splits)
next
  case (revoke io db j db' r)
  then show ?case using RevokeAccessKey_tables [OF revoke(1)]
    by (auto simp: key_revoked_def upd_revoke_hash.lookup_update split: option.splits)
next
  case (set_limit io db j n db' r)
  then show ?case using UpdateAccessKeyConcurrency_tables [OF set_limit(1)]
    by (auto simp: key_revoked_def upd_limit_hash.lookup_update split: option.splits)
qed

interpretation revoked_sys: invariant_system "\<lambda>db. key_revoked db hash i" "db_step env"
    "\<lambda>db. key_revoked db hash i" for hash i env
  by unfold_locales (auto intro: key_revoked_step)

text \<open>
  Revocation is permanent: after a key was revoked, and whatever the store executes from
  then on, the secret's hash still finds that key and always finds it disabled.
\<close>

theorem revoked_key_stays_disabled:
  assumes "aead_ok (se_cipher env)" and "reachable (\<lambda>db. db = empty_DB) (db_step env) db"
    and "FindAccessKeyByHash None db hash = Inr k"
    and "RevokeAccessKey None db (ki_ID (ak_identity (akr_Key k))) = (db1, None)"
    and "(db_step env)\<^sup>*\<^sup>* db1 db2"
  shows "\<exists>k2. FindAccessKeyByHash None db2 hash = Inr k2 \<and>
    ki_ID (ak_identity (akr_Key k2)) = ki_ID (ak_identity (akr_Key k)) \<and> \<not> ak_enabled (akr_Key k2)"
proof -
  let ?i = "ki_ID (ak_identity (akr_Key k))"
  obtain row where row: "tbl_lookup kr_hash hash (access_keys_t db) = Some row" "kr_id row = ?i"
    using assms(3) by (auto simp: FindAccessKeyByHash_def scanAccessKey_def decodeAccessKey_def AccessKey_New_Inr
        split: option.splits sum.splits if_splits)
  have "db1 = db\<lparr>access_keys_t := tbl_update (\<lambda>row. kr_id row = ?i) (\<lambda>row. row\<lparr>kr_enabled := 0\<rparr>) (access_keys_t db)\<rparr>"
    using RevokeAccessKey_tables [OF assms(4)] by simp
  then have "key_revoked db1 hash ?i" using row by (simp add: key_revoked_def upd_revoke_hash.lookup_update)
  then have rev2: "key_revoked db2 hash ?i" by (rule revoked_sys.inv_steps [OF assms(5)])
  have "db_wf env db1"
    using db_sys.inv_reachable [OF assms(2)] assms(1) db_step_wf db_step.revoke [OF assms(4)] by blast
  then have "db_wf env db2" using db_sys.inv_steps [OF assms(5)] assms(1) by blast
  then have wf: "wf_key_row q" if "tbl_lookup kr_hash hash (access_keys_t db2) = Some q" for q
    using tbl_lookup_Some [OF that] by (auto simp: db_wf_def list_all_iff)
  obtain q where q: "tbl_lookup kr_hash hash (access_keys_t db2) = Some q" "kr_id q = ?i" "kr_enabled q = 0"
    using rev2 by (auto simp: key_revoked_def split: option.splits)
  show ?thesis unfolding Find_lookup [OF q(1) wf [OF q(1)]] using q(2,3) by simp
qed

theorem revoked_key_stays_disabled_witness:
  "\<exists>k2. FindAccessKeyByHash None (fst (RevokeAccessKey None toy_key_db ''k1'')) toy_hash = Inr k2 \<and>
     ki_ID (ak_identity (akr_Key k2)) = ''k1'' \<and> \<not> ak_enabled (akr_Key k2)"
proof -
  let ?k = "\<lparr>akr_Key = toy_key, akr_VerificationHash = toy_hash, akr_ConcurrencyLimit = 2\<rparr>"
  have "db_step toy_env empty_DB toy_key_db"
    by (rule db_step.create_key [OF toy_key_created]) (simp add: toy_hash_def)
  then have reach: "reachable (\<lambda>db. db = empty_DB) (db_step toy_env) toy_key_db"
    by (rule reach_step [OF reach_start [of "\<lambda>db. db = empty_DB", OF refl]])
  have find: "FindAccessKeyByHash None toy_key_db toy_hash = Inr ?k" by code_simp
  have "snd (RevokeAccessKey None toy_key_db (ki_ID (ak_identity (akr_Key ?k)))) = None" by code_simp
  then have "RevokeAccessKey None toy_key_db (ki_ID (ak_identity (akr_Key ?k))) =
      (fst (RevokeAccessKey None toy_key_db (ki_ID (ak_identity (akr_Key ?k)))), None)"
    by (metis prod.collapse)
  from revoked_key_stays_disabled [OF toy_cipher_ok reach find this rtranclp.rtrancl_refl]
  show ?thesis by (simp add: toy_key_def)
qed

end
