(* ===== verification/StoreSpec.thy ===== *)
theory StoreSpec
  imports StorageLaws "HOL-Library.AList_Mapping"
begin

text \<open>
  The contract of the storage package. Its clients (the OAuth manager, the executor, the
  management API) do not see rows, ciphertexts or SQL: they see accounts by ID, client keys by
  ID and by hash, opaque revisions, and the four storage errors. \<open>store_spec\<close> is that view, three
  finite mappings, and \<open>spec_exec\<close> says what every operation does to it; \<open>store_exec\<close> runs the
  operations of \<open>Storage\<close>. The locale \<open>data_refinement\<close> is the simulation between two such
  machines, and its interpretation on the store gives that no sequence of operations can tell
  the tables from the mappings.
\<close>

section \<open>Simulations\<close>

fun run_ops :: "('op \<Rightarrow> 's \<Rightarrow> 's \<times> 'ans) \<Rightarrow> 'op list \<Rightarrow> 's \<Rightarrow> 's \<times> 'ans list" where
  "run_ops step [] s = (s, [])"
| "run_ops step (op # ops) s =
     (case step op s of (s', a) \<Rightarrow> (case run_ops step ops s' of (s'', as) \<Rightarrow> (s'', a # as)))"

locale data_refinement =
  fixes cstep :: "'op \<Rightarrow> 'c \<Rightarrow> 'c \<times> 'ans" and astep :: "'op \<Rightarrow> 'a \<Rightarrow> 'a \<times> 'ans"
    and admissible :: "'op \<Rightarrow> bool" and represents :: "'c \<Rightarrow> 'a \<Rightarrow> bool"
  assumes simulation: "represents c a \<Longrightarrow> admissible op \<Longrightarrow>
    snd (cstep op c) = snd (astep op a) \<and> represents (fst (cstep op c)) (fst (astep op a))"
begin

lemma run_simulation:
  "represents c a \<Longrightarrow> list_all admissible ops \<Longrightarrow>
   snd (run_ops cstep ops c) = snd (run_ops astep ops a) \<and>
   represents (fst (run_ops cstep ops c)) (fst (run_ops astep ops a))"
proof (induction ops arbitrary: c a)
  case (Cons op ops)
  have step: "snd (cstep op c) = snd (astep op a)" "represents (fst (cstep op c)) (fst (astep op a))"
    using simulation [of c a op] Cons.prems by auto
  from Cons.IH [OF step(2)] Cons.prems(2) step(1) show ?case by (auto split: prod.splits)
qed simp

end

locale initial_refinement = data_refinement +
  fixes cinit and ainit
  assumes initial: "represents cinit ainit"
begin

lemma same_answers:
  "list_all admissible ops \<Longrightarrow> snd (run_ops cstep ops cinit) = snd (run_ops astep ops ainit)"
  using run_simulation [OF initial] by blast

end

section \<open>Operations and answers\<close>

datatype store_op =
    DoCreateAccount bytes Account bool
  | DoGetAccount string
  | DoListAccounts
  | DoReplaceCredentials bytes AccountRecord OAuthCredentials
  | DoEnableAccount bytes string
  | DoDisableAccount string
  | DoDeleteAccount string
  | DoCreateKey AccessKey VerificationHash int
  | DoFindKey VerificationHash
  | DoListKeys
  | DoRevokeKey string
  | DoSetLimit string int

text \<open>
  A client sees of an error only which of the four errors of the package it is. \<open>Looping\<close> is an
  \<open>EnableAccount\<close> whose loop has not ended.
\<close>

datatype store_answer =
    Done
  | GotAccount AccountRecord
  | GotAccounts "AccountRecord list"
  | GotKey AccessKeyRecord
  | GotKeys "AccessKeyRecord list"
  | Failed "sentinel list"
  | Looping

definition storage_errors :: "error \<Rightarrow> sentinel list" where
  "storage_errors e = filter (errors_Is e) [ErrNotFound, ErrConflict, ErrInvalid, ErrCorrupt]"

definition report :: "error option \<Rightarrow> store_answer" where
  "report r = (case r of None \<Rightarrow> Done | Some e \<Rightarrow> Failed (storage_errors e))"

definition report_value :: "('v \<Rightarrow> store_answer) \<Rightarrow> 'v result \<Rightarrow> store_answer" where
  "report_value got r = (case r of Inl e \<Rightarrow> Failed (storage_errors e) | Inr v \<Rightarrow> got v)"

definition report_loop :: "error option option \<Rightarrow> store_answer" where
  "report_loop r = (case r of None \<Rightarrow> Looping | Some e \<Rightarrow> report e)"

text \<open>The operations of the package, each with the error the driver returns, if any.\<close>

definition store_exec :: "StoreEnv \<Rightarrow> error option \<times> store_op \<Rightarrow> DB \<Rightarrow> DB \<times> store_answer" where
  "store_exec env call db =
     (let io = fst call in
      case snd call of
        DoCreateAccount nonce v en \<Rightarrow> map_prod id report (CreateAccount env nonce io db v en)
      | DoGetAccount i \<Rightarrow> (db, report_value GotAccount (GetAccount env io db i))
      | DoListAccounts \<Rightarrow> (db, report_value GotAccounts (ListAccounts env io db))
      | DoReplaceCredentials nonce prev c \<Rightarrow>
          map_prod id report (ReplaceAccountCredentialsIfUnchanged env nonce io db prev c)
      | DoEnableAccount nonce i \<Rightarrow>
          map_prod id report_loop
            (EnableAccount env [\<lparr>et_nonce = nonce, et_others = id, et_io_read = io, et_io_write = None\<rparr>] db i)
      | DoDisableAccount i \<Rightarrow> map_prod id report (DisableAccount io db i)
      | DoDeleteAccount i \<Rightarrow> map_prod id report (DeleteAccount io db i)
      | DoCreateKey key hash n \<Rightarrow> map_prod id report (CreateAccessKey io db key hash n)
      | DoFindKey hash \<Rightarrow> (db, report_value GotKey (FindAccessKeyByHash io db hash))
      | DoListKeys \<Rightarrow> (db, report_value GotKeys (ListAccessKeys io db))
      | DoRevokeKey i \<Rightarrow> map_prod id report (RevokeAccessKey io db i)
      | DoSetLimit i n \<Rightarrow> map_prod id report (UpdateAccessKeyConcurrency io db i n))"

section \<open>The specification\<close>

record store_spec =
  sp_accounts :: "(string, AccountRecord) mapping"
  sp_keys :: "(string, AccessKeyRecord) mapping"
  sp_index :: "(VerificationHash, string) mapping"

definition empty_spec :: store_spec where
  "empty_spec = \<lparr>sp_accounts = Mapping.empty, sp_keys = Mapping.empty, sp_index = Mapping.empty\<rparr>"

definition listing :: "(string, 'v) mapping \<Rightarrow> 'v list" where
  "listing m = map (\<lambda>i. the (Mapping.lookup m i)) (Mapping.ordered_keys m)"

definition refuse :: "sentinel \<Rightarrow> store_spec \<Rightarrow> store_spec \<times> store_answer" where
  "refuse c s = (s, Failed [c])"

definition attempt ::
  "error option \<Rightarrow> store_spec \<Rightarrow> store_spec \<times> store_answer \<Rightarrow> store_spec \<times> store_answer" where
  "attempt io s k = (case io of None \<Rightarrow> k | Some e \<Rightarrow> (s, Failed (storage_errors e)))"

definition on_account ::
  "string \<Rightarrow> store_spec \<Rightarrow> (AccountRecord \<Rightarrow> store_spec \<times> store_answer) \<Rightarrow> sentinel \<Rightarrow> store_spec \<times> store_answer" where
  "on_account i s k absent =
     (case Mapping.lookup (sp_accounts s) i of None \<Rightarrow> refuse absent s | Some r \<Rightarrow> k r)"

definition put_account :: "string \<Rightarrow> AccountRecord \<Rightarrow> store_spec \<Rightarrow> store_spec \<times> store_answer" where
  "put_account i r s = (s\<lparr>sp_accounts := Mapping.update i r (sp_accounts s)\<rparr>, Done)"

definition change_key ::
  "string \<Rightarrow> (AccessKeyRecord \<Rightarrow> AccessKeyRecord) \<Rightarrow> store_spec \<Rightarrow> store_spec \<times> store_answer" where
  "change_key i f s =
     (case Mapping.lookup (sp_keys s) i of
        None \<Rightarrow> refuse ErrNotFound s
      | Some r \<Rightarrow> (s\<lparr>sp_keys := Mapping.update i (f r) (sp_keys s)\<rparr>, Done))"

definition with_credentials :: "OAuthCredentials \<Rightarrow> bytes \<Rightarrow> AccountRecord \<Rightarrow> AccountRecord" where
  "with_credentials c revn r =
     r\<lparr>rec_Account := (rec_Account r)\<lparr>acc_credentials := c\<rparr>, rec_revision := revn\<rparr>"

definition disabled_key :: "AccessKeyRecord \<Rightarrow> AccessKeyRecord" where
  "disabled_key r = r\<lparr>akr_Key := (akr_Key r)\<lparr>ak_enabled := False\<rparr>\<rparr>"

text \<open>
  Each operation: what it refuses before it reaches the database, then, unless the driver fails,
  what it does to the mappings. New revisions are the opaque tokens of \<open>encryptCredentials\<close>.
\<close>

fun spec_op :: "StoreEnv \<Rightarrow> error option \<Rightarrow> store_op \<Rightarrow> store_spec \<Rightarrow> store_spec \<times> store_answer" where
  "spec_op env io (DoCreateAccount nonce v en) s =
     (let i = ai_ID (acc_identity v) in
      if \<not> wf_Account v then refuse ErrInvalid s
      else case encryptCredentials env nonce i (acc_credentials v) of
             Inl _ \<Rightarrow> refuse ErrInvalid s
           | Inr revn \<Rightarrow> attempt io s
               (if Mapping.lookup (sp_accounts s) i \<noteq> None then refuse ErrConflict s
                else put_account i \<lparr>rec_Account = v, rec_Enabled = en, rec_revision = revn\<rparr> s))"
| "spec_op env io (DoGetAccount i) s =
     (if blank i then refuse ErrInvalid s
      else attempt io s (on_account i s (\<lambda>r. (s, GotAccount r)) ErrNotFound))"
| "spec_op env io DoListAccounts s = attempt io s (s, GotAccounts (listing (sp_accounts s)))"
| "spec_op env io (DoReplaceCredentials nonce prev c) s =
     (let i = ai_ID (acc_identity (rec_Account prev)) in
      if blank i \<or> rec_revision prev = [] \<or> \<not> wf_credentials c then refuse ErrInvalid s
      else case encryptCredentials env nonce i c of
             Inl _ \<Rightarrow> refuse ErrInvalid s
           | Inr revn \<Rightarrow> attempt io s
               (on_account i s
                 (\<lambda>r. if rec_Enabled r \<and> rec_revision r = rec_revision prev
                      then put_account i (with_credentials c revn r) s else refuse ErrConflict s) ErrConflict))"
| "spec_op env io (DoEnableAccount nonce i) s =
     (if blank i then refuse ErrInvalid s
      else attempt io s
        (on_account i s
          (\<lambda>r. if rec_Enabled r then (s, Done)
               else case encryptCredentials env nonce i (acc_credentials (rec_Account r)) of
                      Inl _ \<Rightarrow> refuse ErrInvalid s
                    | Inr revn \<Rightarrow> put_account i (r\<lparr>rec_Enabled := True, rec_revision := revn\<rparr>) s) ErrNotFound))"
| "spec_op env io (DoDisableAccount i) s =
     (if blank i then refuse ErrInvalid s
      else attempt io s (on_account i s (\<lambda>r. put_account i (r\<lparr>rec_Enabled := False\<rparr>) s) ErrNotFound))"
| "spec_op env io (DoDeleteAccount i) s =
     (if blank i then refuse ErrInvalid s
      else attempt io s
        (on_account i s (\<lambda>_. (s\<lparr>sp_accounts := Mapping.delete i (sp_accounts s)\<rparr>, Done)) ErrNotFound))"
| "spec_op env io (DoCreateKey key hash n) s =
     (let i = ki_ID (ak_identity key) in
      if \<not> wf_AccessKey key \<or> n < -1 then refuse ErrInvalid s
      else attempt io s
        (if Mapping.lookup (sp_keys s) i \<noteq> None \<or> Mapping.lookup (sp_index s) hash \<noteq> None then refuse ErrConflict s
         else (s\<lparr>sp_keys := Mapping.update i
                   \<lparr>akr_Key = key, akr_VerificationHash = hash, akr_ConcurrencyLimit = n\<rparr> (sp_keys s),
                 sp_index := Mapping.update hash i (sp_index s)\<rparr>, Done)))"
| "spec_op env io (DoFindKey hash) s =
     attempt io s
       (case Mapping.lookup (sp_index s) hash of
          None \<Rightarrow> refuse ErrNotFound s
        | Some i \<Rightarrow> (s, GotKey (the (Mapping.lookup (sp_keys s) i))))"
| "spec_op env io DoListKeys s = attempt io s (s, GotKeys (listing (sp_keys s)))"
| "spec_op env io (DoRevokeKey i) s =
     (if blank i then refuse ErrInvalid s else attempt io s (change_key i disabled_key s))"
| "spec_op env io (DoSetLimit i n) s =
     (if blank i \<or> n < -1 then refuse ErrInvalid s
      else attempt io s (change_key i (\<lambda>r. r\<lparr>akr_ConcurrencyLimit := n\<rparr>) s))"

definition spec_exec :: "StoreEnv \<Rightarrow> error option \<times> store_op \<Rightarrow> store_spec \<Rightarrow> store_spec \<times> store_answer" where
  "spec_exec env call = spec_op env (fst call) (snd call)"

end
