(* ===== verification/StoreRefinement.thy ===== *)
theory StoreRefinement
  imports StoreSpec
begin

text \<open>
  The tables of \<open>Storage\<close> implement the mappings of \<open>StoreSpec\<close>: the relation between the two,
  one simulation lemma per operation, the interpretation of the refinement locale on the store,
  and the property that their answers agree.
\<close>

section \<open>The representation\<close>

definition account_of :: "StoreEnv \<Rightarrow> account_row \<Rightarrow> AccountRecord" where
  "account_of env row = projr (decodeAccount env (ar_id row) (ar_name row) (ar_enabled row) (ar_credentials row))"

definition key_of :: "key_row \<Rightarrow> AccessKeyRecord" where
  "key_of row = \<lparr>akr_Key = \<lparr>ak_identity = \<lparr>ki_ID = kr_id row, ki_Name = kr_name row\<rparr>, ak_enabled = (kr_enabled row = 1)\<rparr>,
     akr_VerificationHash = kr_hash row, akr_ConcurrencyLimit = kr_limit row\<rparr>"

text \<open>A mapping holds what the rows of a table decode to, under one of their columns.\<close>

definition holds_rows :: "('r \<Rightarrow> 'k) \<Rightarrow> ('r \<Rightarrow> 'v) \<Rightarrow> 'r list \<Rightarrow> ('k, 'v) mapping \<Rightarrow> bool" where
  "holds_rows key value t m \<longleftrightarrow> (\<forall>k. Mapping.lookup m k = map_option value (tbl_lookup key k t))"

definition represents :: "StoreEnv \<Rightarrow> DB \<Rightarrow> store_spec \<Rightarrow> bool" where
  "represents env db s \<longleftrightarrow> db_wf env db \<and>
     holds_rows ar_id (account_of env) (accounts_t db) (sp_accounts s) \<and>
     holds_rows kr_id key_of (access_keys_t db) (sp_keys s) \<and>
     holds_rows kr_hash kr_id (access_keys_t db) (sp_index s) \<and>
     list_all (\<lambda>row. codec_ok env (acc_credentials (rec_Account (account_of env row)))) (accounts_t db)"

lemma holds_lookup: "holds_rows key value t m \<Longrightarrow> Mapping.lookup m k = map_option value (tbl_lookup key k t)"
  by (simp add: holds_rows_def)

lemma holds_empty: "holds_rows key value [] Mapping.empty"
  by (simp add: holds_rows_def tbl_lookup_def lookup_empty)

lemma holds_append:
  "holds_rows key value t m \<Longrightarrow> tbl_lookup key (key r) t = None \<Longrightarrow>
   holds_rows key value (t @ [r]) (Mapping.update (key r) (value r) m)"
  by (auto simp: holds_rows_def tbl_lookup_append lookup_update' split: option.split)

lemma holds_delete:
  "holds_rows key value t m \<Longrightarrow> holds_rows key value (tbl_delete (\<lambda>r. key r = k) t) (Mapping.delete k m)"
  by (auto simp: holds_rows_def tbl_lookup_delete Mapping.lookup_delete Mapping.lookup_delete_neq)

text \<open>An update of the one row with a key is an update of the mapping; one that keeps the values changes nothing.\<close>

context keyed_update
begin

lemma holds_update:
  assumes "holds_rows key value t m" and "tbl_lookup key k t = Some row" and "p row"
    and "\<And>r. r \<in> set t \<Longrightarrow> p r \<Longrightarrow> key r = k"
  shows "holds_rows key value (tbl_update p f t) (Mapping.update k (value (f row)) m)"
proof -
  have "map_option value (map_option (\<lambda>r. if p r then f r else r) (tbl_lookup key j t)) =
      (if j = k then Some (value (f row)) else map_option value (tbl_lookup key j t))" for j
  proof (cases "tbl_lookup key j t")
    case None
    with assms(2) show ?thesis by auto
  next
    case (Some r)
    show ?thesis
    proof (cases "j = k")
      case True
      with Some assms(2,3) show ?thesis by simp
    next
      case False
      have "\<not> p r" using assms(4) [of r] tbl_lookup_Some [OF Some] False by blast
      with Some False show ?thesis by simp
    qed
  qed
  then show ?thesis using assms(1) by (simp add: holds_rows_def lookup_update lookup_update')
qed

lemma holds_same:
  assumes "holds_rows key value t m" and "\<And>r. value (f r) = value r"
  shows "holds_rows key value (tbl_update p f t) m"
  using assms by (auto simp: holds_rows_def lookup_update option.map_comp comp_def if_distrib cong: if_cong)

end

lemma holds_listing:
  assumes "holds_rows key value t m" and "tbl_keys_unique key t"
  shows "listing m = map value (sort_key key t)"
proof -
  have keys: "Mapping.keys m = key ` set t"
    using assms(1) by (auto simp: keys_dom_lookup holds_rows_def dom_def tbl_lookup_None_iff) 
  have "sorted (map key (sort_key key t))" "distinct (map key (sort_key key t))"
    "set (map key (sort_key key t)) = key ` set t"
    using assms(2) by (simp_all add: tbl_keys_unique_def distinct_map)
  then have "sorted_list_of_set (key ` set t) = map key (sort_key key t)"
    by (metis sorted_list_of_set.idem_if_sorted_distinct)
  then have "Mapping.ordered_keys m = map key (sort_key key t)"
    by (simp add: ordered_keys_def keys)
  moreover have "Mapping.lookup m (key r) = Some (value r)" if "r \<in> set t" for r
    using assms that by (simp add: holds_rows_def tbl_lookup_unique)
  ultimately show ?thesis by (simp add: listing_def)
qed

text \<open>A statement on the rows that satisfy \<open>p\<close>, all of them under the key \<open>k\<close>.\<close>

lemma keyed_hit:
  assumes "tbl_keys_unique key t" and "\<And>r. p r \<Longrightarrow> key r = k"
  shows "tbl_affected p t = 0 \<longleftrightarrow> (case tbl_lookup key k t of None \<Rightarrow> True | Some r \<Rightarrow> \<not> p r)"
proof -
  have "(\<exists>r \<in> set t. p r) \<longleftrightarrow> (\<exists>r. tbl_lookup key k t = Some r \<and> p r)"
    using assms tbl_lookup_unique [OF assms(1)] tbl_lookup_Some [of key k t] by blast
  then show ?thesis by (auto simp: tbl_affected_def filter_empty_conv split: option.split)
qed

lemma no_hit_update: "tbl_affected p t = 0 \<Longrightarrow> tbl_update p f t = t"
  by (intro update_no_hit) (auto simp: tbl_affected_def filter_empty_conv)

lemma no_hit_delete: "tbl_affected p t = 0 \<Longrightarrow> tbl_delete p t = t"
  by (auto simp: tbl_delete_def tbl_affected_def filter_empty_conv intro!: filter_True)

section \<open>What an operation answers\<close>

lemma storage_errors_simps [simp]:
  "storage_errors (WrapErr m e) = storage_errors e"
  "storage_errors (Sentinel ErrNotFound) = [ErrNotFound]" "storage_errors (Sentinel ErrConflict) = [ErrConflict]"
  "storage_errors (Sentinel ErrInvalid) = [ErrInvalid]" "storage_errors (Sentinel ErrCorrupt) = [ErrCorrupt]"
  "storage_errors (invalid_input m) = [ErrInvalid]"
  by (simp_all add: storage_errors_def invalid_input_def)

lemma report_simps [simp]:
  "report None = Done" "report (Some e) = Failed (storage_errors e)"
  "report_value g (Inl e) = Failed (storage_errors e)" "report_value g (Inr v) = g v"
  "report_loop (Some r) = report r"
  by (simp_all add: report_def report_value_def report_loop_def)

lemma encrypt_refused:
  "encryptCredentials env nonce i c = Inl e \<Longrightarrow> storage_errors e = [ErrInvalid]"
  by (auto simp: encryptCredentials_def split: option.splits sum.splits)

lemma validateAccount_Inl: "validateAccount v = Inl e \<Longrightarrow> storage_errors e = [ErrInvalid] \<and> \<not> wf_Account v"
  using validateAccount_Inr [of v "(acc_identity v, acc_credentials v)"]
  by (auto simp: validateAccount_def split: sum.splits)

lemma validateAccount_not_wf: "\<not> wf_Account v \<Longrightarrow> \<exists>e. validateAccount v = Inl e \<and> storage_errors e = [ErrInvalid]"
  using validateAccount_Inr [of v] validateAccount_Inl [of v] by (cases "validateAccount v") auto

lemma AccessKey_refused: "\<not> wf_AccessKey k \<Longrightarrow> \<exists>e. AccessKey_New (ak_identity k) (ak_enabled k) = Inl e"
  by (cases k; cases "AccessKey_New (ak_identity k) (ak_enabled k)") (auto simp: AccessKey_New_Inr)

lemmas answer_defs =
  store_exec_def spec_exec_def refuse_def attempt_def on_account_def put_account_def change_key_def
  validateAccountID_def validateAccessKeyID_def classifyWriteError_def requireAffected_def unlimitedConcurrencyLimit_def

section \<open>Rows and records\<close>

lemma account_of_wf:
  assumes "wf_account_row env row"
  shows "decodeAccount env (ar_id row) (ar_name row) (ar_enabled row) (ar_credentials row) = Inr (account_of env row)"
    and "rec_Enabled (account_of env row) \<longleftrightarrow> ar_enabled row = 1" and "rec_revision (account_of env row) = ar_credentials row"
    and "acc_identity (rec_Account (account_of env row)) = \<lparr>ai_ID = ar_id row, ai_Name = ar_name row\<rparr>"
    and "wf_credentials (acc_credentials (rec_Account (account_of env row)))"
  using assms by (auto simp: wf_account_row_def account_of_def)

lemma account_of_disabled:
  assumes "wf_account_row env row"
  shows "account_of env (row\<lparr>ar_enabled := 0\<rparr>) = (account_of env row)\<lparr>rec_Enabled := False\<rparr>"
  using account_of_wf(1) [OF assms]
  by (auto simp: account_of_def decodeAccount_def split: sum.splits option.splits if_splits)

lemma account_of_encrypted:
  assumes "aead_ok (se_cipher env)" and "length nonce = 12" and "codec_ok env c" and "wf_credentials c"
    and "encryptCredentials env nonce (ar_id row) c = Inr (ar_credentials row)"
    and "\<not> blank (ar_name row)" and "ar_enabled row \<in> {0, 1}"
  shows "account_of env row =
    \<lparr>rec_Account = \<lparr>acc_identity = \<lparr>ai_ID = ar_id row, ai_Name = ar_name row\<rparr>, acc_credentials = c\<rparr>,
     rec_Enabled = (ar_enabled row = 1), rec_revision = ar_credentials row\<rparr>"
  using decode_encrypted [OF assms(1-3,5,4,6,7)] by (simp add: account_of_def)

lemma decode_rows_exact:
  "list_all (wf_account_row env) rows \<Longrightarrow> decode_rows env rows = Inr (map (account_of env) rows)"
  by (induction rows) (auto simp: account_of_wf(1))

lemma scan_keys_exact: "list_all wf_key_row rows \<Longrightarrow> scan_keys rows = Inr (map key_of rows)"
  by (induction rows) (auto simp: scan_wf_key_row key_of_def)

lemma representsD:
  assumes "represents env db s"
  shows "Mapping.lookup (sp_accounts s) i = map_option (account_of env) (tbl_lookup ar_id i (accounts_t db))"
    and "Mapping.lookup (sp_keys s) i = map_option key_of (tbl_lookup kr_id i (access_keys_t db))"
    and "Mapping.lookup (sp_index s) h = map_option kr_id (tbl_lookup kr_hash h (access_keys_t db))"
    and "tbl_lookup ar_id i (accounts_t db) = Some row \<Longrightarrow>
      wf_account_row env row \<and> ar_id row = i \<and> codec_ok env (acc_credentials (rec_Account (account_of env row)))"
    and "tbl_lookup kr_id i (access_keys_t db) = Some krow \<Longrightarrow> wf_key_row krow \<and> kr_id krow = i"
    and "tbl_lookup kr_hash h (access_keys_t db) = Some hrow \<Longrightarrow>
      wf_key_row hrow \<and> kr_hash hrow = h \<and> tbl_lookup kr_id (kr_id hrow) (access_keys_t db) = Some hrow"
proof -
  show "Mapping.lookup (sp_accounts s) i = map_option (account_of env) (tbl_lookup ar_id i (accounts_t db))"
    "Mapping.lookup (sp_keys s) i = map_option key_of (tbl_lookup kr_id i (access_keys_t db))"
    "Mapping.lookup (sp_index s) h = map_option kr_id (tbl_lookup kr_hash h (access_keys_t db))"
    using assms by (simp_all add: represents_def holds_rows_def)
  show "wf_account_row env row \<and> ar_id row = i \<and> codec_ok env (acc_credentials (rec_Account (account_of env row)))"
    if "tbl_lookup ar_id i (accounts_t db) = Some row"
    using assms tbl_lookup_Some [OF that] by (auto simp: represents_def db_wf_def list_all_iff)
  show "wf_key_row krow \<and> kr_id krow = i" if "tbl_lookup kr_id i (access_keys_t db) = Some krow"
    using assms tbl_lookup_Some [OF that] by (auto simp: represents_def db_wf_def list_all_iff)
  show "wf_key_row hrow \<and> kr_hash hrow = h \<and> tbl_lookup kr_id (kr_id hrow) (access_keys_t db) = Some hrow"
    if "tbl_lookup kr_hash h (access_keys_t db) = Some hrow"
    using assms tbl_lookup_Some [OF that] tbl_lookup_unique [of kr_id "access_keys_t db" hrow]
    by (auto simp: represents_def db_wf_def list_all_iff)
qed

section \<open>Simulation, operation by operation\<close>

definition simulated :: "StoreEnv \<Rightarrow> error option \<times> store_op \<Rightarrow> DB \<Rightarrow> store_spec \<Rightarrow> bool" where
  "simulated env call db s \<longleftrightarrow>
     snd (store_exec env call db) = snd (spec_exec env call s) \<and>
     represents env (fst (store_exec env call db)) (fst (spec_exec env call s))"

text \<open>A call that the driver fails changes neither side.\<close>

lemma simulated_error:
  assumes "represents env db s"
    and "case op of DoCreateAccount _ _ _ \<Rightarrow> False | DoReplaceCredentials _ _ _ \<Rightarrow> False | DoCreateKey _ _ _ \<Rightarrow> False
         | _ \<Rightarrow> True"
  shows "simulated env (Some e, op) db s"
  using assms
  by (cases op)
     (simp_all add: simulated_def answer_defs GetAccount_def ListAccounts_def enable_once_def DisableAccount_def
       DeleteAccount_def FindAccessKeyByHash_def ListAccessKeys_def RevokeAccessKey_def
       UpdateAccessKeyConcurrency_def)

lemma simulated_reads:
  assumes "represents env db s"
  shows "simulated env (None, DoGetAccount i) db s" and "simulated env (None, DoListAccounts) db s"
    and "simulated env (None, DoFindKey h) db s" and "simulated env (None, DoListKeys) db s"
proof -
  have wf: "db_wf env db" using assms by (simp add: represents_def)
  note rep = representsD [OF assms]
  show "simulated env (None, DoGetAccount i) db s"
    using assms rep(1) [of i] rep(4) [of i] account_of_wf(1) [of env]
    by (auto simp: simulated_def answer_defs GetAccount_def split: option.splits)
  show "simulated env (None, DoFindKey h) db s"
    using assms rep(3) [of h] rep(6) [of h] rep(2)
    by (auto simp: simulated_def answer_defs FindAccessKeyByHash_def scan_wf_key_row key_of_def split: option.splits)
  have "listing (sp_accounts s) = map (account_of env) (sort_key ar_id (accounts_t db))"
    using assms wf by (intro holds_listing) (simp_all add: represents_def db_wf_def)
  then show "simulated env (None, DoListAccounts) db s"
    using assms wf by (simp add: simulated_def answer_defs ListAccounts_def decode_rows_exact list_all_sort db_wf_def)
  have "listing (sp_keys s) = map key_of (sort_key kr_id (access_keys_t db))"
    using assms wf by (intro holds_listing) (simp_all add: represents_def db_wf_def)
  then show "simulated env (None, DoListKeys) db s"
    using assms wf by (simp add: simulated_def answer_defs ListAccessKeys_def scan_keys_exact list_all_sort db_wf_def)
qed

lemma represents_accounts:
  assumes "represents env db s" and "db_wf env (db\<lparr>accounts_t := t\<rparr>)"
    and "holds_rows ar_id (account_of env) t m"
    and "list_all (\<lambda>row. codec_ok env (acc_credentials (rec_Account (account_of env row)))) t"
  shows "represents env (db\<lparr>accounts_t := t\<rparr>) (s\<lparr>sp_accounts := m\<rparr>)"
  using assms by (simp add: represents_def)

lemma simulated_create_account:
  assumes "represents env db s" and "aead_ok (se_cipher env)" and "length nonce = 12"
    and "codec_ok env (acc_credentials v)"
  shows "simulated env (io, DoCreateAccount nonce v en) db s"
proof (cases "wf_Account v")
  case False
  then show ?thesis
    using assms(1) validateAccount_not_wf [OF False]
    by (auto simp: simulated_def answer_defs CreateAccount_def)
next
  case wf: True
  let ?i = "ai_ID (acc_identity v)"
  have val: "validateAccount v = Inr (acc_identity v, acc_credentials v)" using wf by (simp add: validateAccount_Inr)
  show ?thesis
  proof (cases "encryptCredentials env nonce ?i (acc_credentials v)")
    case (Inl e)
    then show ?thesis using assms(1) wf val encrypt_refused [OF Inl] by (simp add: simulated_def answer_defs CreateAccount_def)
  next
    case (Inr e)
    let ?row = "\<lparr>ar_id = ?i, ar_name = ai_Name (acc_identity v), ar_enabled = of_bool en, ar_credentials = e\<rparr>"
    have row: "account_of env ?row = \<lparr>rec_Account = v, rec_Enabled = en, rec_revision = e\<rparr>"
      using account_of_encrypted [OF assms(2-4), of ?row] wf Inr by (auto simp: wf_Account_def)
    show ?thesis
    proof (cases "io = None \<and> tbl_lookup ar_id ?i (accounts_t db) = None")
      case True
      have new: "CreateAccount env nonce io db v en = (db\<lparr>accounts_t := accounts_t db @ [?row]\<rparr>, None)"
        using True Inr val by (simp add: CreateAccount_def)
      have "represents env (db\<lparr>accounts_t := accounts_t db @ [?row]\<rparr>)
          (s\<lparr>sp_accounts := Mapping.update ?i (account_of env ?row) (sp_accounts s)\<rparr>)"
      proof (rule represents_accounts [OF assms(1)])
        show "db_wf env (db\<lparr>accounts_t := accounts_t db @ [?row]\<rparr>)"
          using db_step_wf [OF assms(2) db_step.create_account [OF new assms(3,4)]] assms(1) by (simp add: represents_def)
        show "holds_rows ar_id (account_of env) (accounts_t db @ [?row]) (Mapping.update ?i (account_of env ?row) (sp_accounts s))"
          using holds_append [of ar_id "account_of env" "accounts_t db" "sp_accounts s" ?row] assms(1) True
          by (simp add: represents_def)
        show "list_all (\<lambda>row. codec_ok env (acc_credentials (rec_Account (account_of env row)))) (accounts_t db @ [?row])"
          using assms(1,4) row by (simp add: represents_def)
      qed
      then show ?thesis
        using True new Inr wf row representsD(1) [OF assms(1), of ?i] by (simp add: simulated_def answer_defs)
    next
      case False
      then show ?thesis
        using assms(1) Inr val wf representsD(1) [OF assms(1), of ?i]
        by (auto simp: simulated_def answer_defs CreateAccount_def split: option.split)
    qed
  qed
qed

text \<open>A change of the one row with a given ID, when an admissible step makes it.\<close>

lemma represents_account_update:
  assumes "represents env db s" and "tbl_lookup ar_id i (accounts_t db) = Some row"
    and "\<And>r. ar_id (f r) = ar_id r" and "p row" and "\<And>r. p r \<Longrightarrow> ar_id r = i"
    and "db_wf env (db\<lparr>accounts_t := tbl_update p f (accounts_t db)\<rparr>)"
    and "codec_ok env (acc_credentials (rec_Account (account_of env (f row))))"
  shows "represents env (db\<lparr>accounts_t := tbl_update p f (accounts_t db)\<rparr>)
    (s\<lparr>sp_accounts := Mapping.update i (account_of env (f row)) (sp_accounts s)\<rparr>)"
proof (rule represents_accounts [OF assms(1,6)])
  have "keyed_update ar_id f" by (rule keyed_update.intro) (rule assms(3))
  then show "holds_rows ar_id (account_of env) (tbl_update p f (accounts_t db))
      (Mapping.update i (account_of env (f row)) (sp_accounts s))"
    using assms(1,2,4,5) by (intro keyed_update.holds_update) (auto simp: represents_def)
  have only: "r = row" if "r \<in> set (accounts_t db)" "p r" for r
    using tbl_lookup_unique [of ar_id "accounts_t db" r] that assms(1,2,5) by (simp add: represents_def db_wf_def)
  show "list_all (\<lambda>row. codec_ok env (acc_credentials (rec_Account (account_of env row)))) (tbl_update p f (accounts_t db))"
    using assms(1,7) only by (auto simp: represents_def list_all_iff elim!: tbl_update_memE)
qed

lemma simulated_disable_account:
  assumes "represents env db s" and "aead_ok (se_cipher env)"
  shows "simulated env (None, DoDisableAccount i) db s"
proof (cases "blank i \<or> tbl_lookup ar_id i (accounts_t db) = None")
  case True
  then show ?thesis
    using assms(1) representsD(1) [OF assms(1), of i] tbl_affected_key [of ar_id i "accounts_t db"]
    by (auto simp: simulated_def answer_defs DisableAccount_def no_hit_update)
next
  case False
  then obtain row where row: "tbl_lookup ar_id i (accounts_t db) = Some row" and i: "\<not> blank i" by auto
  note wf = representsD(4) [OF assms(1) row]
  let ?db = "db\<lparr>accounts_t := tbl_update (\<lambda>row. ar_id row = i) (\<lambda>row. row\<lparr>ar_enabled := 0\<rparr>) (accounts_t db)\<rparr>"
  have new: "DisableAccount None db i = (?db, None)"
    using i row by (simp add: DisableAccount_def answer_defs tbl_affected_key)
  have "db_wf env ?db"
    using db_step_wf [OF assms(2) db_step.disable [OF new]] assms(1) by (simp add: represents_def)
  then have "represents env ?db
      (s\<lparr>sp_accounts := Mapping.update i (account_of env (row\<lparr>ar_enabled := 0\<rparr>)) (sp_accounts s)\<rparr>)"
    using wf by (intro represents_account_update [OF assms(1) row]) (simp_all add: account_of_disabled)
  then show ?thesis
    using new i wf row representsD(1) [OF assms(1), of i]
    by (simp add: simulated_def answer_defs account_of_disabled)
qed

lemma simulated_delete_account:
  assumes "represents env db s" and "aead_ok (se_cipher env)"
  shows "simulated env (None, DoDeleteAccount i) db s"
proof (cases "blank i \<or> tbl_lookup ar_id i (accounts_t db) = None")
  case True
  then show ?thesis
    using assms(1) representsD(1) [OF assms(1), of i] tbl_affected_key [of ar_id i "accounts_t db"]
    by (auto simp: simulated_def answer_defs DeleteAccount_def no_hit_delete)
next
  case False
  then obtain row where row: "tbl_lookup ar_id i (accounts_t db) = Some row" and i: "\<not> blank i" by auto
  let ?db = "db\<lparr>accounts_t := tbl_delete (\<lambda>row. ar_id row = i) (accounts_t db)\<rparr>"
  have new: "DeleteAccount None db i = (?db, None)"
    using i row by (simp add: DeleteAccount_def answer_defs tbl_affected_key)
  have "represents env ?db (s\<lparr>sp_accounts := Mapping.delete i (sp_accounts s)\<rparr>)"
  proof (rule represents_accounts [OF assms(1)])
    show "db_wf env ?db" using db_step_wf [OF assms(2) db_step.delete [OF new]] assms(1) by (simp add: represents_def)
  qed (use assms(1) in \<open>simp_all add: represents_def holds_delete list_all_delete\<close>)
  then show ?thesis
    using new i row representsD(1) [OF assms(1), of i] by (simp add: simulated_def answer_defs)
qed

lemma account_of_credentials:
  assumes "wf_account_row env row" and "aead_ok (se_cipher env)" and "length nonce = 12" and "codec_ok env c"
    and "wf_credentials c" and "encryptCredentials env nonce (ar_id row) c = Inr e"
  shows "account_of env (row\<lparr>ar_credentials := e\<rparr>) = with_credentials c e (account_of env row)"
    and "account_of env (row\<lparr>ar_enabled := 1, ar_credentials := e\<rparr>) =
      (with_credentials c e (account_of env row))\<lparr>rec_Enabled := True\<rparr>"
proof -
  have "\<not> blank (ar_name row)" "ar_enabled row \<in> {0, 1}" using assms(1) by (auto simp: wf_account_row_def)
  then show "account_of env (row\<lparr>ar_credentials := e\<rparr>) = with_credentials c e (account_of env row)"
    "account_of env (row\<lparr>ar_enabled := 1, ar_credentials := e\<rparr>) =
      (with_credentials c e (account_of env row))\<lparr>rec_Enabled := True\<rparr>"
    using account_of_wf(2-4) [OF assms(1)] assms(2-6)
    by (auto simp: account_of_encrypted [of env nonce c] with_credentials_def intro!: AccountRecord.equality Account.equality)
qed

lemma simulated_replace:
  assumes "represents env db s" and "aead_ok (se_cipher env)" and "length nonce = 12" and "codec_ok env c"
  shows "simulated env (io, DoReplaceCredentials nonce prev c) db s"
proof -
  define i where "i = ai_ID (acc_identity (rec_Account prev))"
  let ?hit = "\<lambda>row. ar_id row = i \<and> ar_credentials row = rec_revision prev \<and> ar_enabled row = 1"
  let ?db = "\<lambda>e. db\<lparr>accounts_t := tbl_update ?hit (\<lambda>row. row\<lparr>ar_credentials := e\<rparr>) (accounts_t db)\<rparr>"
  note defs = simulated_def answer_defs ReplaceAccountCredentialsIfUnchanged_def Let_def
  show ?thesis
  proof (cases "blank i \<or> rec_revision prev = [] \<or> \<not> wf_credentials c")
    case True
    then show ?thesis
      using assms(1) ValidateCredentials_None [of c]
      by (auto simp: defs i_def split: option.split)
  next
    case ok: False
    show ?thesis
    proof (cases "encryptCredentials env nonce i c")
      case (Inl e)
      then show ?thesis
        using assms(1) ok encrypt_refused [OF Inl] by (simp add: defs i_def ValidateCredentials_None [THEN iffD2])
    next
      case (Inr e)
      have uniq: "tbl_keys_unique ar_id (accounts_t db)" using assms(1) by (simp add: represents_def db_wf_def)
      have run: "ReplaceAccountCredentialsIfUnchanged env nonce io db prev c =
          (case io of Some err \<Rightarrow> (db, Some (WrapErr ''storage: conditionally replacing account credentials'' err))
           | None \<Rightarrow> (?db e, if tbl_affected ?hit (accounts_t db) \<noteq> 0 then None else Some (Sentinel ErrConflict)))"
        using ok Inr by (simp add: defs i_def ValidateCredentials_None [THEN iffD2] split: option.split)
      show ?thesis
      proof (cases "io = None \<and> tbl_affected ?hit (accounts_t db) \<noteq> 0")
        case True
        then obtain row where row: "tbl_lookup ar_id i (accounts_t db) = Some row" "?hit row"
          using keyed_hit [OF uniq, of ?hit i] by (auto split: option.splits)
        note wf = representsD(4) [OF assms(1) row(1)]
        have acc: "account_of env (row\<lparr>ar_credentials := e\<rparr>) = with_credentials c e (account_of env row)"
          using account_of_credentials(1) [of env row nonce c e] wf assms ok Inr by simp
        have "db_wf env (?db e)"
          using db_step_wf [OF assms(2) db_step.replace [OF _ assms(3,4)], of None db prev "?db e" None] run True assms(1)
          by (simp add: represents_def)
        then have "represents env (?db e)
            (s\<lparr>sp_accounts := Mapping.update i (account_of env (row\<lparr>ar_credentials := e\<rparr>)) (sp_accounts s)\<rparr>)"
          using acc assms(4) row(2)
          by (intro represents_account_update [OF assms(1) row(1)]) (simp_all add: with_credentials_def)
        then show ?thesis
          using run True ok Inr row wf acc representsD(1) [OF assms(1), of i] account_of_wf(2,3) [of env row]
          by (simp add: simulated_def answer_defs i_def [symmetric])
      next
        case False
        then have same: "?db e = db" if "io = None" using that by (simp add: no_hit_update)
        have "case tbl_lookup ar_id i (accounts_t db) of None \<Rightarrow> True | Some r \<Rightarrow> \<not> ?hit r" if "io = None"
          using keyed_hit [OF uniq, of ?hit i] False that by simp
        then show ?thesis
          using run False ok Inr same assms(1) representsD(1,4) [OF assms(1), of i] account_of_wf(2,3) [of env]
          by (cases io) (auto simp: simulated_def answer_defs i_def [symmetric] split: option.splits)
      qed
    qed
  qed
qed

lemma simulated_enable:
  assumes "represents env db s" and "aead_ok (se_cipher env)" and "length nonce = 12"
  shows "simulated env (None, DoEnableAccount nonce i) db s"
proof (cases "blank i \<or> tbl_lookup ar_id i (accounts_t db) = None")
  case True
  then show ?thesis
    using assms(1) representsD(1) [OF assms(1), of i]
    by (auto simp: simulated_def answer_defs enable_once_def GetAccount_def)
next
  case False
  then obtain row where row: "tbl_lookup ar_id i (accounts_t db) = Some row" and i: "\<not> blank i" by auto
  note wf = representsD(4) [OF assms(1) row]
  let ?r = "account_of env row"
  have r: "rec_Enabled ?r \<longleftrightarrow> ar_enabled row = 1" "rec_revision ?r = ar_credentials row"
    "wf_credentials (acc_credentials (rec_Account ?r))" "ar_enabled row \<in> {0, 1}"
  proof -
    have "wf_account_row env row" using wf by simp
    from account_of_wf [OF this] this
    show "rec_Enabled ?r \<longleftrightarrow> ar_enabled row = 1" "rec_revision ?r = ar_credentials row"
      "wf_credentials (acc_credentials (rec_Account ?r))" "ar_enabled row \<in> {0, 1}"
      by (simp_all only: wf_account_row_def)
  qed
  have get: "GetAccount env None db i = Inr ?r"
    using i row wf account_of_wf(1) [of env row] by (simp add: GetAccount_def validateAccountID_def)
  have look: "Mapping.lookup (sp_accounts s) i = Some ?r" using representsD(1) [OF assms(1), of i] row by simp
  show ?thesis
  proof (cases "rec_Enabled ?r")
    case True
    then show ?thesis using assms(1) get look i by (simp add: simulated_def answer_defs enable_once_def)
  next
    case off: False
    show ?thesis
    proof (cases "encryptCredentials env nonce i (acc_credentials (rec_Account ?r))")
      case (Inl e)
      then show ?thesis
        using assms(1) get look i off encrypt_refused [OF Inl] by (simp add: simulated_def answer_defs enable_once_def)
    next
      case (Inr e)
      let ?hit = "\<lambda>q. ar_id q = i \<and> ar_enabled q = 0 \<and> ar_credentials q = rec_revision ?r"
      let ?db = "db\<lparr>accounts_t := tbl_update ?hit (\<lambda>q. q\<lparr>ar_enabled := 1, ar_credentials := e\<rparr>) (accounts_t db)\<rparr>"
      have hit: "?hit row" using off r wf by auto
      have uniq: "tbl_keys_unique ar_id (accounts_t db)" using assms(1) by (simp add: represents_def db_wf_def)
      have n: "tbl_affected ?hit (accounts_t db) \<noteq> 0" using keyed_hit [OF uniq, of ?hit i] row hit by simp
      have wrote: "enable_write db i (rec_revision ?r) e = (?db, tbl_affected ?hit (accounts_t db))"
        by (simp add: enable_write_def Let_def)
      have run: "EnableAccount env [\<lparr>et_nonce = nonce, et_others = id, et_io_read = None, et_io_write = None\<rparr>] db i =
          (?db, Some None)"
        using get off Inr n wrote by (simp add: enable_once_def requireAffected_def)
      have acc: "account_of env (row\<lparr>ar_enabled := 1, ar_credentials := e\<rparr>) = ?r\<lparr>rec_Enabled := True, rec_revision := e\<rparr>"
        using account_of_credentials(2) [of env row nonce "acc_credentials (rec_Account ?r)" e] wf assms r Inr
        by (simp add: with_credentials_def)
      have "db_wf env ?db"
        using db_step_wf [OF assms(2) db_step.enable [OF wrote Inr assms(3) r(3)]] wf assms(1)
        by (simp add: represents_def)
      then have "represents env ?db
          (s\<lparr>sp_accounts := Mapping.update i (account_of env (row\<lparr>ar_enabled := 1, ar_credentials := e\<rparr>)) (sp_accounts s)\<rparr>)"
        using acc wf hit by (intro represents_account_update [OF assms(1) row]) simp_all
      then show ?thesis using run look i off Inr acc by (simp add: simulated_def answer_defs)
    qed
  qed
qed

lemma simulated_create_key:
  assumes "represents env db s" and "aead_ok (se_cipher env)" and "length hash = 32"
  shows "simulated env (io, DoCreateKey key hash n) db s"
proof (cases "wf_AccessKey key \<and> - 1 \<le> n")
  case False
  then show ?thesis
    using assms(1) AccessKey_refused [of key] AccessKey_New_wf [of key]
    by (cases "wf_AccessKey key") (auto simp: simulated_def answer_defs Let_def CreateAccessKey_def)
next
  case wf: True
  let ?i = "ki_ID (ak_identity key)"
  let ?row = "\<lparr>kr_id = ?i, kr_name = ki_Name (ak_identity key), kr_hash = hash,
    kr_enabled = of_bool (ak_enabled key), kr_limit = n\<rparr>"
  note look = representsD(2) [OF assms(1), of ?i] representsD(3) [OF assms(1), of hash]
  show ?thesis
  proof (cases "io = None \<and> tbl_lookup kr_id ?i (access_keys_t db) = None \<and> tbl_lookup kr_hash hash (access_keys_t db) = None")
    case True
    let ?db = "db\<lparr>access_keys_t := access_keys_t db @ [?row]\<rparr>"
    have new: "CreateAccessKey io db key hash n = (?db, None)"
      using True wf by (simp add: CreateAccessKey_def AccessKey_New_wf unlimitedConcurrencyLimit_def)
    have "key_of ?row = \<lparr>akr_Key = key, akr_VerificationHash = hash, akr_ConcurrencyLimit = n\<rparr>" by (simp add: key_of_def)
    then have "represents env ?db
        (s\<lparr>sp_keys := Mapping.update ?i \<lparr>akr_Key = key, akr_VerificationHash = hash, akr_ConcurrencyLimit = n\<rparr> (sp_keys s),
           sp_index := Mapping.update hash ?i (sp_index s)\<rparr>)"
      using assms(1) True db_step_wf [OF assms(2) db_step.create_key [OF new assms(3)]]
        holds_append [of kr_id key_of "access_keys_t db" "sp_keys s" ?row]
        holds_append [of kr_hash kr_id "access_keys_t db" "sp_index s" ?row]
      by (simp add: represents_def)
    then show ?thesis using True wf new look by (simp add: simulated_def answer_defs Let_def)
  next
    case False
    then show ?thesis
      using assms(1) wf look
      by (auto simp: simulated_def answer_defs Let_def CreateAccessKey_def AccessKey_New_wf split: option.split)
  qed
qed

text \<open>A change of one stored key that keeps its ID and hash.\<close>

lemma represents_key_update:
  assumes "represents env db s" and "tbl_lookup kr_id i (access_keys_t db) = Some row"
    and "\<And>r. kr_id (f r) = kr_id r" and "\<And>r. kr_hash (f r) = kr_hash r"
    and "db_wf env (db\<lparr>access_keys_t := tbl_update (\<lambda>r. kr_id r = i) f (access_keys_t db)\<rparr>)"
  shows "represents env (db\<lparr>access_keys_t := tbl_update (\<lambda>r. kr_id r = i) f (access_keys_t db)\<rparr>)
    (s\<lparr>sp_keys := Mapping.update i (key_of (f row)) (sp_keys s)\<rparr>)"
proof -
  have "keyed_update kr_id f" "keyed_update kr_hash f" by (intro keyed_update.intro assms(3,4))+
  moreover have "kr_id row = i" using tbl_lookup_Some [OF assms(2)] by simp
  ultimately show ?thesis
    using assms keyed_update.holds_update [of kr_id f key_of "access_keys_t db" "sp_keys s" i row "\<lambda>r. kr_id r = i"]
      keyed_update.holds_same [of kr_hash f kr_id "access_keys_t db" "sp_index s" "\<lambda>r. kr_id r = i"]
    by (simp add: represents_def)
qed

lemma simulated_key_changes:
  assumes "represents env db s" and "aead_ok (se_cipher env)"
  shows "simulated env (None, DoRevokeKey i) db s" and "simulated env (None, DoSetLimit i n) db s"
proof -
  note look = representsD(2) [OF assms(1), of i] tbl_affected_key [of kr_id i "access_keys_t db"]
  have absent: "simulated env (None, DoRevokeKey i) db s \<and> simulated env (None, DoSetLimit i n) db s"
    if "blank i \<or> tbl_lookup kr_id i (access_keys_t db) = None"
    using that assms(1) look
    by (auto simp: simulated_def answer_defs RevokeAccessKey_def UpdateAccessKeyConcurrency_def no_hit_update)
  have present: "simulated env (None, DoRevokeKey i) db s \<and> (- 1 \<le> n \<longrightarrow> simulated env (None, DoSetLimit i n) db s)"
    if row: "tbl_lookup kr_id i (access_keys_t db) = Some row" and i: "\<not> blank i" for row
  proof -
    note update = represents_key_update [OF assms(1) row]
    let ?off = "db\<lparr>access_keys_t := tbl_update (\<lambda>row. kr_id row = i) (\<lambda>row. row\<lparr>kr_enabled := 0\<rparr>) (access_keys_t db)\<rparr>"
    let ?lim = "db\<lparr>access_keys_t := tbl_update (\<lambda>row. kr_id row = i) (\<lambda>row. row\<lparr>kr_limit := n\<rparr>) (access_keys_t db)\<rparr>"
    have off: "RevokeAccessKey None db i = (?off, None)"
      using row i look by (simp add: RevokeAccessKey_def answer_defs)
    have "key_of (row\<lparr>kr_enabled := 0\<rparr>) = disabled_key (key_of row)"
      "key_of (row\<lparr>kr_limit := n\<rparr>) = (key_of row)\<lparr>akr_ConcurrencyLimit := n\<rparr>"
      by (simp_all add: key_of_def disabled_key_def)
    moreover have "represents env ?off (s\<lparr>sp_keys := Mapping.update i (key_of (row\<lparr>kr_enabled := 0\<rparr>)) (sp_keys s)\<rparr>)"
      using db_step_wf [OF assms(2) db_step.revoke [OF off]] assms(1) by (intro update) (simp_all add: represents_def)
    moreover have "UpdateAccessKeyConcurrency None db i n = (?lim, None) \<and>
        represents env ?lim (s\<lparr>sp_keys := Mapping.update i (key_of (row\<lparr>kr_limit := n\<rparr>)) (sp_keys s)\<rparr>)" if "- 1 \<le> n"
    proof
      show lim: "UpdateAccessKeyConcurrency None db i n = (?lim, None)"
        using row i look that by (simp add: UpdateAccessKeyConcurrency_def answer_defs)
      show "represents env ?lim (s\<lparr>sp_keys := Mapping.update i (key_of (row\<lparr>kr_limit := n\<rparr>)) (sp_keys s)\<rparr>)"
        using db_step_wf [OF assms(2) db_step.set_limit [OF lim]] assms(1) by (intro update) (simp_all add: represents_def)
    qed
    ultimately show ?thesis using off row i look by (simp add: simulated_def answer_defs)
  qed
  have "simulated env (None, DoSetLimit i n) db s" if "n < - 1"
    using that assms(1) by (simp add: simulated_def answer_defs UpdateAccessKeyConcurrency_def)
  then show "simulated env (None, DoRevokeKey i) db s" "simulated env (None, DoSetLimit i n) db s"
    using absent present by (cases "tbl_lookup kr_id i (access_keys_t db)"; force)+
qed

section \<open>The store implements its specification\<close>

text \<open>
  What the callers and the platform guarantee of a call: fresh nonces have the cipher's length,
  \<open>encoding/json\<close> round-trips the credentials, hashes are SHA-256 values.
\<close>

definition admissible_call :: "StoreEnv \<Rightarrow> error option \<times> store_op \<Rightarrow> bool" where
  "admissible_call env call =
     (case snd call of
        DoCreateAccount nonce v _ \<Rightarrow> length nonce = 12 \<and> codec_ok env (acc_credentials v)
      | DoReplaceCredentials nonce _ c \<Rightarrow> length nonce = 12 \<and> codec_ok env c
      | DoEnableAccount nonce _ \<Rightarrow> length nonce = 12
      | DoCreateKey _ hash _ \<Rightarrow> length hash = 32
      | _ \<Rightarrow> True)"

lemma store_simulation:
  assumes "represents env db s" and "aead_ok (se_cipher env)" and "admissible_call env call"
  shows "simulated env call db s"
proof (cases call)
  case (Pair io op)
  note ops = simulated_create_account [OF assms(1,2)] simulated_replace [OF assms(1,2)] simulated_create_key [OF assms(1,2)]
    simulated_enable [OF assms(1,2)] simulated_disable_account [OF assms(1,2)] simulated_delete_account [OF assms(1,2)]
    simulated_key_changes [OF assms(1,2)] simulated_reads [OF assms(1)]
  show ?thesis
  proof (cases io)
    case None
    then show ?thesis using assms(3) Pair ops by (cases op) (simp_all add: admissible_call_def)
  next
    case (Some e)
    then show ?thesis
      using assms(3) Pair ops simulated_error [OF assms(1), of op e]
      by (cases op) (simp_all add: admissible_call_def)
  qed
qed

interpretation store: initial_refinement "store_exec env" "spec_exec env"
    "\<lambda>call. aead_ok (se_cipher env) \<and> admissible_call env call" "represents env" empty_DB empty_spec for env
proof unfold_locales
  show "represents env empty_DB empty_spec"
    using db_wf_empty [of env] by (simp add: represents_def empty_DB_def empty_spec_def holds_empty)
  show "snd (store_exec env call db) = snd (spec_exec env call s) \<and>
      represents env (fst (store_exec env call db)) (fst (spec_exec env call s))"
    if "represents env db s" "aead_ok (se_cipher env) \<and> admissible_call env call" for db s call
    using store_simulation [of env db s call] that by (simp add: simulated_def)
qed

text \<open>
  C10. The store keeps its contract: whatever accounts and keys its clients create, read, list,
  rewrite, enable, disable, delete, revoke and limit, in any order and with the driver failing
  any call, every answer is the one of three finite mappings with opaque revisions, which refuse
  bad input, unknown IDs, taken IDs and hashes, and stale revisions.
\<close>

theorem store_refines_mappings:
  assumes "aead_ok (se_cipher env)" and "list_all (admissible_call env) calls"
  shows "snd (run_ops (store_exec env) calls empty_DB) = snd (run_ops (spec_exec env) calls empty_spec)"
  by (rule store.same_answers) (use assms in \<open>simp add: list_all_iff\<close>)

definition toy_calls :: "(error option \<times> store_op) list" where
  "toy_calls =
     [(None, DoCreateAccount toy_nonce toy_account True),
      (None, DoCreateAccount toy_nonce toy_account False),
      (Some (CtxErr Canceled), DoDisableAccount ''a1''),
      (None, DoDisableAccount ''a1''),
      (None, DoReplaceCredentials toy_nonce toy_record (acc_credentials toy_account)),
      (None, DoEnableAccount toy_nonce ''a1''),
      (None, DoGetAccount ''a1''),
      (None, DoCreateKey toy_key toy_hash 2),
      (None, DoRevokeKey ''k2''),
      (None, DoDeleteAccount ''a1''),
      (None, DoListAccounts)]"

theorem store_refines_mappings_witness:
  "snd (run_ops (store_exec toy_env) toy_calls empty_DB) =
     [Done, Failed [ErrConflict], Failed [], Done, Failed [ErrConflict], Done, GotAccount toy_record,
      Done, Failed [ErrNotFound], Done, GotAccounts []]"
proof -
  have "list_all (admissible_call toy_env) toy_calls"
    by (simp add: toy_calls_def admissible_call_def toy_codec_ok toy_nonce_def toy_hash_def)
  moreover have "snd (run_ops (spec_exec toy_env) toy_calls empty_spec) =
     [Done, Failed [ErrConflict], Failed [], Done, Failed [ErrConflict], Done, GotAccount toy_record,
      Done, Failed [ErrNotFound], Done, GotAccounts []]"
    by code_simp
  ultimately show ?thesis using store_refines_mappings [OF toy_cipher_ok] by simp
qed

end
