(* ===== verification/Requests.thy ===== *)
theory Requests
  imports Storage "HOL-Library.Product_Lexorder" "HOL-Library.Option_ord"
begin

text \<open>
  \<open>internal/storage/requests.go\<close>, \<open>internal/usage/usage.go\<close> and the retention loop of
  \<open>internal/app/retention.go\<close>: the accounting rows, the queries on them and their expiry.
  SQLite's \<open>strftime\<close> and the order in which it visits rows for an unordered \<open>LIMIT\<close> are
  arguments. TEXT values compare bytewise, NULL sorts first, and \<open>SUM\<close> fails when it leaves
  the 64-bit range.
\<close>

section \<open>Records\<close>

record Counter =
  Tokens :: int
  Known :: bool

record Snapshot =
  u_Input :: Counter
  u_Output :: Counter
  u_Total :: Counter

definition zero_Counter :: Counter where "zero_Counter = \<lparr>Tokens = 0, Known = False\<rparr>"
definition zero_Snapshot :: Snapshot where
  "zero_Snapshot = \<lparr>u_Input = zero_Counter, u_Output = zero_Counter, u_Total = zero_Counter\<rparr>"

record RequestRecord =
  r_ID :: string
  r_FinishedAt :: time
  r_KeyID :: string
  r_AccountID :: string
  r_Model :: string
  r_Result :: string
  r_Duration :: duration
  r_ResponseStarted :: bool
  r_Usage :: Snapshot

record RequestFilter =
  rf_From :: "time option"
  rf_To :: "time option"
  rf_KeyID :: string
  rf_AccountID :: string
  rf_Model :: string
  rf_Result :: string

type_synonym RequestPosition = "int \<times> string"

section \<open>Insertion and lookup\<close>

definition Milliseconds :: "duration \<Rightarrow> int" where
  "Milliseconds d = (if d < 0 then - ((- d) div Millisecond) else d div Millisecond)"

definition nullableText :: "string \<Rightarrow> string option" where
  "nullableText s = (if s \<noteq> [] then Some s else None)"

definition nullableCounter :: "Counter \<Rightarrow> int option" where
  "nullableCounter c = (if Known c then Some (Tokens c) else None)"

definition null_counter :: "int option \<Rightarrow> Counter" where
  "null_counter v = (case v of None \<Rightarrow> zero_Counter | Some n \<Rightarrow> \<lparr>Tokens = n, Known = True\<rparr>)"

definition counters :: "int option \<Rightarrow> int option \<Rightarrow> int option \<Rightarrow> Snapshot" where
  "counters input output tot =
     \<lparr>u_Input = null_counter input, u_Output = null_counter output, u_Total = null_counter tot\<rparr>"

definition null_string :: "string option \<Rightarrow> string" where
  "null_string v = (case v of None \<Rightarrow> [] | Some s \<Rightarrow> s)"

definition bad_counter :: "Counter \<Rightarrow> bool" where
  "bad_counter c \<longleftrightarrow> Tokens c < 0 \<or> (\<not> Known c \<and> Tokens c \<noteq> 0)"

definition request_row_of :: "RequestRecord \<Rightarrow> request_row" where
  "request_row_of r =
     \<lparr>rr_id = r_ID r, rr_finished_at = time_UnixMilli (r_FinishedAt r), rr_key_id = r_KeyID r,
      rr_account_id = nullableText (r_AccountID r), rr_model = nullableText (r_Model r),
      rr_result = r_Result r, rr_duration_ms = Milliseconds (r_Duration r),
      rr_response_started = of_bool (r_ResponseStarted r),
      rr_input = nullableCounter (u_Input (r_Usage r)),
      rr_output = nullableCounter (u_Output (r_Usage r)),
      rr_total = nullableCounter (u_Total (r_Usage r))\<rparr>"

definition InsertRequest :: "error option \<Rightarrow> DB \<Rightarrow> RequestRecord \<Rightarrow> DB \<times> error option" where
  "InsertRequest io db r =
     (if r_ID r = [] \<or> r_KeyID r = [] \<or> r_Result r = [] \<or> r_Duration r < 0
      then (db, Some (Sentinel ErrInvalid))
      else if list_ex bad_counter [u_Input (r_Usage r), u_Output (r_Usage r), u_Total (r_Usage r)]
      then (db, Some (Sentinel ErrInvalid))
      else case io of
             Some e \<Rightarrow> (db, Some (classifyWriteError ''inserting request'' (OtherSQL e)))
           | None \<Rightarrow>
               if tbl_lookup rr_id (r_ID r) (requests_t db) \<noteq> None
               then (db, Some (classifyWriteError ''inserting request'' ConstraintPrimaryKey))
               else (db\<lparr>requests_t := requests_t db @ [request_row_of r]\<rparr>, None))"

definition scanRequest :: "request_row \<Rightarrow> RequestRecord" where
  "scanRequest row =
     \<lparr>r_ID = rr_id row, r_FinishedAt = UnixMilli_time (rr_finished_at row), r_KeyID = rr_key_id row,
      r_AccountID = null_string (rr_account_id row), r_Model = null_string (rr_model row),
      r_Result = rr_result row, r_Duration = wrap64 (rr_duration_ms row * Millisecond),
      r_ResponseStarted = (rr_response_started row \<noteq> 0),
      r_Usage = counters (rr_input row) (rr_output row) (rr_total row)\<rparr>"

definition GetRequest :: "error option \<Rightarrow> DB \<Rightarrow> string \<Rightarrow> RequestRecord result" where
  "GetRequest io db i =
     (case io of
        Some e \<Rightarrow> Inl e
      | None \<Rightarrow>
          (case tbl_lookup rr_id i (requests_t db) of
             None \<Rightarrow> Inl (Sentinel ErrNotFound)
           | Some row \<Rightarrow> Inr (scanRequest row)))"

section \<open>Filters and pages\<close>

definition ceilMillis :: "time \<Rightarrow> int" where
  "ceilMillis t =
     (let n = time_UnixMilli t in if t mod Second mod Millisecond \<noteq> 0 then n + 1 else n)"

definition requestWhere :: "RequestFilter \<Rightarrow> (request_row \<Rightarrow> bool) result" where
  "requestWhere f =
     (if (case (rf_From f, rf_To f) of (Some from, Some to) \<Rightarrow> \<not> from < to | _ \<Rightarrow> False)
      then Inl (Sentinel ErrInvalid)
      else Inr (\<lambda>row.
        (case rf_From f of None \<Rightarrow> True | Some from \<Rightarrow> ceilMillis from \<le> rr_finished_at row) \<and>
        (case rf_To f of None \<Rightarrow> True | Some to \<Rightarrow> rr_finished_at row < ceilMillis to) \<and>
        (rf_KeyID f = [] \<or> rr_key_id row = rf_KeyID f) \<and>
        (rf_AccountID f = [] \<or> rr_account_id row = Some (rf_AccountID f)) \<and>
        (rf_Model f = [] \<or> rr_model row = Some (rf_Model f)) \<and>
        (rf_Result f = [] \<or> rr_result row = rf_Result f)))"

definition row_pos :: "request_row \<Rightarrow> RequestPosition" where
  "row_pos row = (rr_finished_at row, rr_id row)"

definition order_desc :: "request_row list \<Rightarrow> request_row list" where
  "order_desc rows = rev (sort_key row_pos rows)"

definition ListRequests ::
  "error option \<Rightarrow> DB \<Rightarrow> RequestFilter \<Rightarrow> RequestPosition option \<Rightarrow> int \<Rightarrow> RequestRecord list result" where
  "ListRequests io db f after limit =
     (if limit < 1 \<or> limit > 101 then Inl (Sentinel ErrInvalid)
      else case requestWhere f of
             Inl err \<Rightarrow> Inl err
           | Inr matches \<Rightarrow>
               (case io of
                  Some e \<Rightarrow> Inl e
                | None \<Rightarrow>
                    let below = (\<lambda>row. case after of None \<Rightarrow> True | Some p \<Rightarrow> row_pos row < p)
                    in Inr (map scanRequest
                         (take (nat limit) (order_desc (filter (\<lambda>row. matches row \<and> below row) (requests_t db)))))))"

section \<open>Usage summary\<close>

record UsageSummary =
  us_KeyID :: string
  us_AccountID :: string
  us_Model :: string
  us_Day :: string
  us_Requests :: int
  us_Results :: "(string \<times> int) list"
  us_Usage :: Snapshot
  us_UnknownUsage :: int

type_synonym group_key = "string option \<times> string option \<times> string option \<times> string option"

fun valid_groups :: "string list \<Rightarrow> string list \<Rightarrow> bool" where
  "valid_groups seen [] = True"
| "valid_groups seen (g # gs) =
     (if g \<in> set seen then False
      else if g \<notin> {''key'', ''account'', ''model'', ''day''} then False
      else valid_groups (g # seen) gs)"

definition group_of :: "(int \<Rightarrow> string option) \<Rightarrow> string list \<Rightarrow> request_row \<Rightarrow> group_key" where
  "group_of day groups row =
     ((if ''key'' \<in> set groups then Some (rr_key_id row) else None),
      (if ''account'' \<in> set groups then rr_account_id row else None),
      (if ''model'' \<in> set groups then rr_model row else None),
      (if ''day'' \<in> set groups then day (rr_finished_at row) else None))"

text \<open>\<open>SUM\<close> over a nullable column: NULL when every value is NULL.\<close>

definition sql_sum :: "int option list \<Rightarrow> int option" where
  "sql_sum vs = (case List.map_filter (\<lambda>v. v) vs of [] \<Rightarrow> None | ns \<Rightarrow> Some (sum_list ns))"

definition sum_overflows :: "int option list \<Rightarrow> bool" where
  "sum_overflows vs \<longleftrightarrow> (case sql_sum vs of None \<Rightarrow> False | Some n \<Rightarrow> n > max_int64)"

definition unknown_usage :: "request_row \<Rightarrow> bool" where
  "unknown_usage row \<longleftrightarrow> rr_input row = None \<or> rr_output row = None \<or> rr_total row = None"

definition summarize_group :: "group_key \<Rightarrow> request_row list \<Rightarrow> UsageSummary" where
  "summarize_group g rows =
     (case g of (k, a, m, d) \<Rightarrow>
       \<lparr>us_KeyID = null_string k, us_AccountID = null_string a, us_Model = null_string m, us_Day = null_string d,
        us_Requests = int (length rows),
        us_Results = map (\<lambda>res. (res, int (length (filter (\<lambda>row. rr_result row = res) rows))))
                       (sort (remdups (map rr_result rows))),
        us_Usage = counters (sql_sum (map rr_input rows)) (sql_sum (map rr_output rows)) (sql_sum (map rr_total rows)),
        us_UnknownUsage = int (length (filter unknown_usage rows))\<rparr>)"

definition SummarizeUsage ::
  "(int \<Rightarrow> string option) \<Rightarrow> error option \<Rightarrow> DB \<Rightarrow> RequestFilter \<Rightarrow> string list \<Rightarrow> UsageSummary list result" where
  "SummarizeUsage day io db f groups =
     (if groups = [] \<or> \<not> valid_groups [] groups then Inl (Sentinel ErrInvalid)
      else case requestWhere f of
             Inl err \<Rightarrow> Inl err
           | Inr matches \<Rightarrow>
               (case io of
                  Some e \<Rightarrow> Inl e
                | None \<Rightarrow>
                    (let rows = filter matches (requests_t db);
                         keys = sort (remdups (map (group_of day groups) rows));
                         members = (\<lambda>g. filter (\<lambda>row. group_of day groups row = g) rows)
                     in if list_ex (\<lambda>g. sum_overflows (map rr_input (members g)) \<or> sum_overflows (map rr_output (members g)) \<or>
                                         sum_overflows (map rr_total (members g))) keys
                        then Inl (PlainErr ''integer overflow'')
                        else Inr (map (\<lambda>g. summarize_group g (members g)) keys))))"

section \<open>Expiry\<close>

text \<open>\<open>scan\<close> is the order in which SQLite visits the expired rows.\<close>

definition DeleteRequestsBefore ::
  "(request_row list \<Rightarrow> request_row list) \<Rightarrow> error option \<Rightarrow> DB \<Rightarrow> time \<Rightarrow> DB \<times> nat result" where
  "DeleteRequestsBefore scan io db before =
     (case io of
        Some e \<Rightarrow> (db, Inl (WrapErr ''storage: deleting expired requests'' e))
      | None \<Rightarrow>
          (let chosen = take 1000 (scan (filter (\<lambda>row. rr_finished_at row < ceilMillis before) (requests_t db)))
           in (db\<lparr>requests_t := tbl_delete (\<lambda>row. row \<in> set chosen) (requests_t db)\<rparr>,
               Inr (tbl_affected (\<lambda>row. row \<in> set chosen) (requests_t db)))))"

text \<open>
  One turn of \<open>pruneRequests\<close>: the context, what the deletion's I/O does, the scan order, and
  what other connections write after it.
\<close>

record prune_turn =
  pt_ctx :: "error option"
  pt_io :: "error option"
  pt_scan :: "request_row list \<Rightarrow> request_row list"
  pt_others :: "DB \<Rightarrow> DB"

text \<open>The outer \<open>None\<close>: the loop has not returned within the given turns.\<close>

fun pruneRequests :: "prune_turn list \<Rightarrow> DB \<Rightarrow> time \<Rightarrow> DB \<times> error option option" where
  "pruneRequests [] db before = (db, None)"
| "pruneRequests (turn # turns) db before =
     (case pt_ctx turn of
        Some err \<Rightarrow> (db, Some (Some err))
      | None \<Rightarrow>
          (case DeleteRequestsBefore (pt_scan turn) (pt_io turn) db before of
             (db', Inl err) \<Rightarrow> (db', Some (Some err))
           | (db', Inr deleted) \<Rightarrow>
               if deleted = 0 then (db', Some None)
               else pruneRequests turns (pt_others turn db') before))"

section \<open>Invariant\<close>

definition wf_request_row :: "request_row \<Rightarrow> bool" where
  "wf_request_row r \<longleftrightarrow> rr_id r \<noteq> [] \<and> rr_key_id r \<noteq> [] \<and> rr_result r \<noteq> [] \<and>
     rr_account_id r \<noteq> Some [] \<and> rr_model r \<noteq> Some [] \<and>
     0 \<le> rr_duration_ms r \<and> rr_response_started r \<in> {0, 1} \<and>
     list_all (\<lambda>v. case v of None \<Rightarrow> True | Some n \<Rightarrow> 0 \<le> n) [rr_input r, rr_output r, rr_total r]"

definition requests_wf :: "DB \<Rightarrow> bool" where
  [inv_defs]: "requests_wf db \<longleftrightarrow> tbl_keys_unique rr_id (requests_t db) \<and> list_all wf_request_row (requests_t db)"

inductive request_step :: "DB \<Rightarrow> DB \<Rightarrow> bool" where
  "InsertRequest io db r = (db', e) \<Longrightarrow> request_step db db'"
| "DeleteRequestsBefore scan io db before = (db', n) \<Longrightarrow> request_step db db'"

lemma InsertRequest_tables:
  "InsertRequest io db r = (db', e) \<Longrightarrow>
     (e \<noteq> None \<and> db' = db) \<or>
     (e = None \<and> r_ID r \<noteq> [] \<and> r_KeyID r \<noteq> [] \<and> r_Result r \<noteq> [] \<and> 0 \<le> r_Duration r \<and>
      \<not> bad_counter (u_Input (r_Usage r)) \<and> \<not> bad_counter (u_Output (r_Usage r)) \<and> \<not> bad_counter (u_Total (r_Usage r)) \<and>
      tbl_lookup rr_id (r_ID r) (requests_t db) = None \<and>
      db' = db\<lparr>requests_t := requests_t db @ [request_row_of r]\<rparr>)"
  by (auto simp: InsertRequest_def split: if_splits option.splits)

lemma request_row_of_wf:
  assumes "r_ID r \<noteq> []" "r_KeyID r \<noteq> []" "r_Result r \<noteq> []" "0 \<le> r_Duration r"
    and "\<not> bad_counter (u_Input (r_Usage r))" "\<not> bad_counter (u_Output (r_Usage r))" "\<not> bad_counter (u_Total (r_Usage r))"
  shows "wf_request_row (request_row_of r)"
  using assms
  by (auto simp: wf_request_row_def request_row_of_def nullableText_def nullableCounter_def bad_counter_def Milliseconds_def)

lemma request_step_wf: "request_step db db' \<Longrightarrow> requests_wf db \<Longrightarrow> requests_wf db'"
proof (induction rule: request_step.induct)
  case (1 io db r db' e)
  have id: "rr_id (request_row_of r) = r_ID r" by (simp add: request_row_of_def)
  from InsertRequest_tables [OF 1(1)] 1(2) id show ?case
    by (auto simp: requests_wf_def intro!: tbl_unique_append request_row_of_wf)
next
  case (2 scan io db before db' n)
  then show ?case
    by (auto simp: DeleteRequestsBefore_def Let_def requests_wf_def tbl_unique_delete list_all_delete split: option.splits)
qed

lemma requests_wf_empty: "requests_wf empty_DB"
  by (simp add: requests_wf_def empty_DB_def tbl_keys_unique_def)

interpretation requests_sys: invariant_system "\<lambda>db. db = empty_DB" request_step requests_wf
  by unfold_locales (use requests_wf_empty request_step_wf in blast)+

end
