(* ===== verification/RequestLaws.thy ===== *)
theory RequestLaws
  imports Requests "HOL-Library.Multiset"
begin

text \<open>
  What accounting rows promise: insertion and lookup agree up to the stored millisecond, time
  bounds are exact, a usage summary accounts for every matching row once, and retention removes
  exactly the expired rows in boundedly many batches.
\<close>

section \<open>Round trip\<close>

lemma wrap_ms:
  assumes "0 \<le> d" and "d \<le> max_int64"
  shows "wrap64 (Milliseconds d * Millisecond) = d - d mod Millisecond"
proof -
  have *: "Milliseconds d * Millisecond = d - d mod Millisecond"
    using assms by (simp add: Milliseconds_def minus_mod_eq_div_mult)
  have "0 \<le> d mod Millisecond" "d mod Millisecond \<le> d" using assms by (simp_all add: zmod_le_nonneg_dividend)
  then show ?thesis using assms unfolding * by (intro wrap64_id) (auto simp: max_int64_def min_int64_def)
qed

lemma null_counter_inverse: "\<not> bad_counter c \<Longrightarrow> null_counter (nullableCounter c) = c"
  by (cases c) (auto simp: null_counter_def nullableCounter_def bad_counter_def zero_Counter_def)

lemma null_string_inverse [simp]: "null_string (nullableText s) = s"
  by (simp add: null_string_def nullableText_def)

lemma milli_truncate: "UnixMilli_time (time_UnixMilli t) = t - t mod Millisecond"
  by (simp add: UnixMilli_time_def time_UnixMilli_def minus_mod_eq_div_mult)

text \<open>
  C26. An accounting record reads back as it was written, with its completion time and duration
  truncated to the millisecond, and a second record with its ID is refused as a conflict.
\<close>

theorem insert_then_get_request:
  assumes "InsertRequest None db r = (db', None)" and "r_Duration r \<le> max_int64"
  shows "GetRequest None db' (r_ID r) =
      Inr (r\<lparr>r_FinishedAt := r_FinishedAt r - r_FinishedAt r mod Millisecond,
             r_Duration := r_Duration r - r_Duration r mod Millisecond\<rparr>) \<and>
    (\<exists>e. InsertRequest None db' r = (db', Some e) \<and> errors_Is e ErrConflict)"
proof -
  have r: "r_ID r \<noteq> []" "r_KeyID r \<noteq> []" "r_Result r \<noteq> []" "0 \<le> r_Duration r"
    "\<not> bad_counter (u_Input (r_Usage r))" "\<not> bad_counter (u_Output (r_Usage r))" "\<not> bad_counter (u_Total (r_Usage r))"
    "tbl_lookup rr_id (r_ID r) (requests_t db) = None"
    and db': "db' = db\<lparr>requests_t := requests_t db @ [request_row_of r]\<rparr>"
    using InsertRequest_tables [OF assms(1)] by auto
  have l: "tbl_lookup rr_id (r_ID r) (requests_t db') = Some (request_row_of r)"
    using r(8) by (simp add: db' tbl_lookup_append request_row_of_def)
  have "scanRequest (request_row_of r) =
      r\<lparr>r_FinishedAt := r_FinishedAt r - r_FinishedAt r mod Millisecond,
        r_Duration := r_Duration r - r_Duration r mod Millisecond\<rparr>"
    using r(4) assms(2) null_counter_inverse [OF r(5)] null_counter_inverse [OF r(6)] null_counter_inverse [OF r(7)]
    by (cases r, cases "r_Usage r") (simp add: scanRequest_def request_row_of_def wrap_ms milli_truncate counters_def)
  then have "GetRequest None db' (r_ID r) = Inr (r\<lparr>r_FinishedAt := r_FinishedAt r - r_FinishedAt r mod Millisecond,
             r_Duration := r_Duration r - r_Duration r mod Millisecond\<rparr>)"
    by (simp add: GetRequest_def l)
  moreover have "InsertRequest None db' r = (db', Some (classifyWriteError ''inserting request'' ConstraintPrimaryKey))"
    using r(1-7) l by (simp add: InsertRequest_def)
  ultimately show ?thesis by (simp add: classifyWriteError_def)
qed

definition toy_request :: RequestRecord where
  "toy_request = \<lparr>r_ID = ''req_1'', r_FinishedAt = 63000000000123456789, r_KeyID = ''k'', r_AccountID = [],
     r_Model = ''m'', r_Result = ''completed'', r_Duration = 2500001, r_ResponseStarted = True,
     r_Usage = \<lparr>u_Input = \<lparr>Tokens = 0, Known = True\<rparr>, u_Output = zero_Counter, u_Total = \<lparr>Tokens = 7, Known = True\<rparr>\<rparr>\<rparr>"

theorem insert_then_get_request_witness:
  "\<exists>db'. InsertRequest None empty_DB toy_request = (db', None) \<and>
     GetRequest None db' ''req_1'' = Inr (toy_request\<lparr>r_FinishedAt := 63000000000123000000, r_Duration := 2000000\<rparr>)"
proof -
  let ?db = "fst (InsertRequest None empty_DB toy_request)"
  have "snd (InsertRequest None empty_DB toy_request) = None" by code_simp
  then have i: "InsertRequest None empty_DB toy_request = (?db, None)" by (metis prod.collapse)
  have "r_Duration toy_request \<le> max_int64" by (simp add: toy_request_def max_int64_def)
  from insert_then_get_request [OF i this] i show ?thesis by (auto simp: toy_request_def)
qed

section \<open>Time bounds\<close>

lemma ceilMillis_le: "ceilMillis t \<le> n \<longleftrightarrow> t \<le> UnixMilli_time n"
proof -
  have m: "t mod Second mod Millisecond = t mod Millisecond" by (rule mod_mod_cancel) simp
  have t: "t = t div Millisecond * Millisecond + t mod Millisecond" by simp
  have b: "0 \<le> t mod Millisecond" "t mod Millisecond < Millisecond" by simp_all
  show ?thesis
    using t b unfolding ceilMillis_def Let_def m time_UnixMilli_def UnixMilli_time_def unix_epoch_seconds_def
    by (auto split: if_splits; linarith)
qed

text \<open>
  Sub-millisecond bounds are exact although rows store milliseconds: a row matches a filter
  exactly when its stored instant lies in the half-open interval from \<open>From\<close> to \<open>To\<close> and every
  nonempty exact filter agrees; the filter is refused exactly when the interval is empty.
\<close>

theorem requestWhere_exact:
  "(case requestWhere f of
      Inl e \<Rightarrow> e = Sentinel ErrInvalid \<and> (\<exists>a b. rf_From f = Some a \<and> rf_To f = Some b \<and> b \<le> a)
    | Inr matches \<Rightarrow>
        (case (rf_From f, rf_To f) of (Some a, Some b) \<Rightarrow> a < b | _ \<Rightarrow> True) \<and>
        (matches row \<longleftrightarrow>
          (case rf_From f of None \<Rightarrow> True | Some a \<Rightarrow> a \<le> r_FinishedAt (scanRequest row)) \<and>
          (case rf_To f of None \<Rightarrow> True | Some b \<Rightarrow> r_FinishedAt (scanRequest row) < b) \<and>
          rf_KeyID f \<in> {[], rr_key_id row} \<and> (rf_AccountID f = [] \<or> rr_account_id row = Some (rf_AccountID f)) \<and>
          (rf_Model f = [] \<or> rr_model row = Some (rf_Model f)) \<and> rf_Result f \<in> {[], rr_result row}))"
proof -
  have lt: "rr_finished_at row < ceilMillis b \<longleftrightarrow> r_FinishedAt (scanRequest row) < b" for b
    using ceilMillis_le [of b "rr_finished_at row"] by (simp add: scanRequest_def not_le [symmetric])
  have le: "ceilMillis a \<le> rr_finished_at row \<longleftrightarrow> a \<le> r_FinishedAt (scanRequest row)" for a
    by (simp add: ceilMillis_le scanRequest_def)
  show ?thesis
    by (cases "rf_From f"; cases "rf_To f") (auto simp: requestWhere_def lt le not_less)
qed

section \<open>Summaries\<close>

lemma sum_by_group_set:
  fixes h :: "'r \<Rightarrow> int"
  assumes "finite S" and "k ` set rows \<subseteq> S"
  shows "(\<Sum>g \<in> S. sum_list (map h (filter (\<lambda>r. k r = g) rows))) = sum_list (map h rows)"
  using assms(2)
proof (induction rows)
  case (Cons r rows)
  have "(\<Sum>g \<in> S. sum_list (map h (filter (\<lambda>r. k r = g) (r # rows)))) =
      (\<Sum>g \<in> S. (if k r = g then h r else 0) + sum_list (map h (filter (\<lambda>r. k r = g) rows)))"
    by (rule sum.cong) auto
  then show ?case using Cons assms(1) by (simp add: sum.distrib)
qed simp

lemma sum_by_group:
  fixes h :: "'r \<Rightarrow> int" and k :: "'r \<Rightarrow> 'k::linorder"
  shows "sum_list (map (\<lambda>g. sum_list (map h (filter (\<lambda>r. k r = g) rows))) (sort (remdups (map k rows)))) =
    sum_list (map h rows)"
  using sum_by_group_set [of "k ` set rows" k rows h] by (simp add: sum_list_distinct_conv_sum_set)

lemma int_length_filter: "int (length (filter P rows)) = sum_list (map (\<lambda>r. of_bool (P r)) rows)"
  by (induction rows) auto

definition tokens_of :: "int option \<Rightarrow> int" where
  "tokens_of v = (case v of None \<Rightarrow> 0 | Some n \<Rightarrow> n)"

lemma Tokens_sql_sum: "Tokens (null_counter (sql_sum vs)) = sum_list (map tokens_of vs)"
proof -
  have "sum_list (List.map_filter (\<lambda>v. v) vs) = sum_list (map tokens_of vs)"
    by (induction vs) (auto simp: List.map_filter_simps tokens_of_def split: option.splits)
  then show ?thesis
    by (cases "List.map_filter (\<lambda>v. v) vs") (auto simp: sql_sum_def null_counter_def zero_Counter_def)
qed

definition result_count :: "string \<Rightarrow> UsageSummary \<Rightarrow> int" where
  "result_count res item = tokens_of (map_of (us_Results item) res)"

lemma result_count_group:
  "result_count res (summarize_group g rows) = int (length (filter (\<lambda>r. rr_result r = res) rows))"
proof -
  have "map_of (map (\<lambda>x. (x, c x)) xs) res = (if res \<in> set xs then Some (c res) else None)" for c :: "string \<Rightarrow> int" and xs
    by (induction xs) auto
  then show ?thesis
    by (auto simp: result_count_def summarize_group_def tokens_of_def filter_empty_conv split: prod.split)
qed

lemma sum_results_group: "sum_list (map snd (us_Results (summarize_group g rows))) = us_Requests (summarize_group g rows)"
  using sum_by_group [of "\<lambda>_. 1" rr_result rows]
  by (simp add: summarize_group_def comp_def sum_list_triv split: prod.split)

lemma summarize_group_sels:
  "us_Requests (summarize_group g rows) = sum_list (map (\<lambda>_. 1) rows)"
  "us_UnknownUsage (summarize_group g rows) = sum_list (map (\<lambda>r. of_bool (unknown_usage r)) rows)"
  "Tokens (u_Input (us_Usage (summarize_group g rows))) = sum_list (map (tokens_of \<circ> rr_input) rows)"
  "Tokens (u_Output (us_Usage (summarize_group g rows))) = sum_list (map (tokens_of \<circ> rr_output) rows)"
  "Tokens (u_Total (us_Usage (summarize_group g rows))) = sum_list (map (tokens_of \<circ> rr_total) rows)"
  by (simp_all add: summarize_group_def counters_def Tokens_sql_sum sum_list_triv int_length_filter split: prod.split)

lemma SummarizeUsage_Inr:
  assumes "SummarizeUsage day None db f groups = Inr items" and "requestWhere f = Inr matches"
  shows "items = map (\<lambda>g. summarize_group g (filter (\<lambda>row. group_of day groups row = g) (filter matches (requests_t db))))
       (sort (remdups (map (group_of day groups) (filter matches (requests_t db)))))"
proof -
  have *: "(if b then Inl e else Inr x) = Inr y \<Longrightarrow> y = x" for b and e :: error and x y :: "'c"
    by (cases b) simp_all
  have "\<not> (groups = [] \<or> \<not> valid_groups [] groups)"
    using assms(1) unfolding SummarizeUsage_def by (cases "groups = [] \<or> \<not> valid_groups [] groups") simp_all
  from assms(1) [unfolded SummarizeUsage_def assms(2) sum.case option.case Let_def if_not_P [OF this]]
  show ?thesis by (rule *)
qed

text \<open>
  C25. A usage summary accounts for every matching request exactly once, whatever dimensions are
  selected: request counts, per-result counts, requests of unknown usage and each token counter
  add up over the groups to the totals over the matching rows, and the result counts of one
  group add up to its requests.
\<close>

theorem SummarizeUsage_conserves:
  assumes "SummarizeUsage day None db f groups = Inr items" and "requestWhere f = Inr matches"
  shows "sum_list (map us_Requests items) = int (length (filter matches (requests_t db))) \<and>
    (\<forall>res. sum_list (map (result_count res) items) =
       int (length (filter (\<lambda>r. matches r \<and> rr_result r = res) (requests_t db)))) \<and>
    sum_list (map us_UnknownUsage items) = int (length (filter (\<lambda>r. matches r \<and> unknown_usage r) (requests_t db))) \<and>
    sum_list (map (\<lambda>i. Tokens (u_Input (us_Usage i))) items) = sum_list (map (tokens_of \<circ> rr_input) (filter matches (requests_t db))) \<and>
    sum_list (map (\<lambda>i. Tokens (u_Output (us_Usage i))) items) = sum_list (map (tokens_of \<circ> rr_output) (filter matches (requests_t db))) \<and>
    sum_list (map (\<lambda>i. Tokens (u_Total (us_Usage i))) items) = sum_list (map (tokens_of \<circ> rr_total) (filter matches (requests_t db))) \<and>
    list_all (\<lambda>i. sum_list (map snd (us_Results i)) = us_Requests i) items"
proof -
  let ?k = "group_of day groups" and ?rows = "filter matches (requests_t db)"
  let ?keys = "sort (remdups (map ?k ?rows))"
  have items: "items = map (\<lambda>g. summarize_group g (filter (\<lambda>row. ?k row = g) ?rows)) ?keys"
    by (rule SummarizeUsage_Inr [OF assms])
  have s: "sum_list (map F items) = sum_list (map h ?rows)"
    if "\<And>g rows. F (summarize_group g rows) = sum_list (map h rows)" for F and h :: "request_row \<Rightarrow> int"
    using sum_by_group [of h ?k ?rows] by (simp add: items that comp_def)
  have r: "sum_list (map (result_count res) items) = sum_list (map (\<lambda>r. of_bool (rr_result r = res)) ?rows)" for res
    by (rule s) (simp add: result_count_group int_length_filter)
  have n: "int (length (filter (\<lambda>r. matches r \<and> P r) (requests_t db))) = sum_list (map (\<lambda>r. of_bool (P r)) ?rows)" for P
    using int_length_filter [of P ?rows] by (simp add: conj_commute)
  have c: "int (length ?rows) = sum_list (map (\<lambda>_. 1) ?rows)" by (simp add: sum_list_triv)
  have a: "list_all (\<lambda>i. sum_list (map snd (us_Results i)) = us_Requests i) items"
    by (simp add: items list_all_iff sum_results_group)
  note sums = s [of us_Requests, OF summarize_group_sels(1)] s [of us_UnknownUsage, OF summarize_group_sels(2)]
    s [of "\<lambda>i. Tokens (u_Input (us_Usage i))", OF summarize_group_sels(3)]
    s [of "\<lambda>i. Tokens (u_Output (us_Usage i))", OF summarize_group_sels(4)]
    s [of "\<lambda>i. Tokens (u_Total (us_Usage i))", OF summarize_group_sels(5)]
  show ?thesis
    unfolding n c r sums using a by (intro conjI allI refl)
qed

definition toy_requests_db :: DB where
  "toy_requests_db = empty_DB\<lparr>requests_t := [request_row_of toy_request, request_row_of (toy_request\<lparr>r_ID := ''req_2'', r_KeyID := ''j''\<rparr>)]\<rparr>"

definition all_requests :: RequestFilter where
  "all_requests = \<lparr>rf_From = None, rf_To = None, rf_KeyID = [], rf_AccountID = [], rf_Model = [], rf_Result = []\<rparr>"

theorem SummarizeUsage_conserves_witness:
  "\<exists>items. SummarizeUsage (\<lambda>_. None) None toy_requests_db all_requests [''key''] = Inr items \<and>
     length items = 2 \<and> sum_list (map us_Requests items) = 2"
proof -
  let ?rows = "requests_t toy_requests_db" and ?g = "group_of (\<lambda>_. None) [''key'']"
  let ?items = "map (\<lambda>g. summarize_group g (filter (\<lambda>row. ?g row = g) ?rows)) (sort (remdups (map ?g ?rows)))"
  have w: "requestWhere all_requests = Inr (\<lambda>_. True)" by (simp add: requestWhere_def all_requests_def)
  have s: "SummarizeUsage (\<lambda>_. None) None toy_requests_db all_requests [''key''] = Inr ?items" by code_simp
  have "length ?items = 2" by code_simp
  moreover have "length ?rows = 2" by (simp add: toy_requests_db_def)
  ultimately show ?thesis using SummarizeUsage_conserves [OF s w] s by auto
qed

section \<open>Retention\<close>

definition expired :: "time \<Rightarrow> request_row \<Rightarrow> bool" where
  "expired before row \<longleftrightarrow> r_FinishedAt (scanRequest row) < before"

lemma expired_iff: "rr_finished_at row < ceilMillis before \<longleftrightarrow> expired before row"
  using ceilMillis_le [of before "rr_finished_at row"] by (simp add: expired_def scanRequest_def not_le [symmetric])

lemma DeleteRequestsBefore_batch:
  assumes "DeleteRequestsBefore scan None db before = (db', Inr n)"
    and "\<And>xs. mset (scan xs) = mset xs" and "tbl_keys_unique rr_id (requests_t db)"
  defines "old \<equiv> filter (expired before) (requests_t db)"
  shows "n = min 1000 (length old)"
    and "length (filter (expired before) (requests_t db')) = length old - n"
    and "filter (\<lambda>r. \<not> expired before r) (requests_t db') = filter (\<lambda>r. \<not> expired before r) (requests_t db)"
    and "tbl_keys_unique rr_id (requests_t db')"
proof -
  let ?c = "set (take 1000 (scan old))"
  have d: "distinct (requests_t db)" using assms(3) by (auto simp: tbl_keys_unique_def distinct_map)
  then have do: "distinct old" by (simp add: old_def)
  have so: "set (scan old) = set old" "length (scan old) = length old" "distinct (scan old)"
    using assms(2) [of old] do by (metis set_mset_mset, metis size_mset, metis mset_eq_imp_distinct_iff)
  have db': "db' = db\<lparr>requests_t := tbl_delete (\<lambda>row. row \<in> ?c) (requests_t db)\<rparr>"
    and n: "n = tbl_affected (\<lambda>row. row \<in> ?c) (requests_t db)"
    using assms(1) by (auto simp: DeleteRequestsBefore_def Let_def expired_iff old_def)
  have sub: "?c \<subseteq> set old" using so(1) set_take_subset by fastforce
  have cc: "card ?c = min 1000 (length old)"
    using so(2,3) by (simp add: distinct_card distinct_take min.commute)
  have "n = card (set (filter (\<lambda>row. row \<in> ?c) (requests_t db)))"
    unfolding n tbl_affected_def using d by (simp add: distinct_card [symmetric])
  also have "set (filter (\<lambda>row. row \<in> ?c) (requests_t db)) = ?c" using sub by (auto simp: old_def)
  finally show n1000: "n = min 1000 (length old)" using cc by simp
  have f: "filter (expired before) (requests_t db') = filter (\<lambda>r. r \<notin> ?c) old"
    by (simp add: db' tbl_delete_def old_def conj_commute)
  have "length (filter (\<lambda>r. r \<notin> ?c) old) = card (set old - ?c)"
    using do by (simp add: distinct_card [symmetric] set_diff_eq Collect_conj_eq conj_commute)
  also have "\<dots> = length old - n" using sub do n1000 cc by (simp add: card_Diff_subset distinct_card)
  finally show "length (filter (expired before) (requests_t db')) = length old - n" using f by simp
  have "r \<notin> ?c" if "\<not> expired before r" for r using sub that by (auto simp: old_def)
  then show "filter (\<lambda>r. \<not> expired before r) (requests_t db') = filter (\<lambda>r. \<not> expired before r) (requests_t db)"
    by (auto simp: db' tbl_delete_def intro!: filter_cong)
  show "tbl_keys_unique rr_id (requests_t db')" using assms(3) by (simp add: db' tbl_unique_delete)
qed

definition calm :: "prune_turn \<Rightarrow> bool" where
  "calm turn \<longleftrightarrow> pt_ctx turn = None \<and> pt_io turn = None \<and> pt_others turn = id \<and>
     (\<forall>xs. mset (pt_scan turn xs) = mset xs)"

lemma batch_turns:
  fixes l :: nat
  assumes "(l + 999) div 1000 < Suc k" and "0 < l"
  shows "(l - min 1000 l + 999) div 1000 < k"
proof (cases "l < 1000")
  case True
  have "1 \<le> (l + 999) div 1000" using assms(2) by (simp add: div_greater_zero_iff Suc_le_eq)
  then show ?thesis using True assms(1) by simp
next
  case False
  then have "(l + 999) div 1000 = Suc ((l - 1000 + 999) div 1000)" by (simp add: le_div_geq)
  then show ?thesis using False assms(1) by (simp add: min_def)
qed

lemma pruneRequests_calm:
  assumes "list_all calm turns" and "tbl_keys_unique rr_id (requests_t db)"
    and "(length (filter (expired before) (requests_t db)) + 999) div 1000 < length turns"
  shows "\<exists>db'. pruneRequests turns db before = (db', Some None) \<and>
    requests_t db' = filter (\<lambda>r. \<not> expired before r) (requests_t db)"
  using assms
proof (induction turns arbitrary: db)
  case (Cons turn turns)
  let ?old = "length (filter (expired before) (requests_t db))"
  have t: "pt_ctx turn = None" "pt_io turn = None" "pt_others turn = id" "\<And>xs. mset (pt_scan turn xs) = mset xs"
    using Cons.prems(1) by (auto simp: calm_def)
  obtain db' n where d: "DeleteRequestsBefore (pt_scan turn) None db before = (db', Inr n)"
    by (simp add: DeleteRequestsBefore_def Let_def)
  note batch = DeleteRequestsBefore_batch [OF d t(4) Cons.prems(2)]
  show ?case
  proof (cases "n = 0")
    case True
    then have "filter (expired before) (requests_t db) = []" using batch(1) by (simp add: min_def split: if_splits)
    moreover have "filter (expired before) (requests_t db') = []" using batch(2) True calculation by simp
    ultimately have "requests_t db' = filter (\<lambda>r. \<not> expired before r) (requests_t db')"
      by (auto simp: filter_empty_conv intro!: filter_True [symmetric])
    then show ?thesis using True d t batch(3) by simp
  next
    case False
    have "(length (filter (expired before) (requests_t db')) + 999) div 1000 < length turns"
      using batch_turns [of ?old "length turns"] Cons.prems(3) False unfolding batch(2) unfolding batch(1) by simp
    from Cons.IH [OF _ batch(4) this] Cons.prems(1) batch(3) show ?thesis using False d t by auto
  qed
qed simp

text \<open>
  C24. Retention finishes and is exact: with no interference, one batch of at most 1000 rows per
  turn empties the expired rows within \<open>\<lceil>n / 1000\<rceil> + 1\<close> turns whatever order SQLite deletes them
  in, the loop returns without error, no expired row is left and every other row is kept.
\<close>

theorem retention_exact:
  assumes "reachable (\<lambda>db. db = empty_DB) request_step db" and "list_all calm turns"
    and "(length (filter (expired before) (requests_t db)) + 999) div 1000 < length turns"
  shows "\<exists>db'. pruneRequests turns db before = (db', Some None) \<and>
    requests_t db' = filter (\<lambda>r. \<not> expired before r) (requests_t db)"
  using requests_sys.inv_reachable [OF assms(1)] assms(2,3) by (intro pruneRequests_calm) (auto simp: requests_wf_def)

theorem retention_exact_witness:
  "\<exists>db'. pruneRequests (replicate 2 \<lparr>pt_ctx = None, pt_io = None, pt_scan = rev, pt_others = id\<rparr>)
     (fst (InsertRequest None empty_DB toy_request)) 63000000000123000001 = (db', Some None) \<and> requests_t db' = []"
proof -
  let ?db = "fst (InsertRequest None empty_DB toy_request)"
  have "request_step empty_DB ?db" by (rule request_step.intros(1)) (rule prod.collapse [symmetric])
  then have reach: "reachable (\<lambda>db. db = empty_DB) request_step ?db"
    by (rule reach_step [OF reach_start [of "\<lambda>db. db = empty_DB", OF refl]])
  have calm: "list_all calm (replicate 2 \<lparr>pt_ctx = None, pt_io = None, pt_scan = rev, pt_others = id\<rparr>)"
    by (simp add: calm_def numeral_2_eq_2)
  have "length (filter (expired 63000000000123000001) (requests_t ?db)) = 1" by code_simp
  moreover have "filter (\<lambda>r. \<not> expired 63000000000123000001 r) (requests_t ?db) = []" by code_simp
  ultimately show ?thesis using retention_exact [OF reach calm, of 63000000000123000001] by simp
qed

end
