(* ===== verification/Json.thy ===== *)
theory Json
  imports Clan_Errors "HOL-Library.AList" "HOL-Library.Multiset"
begin

text \<open>
  JSON values as \<open>encoding/json\<close> hands them to the program, and the helpers of
  \<open>internal/codex/request.go\<close> that read them. A \<open>json.RawMessage\<close> taken from a decoded map is
  the value it denotes (a missing key is \<open>None\<close>), so the text of numbers is kept and strings are
  decoded. A Go map is an association list with distinct keys; the order in which \<open>range\<close>
  visits it is the argument \<open>ord\<close>, of which only \<open>map_order\<close> is known.
\<close>

section \<open>Values\<close>

datatype json =
    JNull
  | JBool bool
  | JNum string \<comment> \<open>the number's text\<close>
  | JStr string
  | JArr "json list"
  | JObj "(string \<times> json) list"

type_synonym raw = "json option"
type_synonym fields = "(string \<times> json) list"
type_synonym map_iter = "fields \<Rightarrow> fields"

definition map_order :: "map_iter \<Rightarrow> bool" where
  "map_order ord \<longleftrightarrow> (\<forall>m. mset (ord m) = mset m)"

text \<open>Decoding into a map keeps the last value of a repeated key.\<close>

fun dedup :: "fields \<Rightarrow> fields" where
  "dedup [] = []"
| "dedup ((k, v) # m) = (if k \<in> fst ` set m then dedup m else (k, v) # dedup m)"

definition set_field :: "fields \<Rightarrow> string \<Rightarrow> json \<Rightarrow> fields" where
  "set_field m k v = AList.update k v m"

definition del_field :: "fields \<Rightarrow> string \<Rightarrow> fields" where
  "del_field m k = filter (\<lambda>(k', _). k' \<noteq> k) m"

text \<open>Encoding a map sorts its keys.\<close>

definition marshal_fields :: "fields \<Rightarrow> json" where
  "marshal_fields m = JObj (sort_key fst m)"

section \<open>Readers\<close>

definition invalid :: "string \<Rightarrow> error" where
  "invalid field = ValidationError field"

definition allowed :: "map_iter \<Rightarrow> fields \<Rightarrow> string \<Rightarrow> string \<Rightarrow> error option" where
  "allowed ord fs path names =
     (let validNames = Fields names in
      case find (\<lambda>(name, _). name \<notin> set validNames) (ord fs) of
        Some (name, _) \<Rightarrow> Some (invalid (path @ ''.'' @ name))
      | None \<Rightarrow> None)"

definition object :: "map_iter \<Rightarrow> raw \<Rightarrow> string \<Rightarrow> string \<Rightarrow> fields result" where
  "object ord raw path names =
     (case raw of
        Some (JObj m) \<Rightarrow>
          (let fs = dedup m in
           if names \<noteq> [] then (case allowed ord fs path names of Some err \<Rightarrow> Inl err | None \<Rightarrow> Inr fs)
           else Inr fs)
      | _ \<Rightarrow> Inl (invalid path))"

definition textValue :: "raw \<Rightarrow> string \<Rightarrow> bool \<Rightarrow> string result" where
  "textValue raw path allow_empty =
     (case raw of
        Some (JStr value) \<Rightarrow> if \<not> allow_empty \<and> blank value then Inl (invalid path) else Inr value
      | _ \<Rightarrow> Inl (invalid path))"

definition enumValue :: "raw \<Rightarrow> string \<Rightarrow> string \<Rightarrow> string result" where
  "enumValue raw path names =
     (case textValue raw path False of
        Inl err \<Rightarrow> Inl err
      | Inr value \<Rightarrow> if value \<notin> set (Fields names) then Inl (invalid path) else Inr value)"

definition boolValue :: "raw \<Rightarrow> string \<Rightarrow> bool result" where
  "boolValue raw path =
     (case raw of Some (JBool value) \<Rightarrow> Inr value | _ \<Rightarrow> Inl (invalid path))"

definition array :: "raw \<Rightarrow> string \<Rightarrow> json list result" where
  "array raw path = (case raw of Some (JArr values) \<Rightarrow> Inr values | _ \<Rightarrow> Inl (invalid path))"

definition omitNull :: "fields \<Rightarrow> string \<Rightarrow> fields" where
  "omitNull fs names =
     fold (\<lambda>name m. if map_of m name = Some JNull then del_field m name else m) (Fields names) fs"

text \<open>
  \<open>if value, ok := fields[name]; ok { ... }\<close> around a check, and the same with
  \<open>&& string(value) != "null"\<close>.
\<close>

definition if_present :: "raw \<Rightarrow> (json \<Rightarrow> 'a result) \<Rightarrow> unit result" where
  "if_present raw f = (case raw of None \<Rightarrow> Inr () | Some value \<Rightarrow> bindR (f value) (\<lambda>_. Inr ()))"

definition unless_null :: "raw \<Rightarrow> (json \<Rightarrow> 'a result) \<Rightarrow> unit result" where
  "unless_null raw f = if_present raw (\<lambda>value. if value = JNull then Inr () else bindR (f value) (\<lambda>_. Inr ()))"

text \<open>\<open>json.Unmarshal\<close> into an \<open>int64\<close>: \<open>None\<close> is an error; null leaves the target as it was.\<close>

definition int64Value :: "raw \<Rightarrow> int \<Rightarrow> int option" where
  "int64Value raw zero =
     (case raw of
        Some (JNum s) \<Rightarrow> (case ParseInt64 s of Inr n \<Rightarrow> Some n | Inl _ \<Rightarrow> None)
      | Some JNull \<Rightarrow> Some zero
      | _ \<Rightarrow> None)"

section \<open>Lemmas\<close>

lemma dedup_keys [simp]: "fst ` set (dedup m) = fst ` set m"
  by (induction m rule: dedup.induct) auto

lemma dedup_distinct [simp]: "distinct (map fst (dedup m))"
  by (induction m rule: dedup.induct) (auto simp: image_iff)

lemma dedup_id: "distinct (map fst m) \<Longrightarrow> dedup m = m"
  by (induction m rule: dedup.induct) (auto simp: image_iff)

lemma map_of_dedup_None: "map_of (dedup m) k = None \<longleftrightarrow> k \<notin> fst ` set m"
  by (simp add: map_of_eq_None_iff)

lemma map_of_set_field [simp]: "map_of (set_field m k v) = (map_of m)(k \<mapsto> v)"
  by (simp add: set_field_def update_conv')

lemma distinct_set_field [simp]: "distinct (map fst m) \<Longrightarrow> distinct (map fst (set_field m k v))"
  by (simp add: set_field_def distinct_update)

lemma keys_set_field [simp]: "fst ` set (set_field m k v) = insert k (fst ` set m)"
  using dom_update [of k v m] by (simp add: set_field_def)

lemma map_of_del_field [simp]: "map_of (del_field m k) = (map_of m)(k := None)"
  by (induction m) (auto simp: del_field_def)

lemma distinct_del_field [simp]: "distinct (map fst m) \<Longrightarrow> distinct (map fst (del_field m k))"
  by (auto simp: del_field_def distinct_map_filter)

lemma keys_del_field [simp]: "fst ` set (del_field m k) = fst ` set m - {k}"
  by (auto simp: del_field_def)

lemma set_ord: "map_order ord \<Longrightarrow> set (ord m) = set m"
  by (metis map_order_def set_mset_mset)

lemma allowed_None:
  assumes "map_order ord"
  shows "allowed ord fs path names = None \<longleftrightarrow> fst ` set fs \<subseteq> set (Fields names)"
proof -
  have "allowed ord fs path names = None \<longleftrightarrow> find (\<lambda>(name, _). name \<notin> set (Fields names)) (ord fs) = None"
    by (auto simp: allowed_def Let_def split: option.splits)
  also have "\<dots> \<longleftrightarrow> (\<forall>kv \<in> set fs. fst kv \<in> set (Fields names))"
    using set_ord [OF assms, of fs] by (auto simp: find_None_iff)
  finally show ?thesis by auto
qed

end
