(* ===== verification/CodexRequest.thy ===== *)
theory CodexRequest
  imports Json Base64
begin

text \<open>
  \<open>internal/codex/request.go\<close>, \<open>input.go\<close> and \<open>controls.go\<close>: validation of a client's Responses
  request and construction of the body that is sent upstream. \<open>net/url\<close>'s parser and Go's map
  order are in \<open>CodexEnv\<close>. A validator that updates the receiver returns it on success; every
  caller discards it on an error.
\<close>

section \<open>Records\<close>

record ParsedURL =
  pu_Scheme :: string
  pu_Host :: string
  pu_hasUser :: bool

record CodexEnv =
  ce_order :: map_iter
  ce_url_Parse :: "string \<Rightarrow> ParsedURL option"

record Model =
  m_ID :: string
  m_Name :: string
  m_Listed :: bool
  m_ReasoningEfforts :: "string list"
  m_InputModalities :: "string list"
  m_SupportsReasoningSummary :: bool
  m_SupportsVerbosity :: bool
  m_SupportsImageDetailOriginal :: bool

record Request =
  rq_body :: raw \<comment> \<open>\<open>None\<close> is the empty body of the zero value\<close>
  rq_model :: string
  rq_stream :: bool
  rq_omittedCap :: bool
  rq_effort :: string
  rq_summary :: bool
  rq_verbosity :: bool
  rq_originalImage :: bool
  rq_image :: bool

definition zero_Request :: Request where
  "zero_Request = \<lparr>rq_body = None, rq_model = [], rq_stream = False, rq_omittedCap = False, rq_effort = [],
     rq_summary = False, rq_verbosity = False, rq_originalImage = False, rq_image = False\<rparr>"

definition maxPayload :: int where "maxPayload = 16777216" \<comment> \<open>\<open>16 << 20\<close>\<close>

definition ValidateModel :: "Request \<Rightarrow> Model \<Rightarrow> error option" where
  "ValidateModel r model =
     (if rq_body r = None \<or> rq_model r \<noteq> m_ID model then Some (invalid ''model'')
      else if rq_effort r \<noteq> [] \<and> rq_effort r \<notin> set (m_ReasoningEfforts model) then Some (invalid ''reasoning.effort'')
      else if rq_summary r \<and> \<not> m_SupportsReasoningSummary model then Some (invalid ''reasoning.summary'')
      else if rq_verbosity r \<and> \<not> m_SupportsVerbosity model then Some (invalid ''text.verbosity'')
      else if rq_originalImage r \<and> \<not> m_SupportsImageDetailOriginal model then Some (invalid ''input.image.detail'')
      else if rq_image r \<and> ''image'' \<notin> set (m_InputModalities model) then Some (invalid ''input.image'')
      else None)"

section \<open>Input items\<close>

definition imageURL :: "CodexEnv \<Rightarrow> string \<Rightarrow> bool" where
  "imageURL env value =
     (if HasPrefix value ''data:image/'' then
        (case Cut value (CHR '','') of
           (header, content, ok) \<Rightarrow>
             ok \<and> HasSuffix header '';base64'' \<and> content \<noteq> [] \<and> Std_Decode content \<noteq> None)
      else case ce_url_Parse env value of
             None \<Rightarrow> False
           | Some u \<Rightarrow> (pu_Scheme u = ''https'' \<or> pu_Scheme u = ''http'') \<and> pu_Host u \<noteq> [] \<and> \<not> pu_hasUser u)"

fun text_parts :: "CodexEnv \<Rightarrow> string \<Rightarrow> string \<Rightarrow> json list \<Rightarrow> error option" where
  "text_parts env path kind [] = None"
| "text_parts env path kind (part # parts) =
     (case object (ce_order env) (Some part) path ''type text'' of
        Inl e \<Rightarrow> Some e
      | Inr fs \<Rightarrow>
          (case enumValue (map_of fs ''type'') (path @ ''.type'') kind of
             Inl e \<Rightarrow> Some e
           | Inr _ \<Rightarrow>
               (case textValue (map_of fs ''text'') (path @ ''.text'') True of
                  Inl e \<Rightarrow> Some e
                | Inr _ \<Rightarrow> text_parts env path kind parts)))"

definition validateTextParts :: "CodexEnv \<Rightarrow> raw \<Rightarrow> string \<Rightarrow> string \<Rightarrow> error option" where
  "validateTextParts env raw path kind =
     (case array raw path of Inl err \<Rightarrow> Some err | Inr parts \<Rightarrow> text_parts env path kind parts)"

definition validate_image :: "CodexEnv \<Rightarrow> Request \<Rightarrow> string \<Rightarrow> fields \<Rightarrow> Request result" where
  "validate_image env r path fs =
     checkR (allowed (ce_order env) fs path ''type image_url detail'')
       (bindR (textValue (map_of fs ''image_url'') (path @ ''.image_url'') False) (\<lambda>value.
          if \<not> imageURL env value then Inl (invalid (path @ ''.image_url''))
          else case map_of fs ''detail'' of
                 None \<Rightarrow> Inr r
               | Some detail \<Rightarrow>
                   bindR (enumValue (Some detail) (path @ ''.detail'') ''auto low high original'') (\<lambda>value.
                     Inr (if value = ''original'' then r\<lparr>rq_originalImage := True\<rparr> else r))))"

definition validate_part :: "CodexEnv \<Rightarrow> Request \<Rightarrow> string \<Rightarrow> bool \<Rightarrow> json \<Rightarrow> Request result" where
  "validate_part env r path outputText part =
     bindR (object (ce_order env) (Some part) path []) (\<lambda>fs.
     bindR (textValue (map_of fs ''type'') (path @ ''.type'') False) (\<lambda>kind.
       if kind = ''input_text'' then
         checkR (allowed (ce_order env) fs path ''type text'')
           (bindR (textValue (map_of fs ''text'') (path @ ''.text'') True) (\<lambda>_. Inr r))
       else if kind = ''output_text'' then
         (if \<not> outputText then Inl (invalid (path @ ''.type''))
          else checkR (allowed (ce_order env) fs path ''type text annotations logprobs'')
            (bindR (textValue (map_of fs ''text'') (path @ ''.text'') True) (\<lambda>_.
             bindR (if_present (map_of fs ''annotations'') (\<lambda>v. array (Some v) (path @ ''.annotations''))) (\<lambda>_.
             bindR (unless_null (map_of fs ''logprobs'') (\<lambda>v. array (Some v) (path @ ''.logprobs''))) (\<lambda>_. Inr r)))))
       else if kind = ''refusal'' then
         (if \<not> outputText then Inl (invalid (path @ ''.type''))
          else checkR (allowed (ce_order env) fs path ''type refusal'')
            (bindR (textValue (map_of fs ''refusal'') (path @ ''.refusal'') True) (\<lambda>_. Inr r)))
       else if kind = ''input_image'' then validate_image env (r\<lparr>rq_image := True\<rparr>) path fs
       else Inl (invalid (path @ ''.type''))))"

fun validate_parts :: "CodexEnv \<Rightarrow> Request \<Rightarrow> string \<Rightarrow> bool \<Rightarrow> json list \<Rightarrow> Request result" where
  "validate_parts env r path outputText [] = Inr r"
| "validate_parts env r path outputText (part # parts) =
     bindR (validate_part env r path outputText part) (\<lambda>r'. validate_parts env r' path outputText parts)"

definition validateContent :: "CodexEnv \<Rightarrow> Request \<Rightarrow> raw \<Rightarrow> string \<Rightarrow> bool \<Rightarrow> Request result" where
  "validateContent env r raw path outputText =
     (case raw of
        Some (JStr _) \<Rightarrow> bindR (textValue raw path True) (\<lambda>_. Inr r)
      | _ \<Rightarrow> bindR (array raw path) (validate_parts env r path outputText))"

text \<open>The switch on an item's kind: the updated receiver and fields.\<close>

definition validate_kind :: "CodexEnv \<Rightarrow> Request \<Rightarrow> string \<Rightarrow> string \<Rightarrow> fields \<Rightarrow> (Request \<times> fields) result" where
  "validate_kind env r path kind fs =
     (if kind = ''message'' then
        checkR (allowed (ce_order env) fs path ''type id role content status phase'')
          (bindR (enumValue (map_of fs ''role'') (path @ ''.role'') ''user assistant system developer'') (\<lambda>role.
             let fs = (if role = ''system'' then set_field fs ''role'' (JStr ''developer'') else fs) in
             bindR (validateContent env r (map_of fs ''content'') (path @ ''.content'') True) (\<lambda>r.
               bindR (unless_null (map_of fs ''phase'') (\<lambda>v. enumValue (Some v) (path @ ''.phase'') ''commentary final_answer'')) (\<lambda>_.
                 Inr (r, fs)))))
      else if kind = ''function_call'' then
        checkR (allowed (ce_order env) fs path ''type id call_id name arguments status'')
          (bindR (textValue (map_of fs ''call_id'') (path @ ''.call_id'') False) (\<lambda>_.
           bindR (textValue (map_of fs ''name'') (path @ ''.name'') False) (\<lambda>_.
           bindR (textValue (map_of fs ''arguments'') (path @ ''.arguments'') True) (\<lambda>_. Inr (r, fs)))))
      else if kind = ''function_call_output'' then
        checkR (allowed (ce_order env) fs path ''type id call_id output status'')
          (bindR (textValue (map_of fs ''call_id'') (path @ ''.call_id'') False) (\<lambda>_.
           bindR (validateContent env r (map_of fs ''output'') (path @ ''.output'') False) (\<lambda>r. Inr (r, fs))))
      else if kind = ''reasoning'' then
        checkR (allowed (ce_order env) fs path ''type id summary encrypted_content content status'')
          (bindR (unless_null (map_of fs ''encrypted_content'') (\<lambda>v. textValue (Some v) (path @ ''.encrypted_content'') True)) (\<lambda>_.
           checkR (validateTextParts env (map_of fs ''summary'') (path @ ''.summary'') ''summary_text'')
             (bindR (unless_null (map_of fs ''content'')
                (\<lambda>v. checkR (validateTextParts env (Some v) (path @ ''.content'') ''reasoning_text'') (Inr ()))) (\<lambda>_. Inr (r, fs)))))
      else Inl (invalid (path @ ''.type'')))"

definition validate_item :: "CodexEnv \<Rightarrow> Request \<Rightarrow> string \<Rightarrow> json \<Rightarrow> (Request \<times> json) result" where
  "validate_item env r path item =
     bindR (object (ce_order env) (Some item) path []) (\<lambda>fs.
     bindR (case map_of fs ''type'' of
              None \<Rightarrow> Inr ''message'' | Some value \<Rightarrow> textValue (Some value) (path @ ''.type'') False) (\<lambda>kind.
     bindR (validate_kind env r path kind fs) (\<lambda>(r, fs).
     bindR (if_present (map_of fs ''id'') (\<lambda>v.
              if kind = ''function_call_output'' \<and> v = JNull then Inr [] else textValue (Some v) (path @ ''.id'') False)) (\<lambda>_.
     bindR (if_present (map_of fs ''status'') (\<lambda>v.
              if kind \<noteq> ''message'' \<and> v = JNull then Inr []
              else enumValue (Some v) (path @ ''.status'') ''in_progress completed incomplete'')) (\<lambda>_.
       Inr (r, marshal_fields fs))))))"

fun validate_items :: "CodexEnv \<Rightarrow> Request \<Rightarrow> nat \<Rightarrow> json list \<Rightarrow> (Request \<times> json list) result" where
  "validate_items env r i [] = Inr (r, [])"
| "validate_items env r i (item # items) =
     bindR (validate_item env r (''input['' @ FormatInt (int i) @ '']'') item) (\<lambda>(r', item').
     bindR (validate_items env r' (Suc i) items) (\<lambda>(r'', items'). Inr (r'', item' # items')))"

definition text_input :: "string \<Rightarrow> json" where
  "text_input text =
     JArr [marshal_fields [(''type'', JStr ''message''), (''role'', JStr ''user''),
       (''content'', JArr [marshal_fields [(''type'', JStr ''input_text''), (''text'', JStr text)]])]]"

definition validateInput :: "CodexEnv \<Rightarrow> Request \<Rightarrow> raw \<Rightarrow> (Request \<times> json) result" where
  "validateInput env r raw =
     (case raw of
        Some (JStr _) \<Rightarrow> bindR (textValue raw ''input'' True) (\<lambda>text. Inr (r, text_input text))
      | _ \<Rightarrow> bindR (array raw ''input'') (\<lambda>items.
               bindR (validate_items env r 0 items) (\<lambda>(r, items). Inr (r, JArr items))))"

section \<open>Controls\<close>

definition validate_tool :: "CodexEnv \<Rightarrow> json \<Rightarrow> json result" where
  "validate_tool env tool =
     bindR (object (ce_order env) (Some tool) ''tools'' ''type name description parameters strict'') (\<lambda>fs.
     bindR (enumValue (map_of fs ''type'') ''tools.type'' ''function'') (\<lambda>_.
       let fs = omitNull fs ''description parameters strict'' in
       bindR (textValue (map_of fs ''name'') ''tools.name'' False) (\<lambda>_.
       bindR (if_present (map_of fs ''description'') (\<lambda>v. textValue (Some v) ''tools.description'' True)) (\<lambda>_.
       bindR (if_present (map_of fs ''parameters'') (\<lambda>v. object (ce_order env) (Some v) ''tools.parameters'' [])) (\<lambda>_.
       bindR (if_present (map_of fs ''strict'') (\<lambda>v. boolValue (Some v) ''tools.strict'')) (\<lambda>_. Inr (marshal_fields fs)))))))"

fun validate_tool_list :: "CodexEnv \<Rightarrow> json list \<Rightarrow> json list result" where
  "validate_tool_list env [] = Inr []"
| "validate_tool_list env (tool # tools) =
     bindR (validate_tool env tool) (\<lambda>t. bindR (validate_tool_list env tools) (\<lambda>ts. Inr (t # ts)))"

definition validateTools :: "CodexEnv \<Rightarrow> raw \<Rightarrow> json result" where
  "validateTools env raw =
     bindR (array raw ''tools'') (\<lambda>tools. bindR (validate_tool_list env tools) (\<lambda>ts. Inr (JArr ts)))"

definition validateToolChoice :: "CodexEnv \<Rightarrow> raw \<Rightarrow> error option" where
  "validateToolChoice env raw =
     (case raw of
        Some (JStr _) \<Rightarrow> (case enumValue raw ''tool_choice'' ''auto none required'' of Inl err \<Rightarrow> Some err | Inr _ \<Rightarrow> None)
      | _ \<Rightarrow>
          (case object (ce_order env) raw ''tool_choice'' ''type name'' of
             Inl err \<Rightarrow> Some err
           | Inr fs \<Rightarrow>
               (case enumValue (map_of fs ''type'') ''tool_choice.type'' ''function'' of
                  Inl err \<Rightarrow> Some err
                | Inr _ \<Rightarrow>
                    (case textValue (map_of fs ''name'') ''tool_choice.name'' False of Inl err \<Rightarrow> Some err | Inr _ \<Rightarrow> None))))"

definition validateReasoning :: "CodexEnv \<Rightarrow> Request \<Rightarrow> raw \<Rightarrow> (Request \<times> json) result" where
  "validateReasoning env r raw =
     bindR (object (ce_order env) raw ''reasoning'' ''effort summary'') (\<lambda>fs.
       let fs = omitNull fs ''effort summary'' in
       bindR (case map_of fs ''effort'' of
                None \<Rightarrow> Inr r
              | Some value \<Rightarrow> bindR (textValue (Some value) ''reasoning.effort'' False) (\<lambda>e. Inr (r\<lparr>rq_effort := e\<rparr>))) (\<lambda>r.
       bindR (case map_of fs ''summary'' of
                None \<Rightarrow> Inr r
              | Some value \<Rightarrow> bindR (enumValue (Some value) ''reasoning.summary'' ''auto concise detailed'') (\<lambda>_.
                                 Inr (r\<lparr>rq_summary := True\<rparr>))) (\<lambda>r.
         Inr (r, marshal_fields fs))))"

definition validateFormat :: "CodexEnv \<Rightarrow> json \<Rightarrow> json result" where
  "validateFormat env raw =
     bindR (object (ce_order env) (Some raw) ''text.format'' ''type name schema description strict'') (\<lambda>fmt.
     bindR (enumValue (map_of fmt ''type'') ''text.format.type'' ''text json_object json_schema'') (\<lambda>kind.
       if kind \<noteq> ''json_schema'' then checkR (allowed (ce_order env) fmt ''text.format'' ''type'') (Inr raw)
       else let fmt = omitNull fmt ''strict'' in
         bindR (textValue (map_of fmt ''name'') ''text.format.name'' False) (\<lambda>_.
         bindR (object (ce_order env) (map_of fmt ''schema'') ''text.format.schema'' []) (\<lambda>_.
         bindR (if_present (map_of fmt ''description'') (\<lambda>v. textValue (Some v) ''text.format.description'' True)) (\<lambda>_.
         bindR (if_present (map_of fmt ''strict'') (\<lambda>v. boolValue (Some v) ''text.format.strict'')) (\<lambda>_. Inr (marshal_fields fmt)))))))"

definition validateText :: "CodexEnv \<Rightarrow> Request \<Rightarrow> raw \<Rightarrow> (Request \<times> json) result" where
  "validateText env r raw =
     bindR (object (ce_order env) raw ''text'' ''verbosity format'') (\<lambda>fs.
       let fs = omitNull fs ''verbosity'' in
       bindR (case map_of fs ''verbosity'' of
                None \<Rightarrow> Inr r
              | Some value \<Rightarrow> bindR (enumValue (Some value) ''text.verbosity'' ''low medium high'') (\<lambda>_.
                                 Inr (r\<lparr>rq_verbosity := True\<rparr>))) (\<lambda>r.
       bindR (case map_of fs ''format'' of
                None \<Rightarrow> Inr fs
              | Some format \<Rightarrow> bindR (validateFormat env format) (\<lambda>f. Inr (set_field fs ''format'' f))) (\<lambda>fs.
         Inr (r, marshal_fields fs))))"

section \<open>The request\<close>

text \<open>One pass of the loop over the fields: the updated receiver and the field's new value.\<close>

definition check_field :: "CodexEnv \<Rightarrow> Request \<Rightarrow> string \<Rightarrow> json \<Rightarrow> (Request \<times> json) result" where
  "check_field env r name raw =
     (if name = ''model'' \<or> name = ''input'' then Inr (r, raw)
      else if name = ''instructions'' \<or> name = ''prompt_cache_key'' then
        bindR (textValue (Some raw) name True) (\<lambda>_. Inr (r, raw))
      else if name = ''stream'' \<or> name = ''store'' \<or> name = ''background'' \<or> name = ''parallel_tool_calls'' then
        bindR (boolValue (Some raw) name) (\<lambda>value.
          let r = (if name = ''stream'' then r\<lparr>rq_stream := value\<rparr> else r) in
          if (name = ''store'' \<or> name = ''background'') \<and> value then Inl (invalid name) else Inr (r, raw))
      else if name = ''max_output_tokens'' then
        (case int64Value (Some raw) 0 of
           None \<Rightarrow> Inl (invalid name)
         | Some value \<Rightarrow> if value < 1 then Inl (invalid name) else Inr (r\<lparr>rq_omittedCap := True\<rparr>, raw))
      else if name = ''tools'' then bindR (validateTools env (Some raw)) (\<lambda>v. Inr (r, v))
      else if name = ''tool_choice'' then checkR (validateToolChoice env (Some raw)) (Inr (r, raw))
      else if name = ''reasoning'' then validateReasoning env r (Some raw)
      else if name = ''include'' then
        bindR (array (Some raw) name) (\<lambda>values.
          if list_all (\<lambda>v. v = JStr ''reasoning.encrypted_content'') values then Inr (r, raw)
          else Inl (invalid name))
      else if name = ''text'' then validateText env r (Some raw)
      else Inr (r, raw))"

fun check_fields :: "CodexEnv \<Rightarrow> Request \<Rightarrow> fields \<Rightarrow> fields \<Rightarrow> (Request \<times> fields) result" where
  "check_fields env r fs [] = Inr (r, fs)"
| "check_fields env r fs ((name, raw) # rest) =
     bindR (check_field env r name raw) (\<lambda>(r', v). check_fields env r' (set_field fs name v) rest)"

definition request_names :: string where
  "request_names = ''model input instructions stream store background max_output_tokens prompt_cache_key tools tool_choice parallel_tool_calls reasoning include text''"

definition nullable_names :: string where
  "nullable_names = ''instructions stream store background max_output_tokens prompt_cache_key parallel_tool_calls reasoning include''"

text \<open>\<open>data\<close> is the value of the request text, \<open>None\<close> when it is not JSON; \<open>n\<close> its length.\<close>

definition ParseRequest :: "CodexEnv \<Rightarrow> nat \<Rightarrow> raw \<Rightarrow> Request result" where
  "ParseRequest env n data =
     (if int n > maxPayload then Inl (invalid ''request'')
      else bindR (object (ce_order env) data ''request'' request_names) (\<lambda>fs.
        let fs = omitNull fs nullable_names in
        bindR (textValue (map_of fs ''model'') ''model'' False) (\<lambda>model.
        bindR (check_fields env (zero_Request\<lparr>rq_model := model\<rparr>) fs (ce_order env fs)) (\<lambda>(r, fs).
        bindR (validateInput env r (map_of fs ''input'')) (\<lambda>(r, input).
          let fs = set_field fs ''input'' input;
              fs = set_field fs ''stream'' (JBool True);
              fs = set_field fs ''store'' (JBool False);
              fs = del_field fs ''max_output_tokens''
          in Inr (r\<lparr>rq_body := Some (marshal_fields fs)\<rparr>))))))"

end
