(* ===== verification/RequestParsing.thy ===== *)
theory RequestParsing
  imports CodexRequest
begin

text \<open>
  What \<open>ParseRequest\<close> guarantees of the body it sends upstream, that Go's random map order does
  not influence it, and that a request accepted for a model uses only what the model supports.
\<close>

section \<open>Marshalled fields\<close>

lemma sort_key_fst_map_of: "distinct (map fst m) \<Longrightarrow> map_of (sort_key fst m) = map_of m"
proof -
  assume d: "distinct (map fst m)"
  have "distinct (map fst (sort_key fst m))"
    using d by (metis distinct_map distinct_sort set_sort)
  moreover have "set (sort_key fst m) = set m" by simp
  ultimately show ?thesis using d by (metis map_of_inject_set)
qed

lemma omitNull_distinct: "distinct (map fst m) \<Longrightarrow> distinct (map fst (omitNull m names))"
proof -
  have "distinct (map fst m) \<Longrightarrow>
    distinct (map fst (fold (\<lambda>name m. if map_of m name = Some JNull then del_field m name else m) ns m))" for ns
    by (induction ns arbitrary: m) auto
  then show "distinct (map fst m) \<Longrightarrow> distinct (map fst (omitNull m names))" by (simp add: omitNull_def)
qed

lemma omitNull_map_of:
  "map_of (omitNull m names) k =
     (if k \<in> set (Fields names) \<and> map_of m k = Some JNull then None else map_of m k)"
proof -
  have "map_of (fold (\<lambda>name m. if map_of m name = Some JNull then del_field m name else m) ns m) k =
     (if k \<in> set ns \<and> map_of m k = Some JNull then None else map_of m k)" for ns
    by (induction ns arbitrary: m) auto
  then show ?thesis by (simp add: omitNull_def)
qed

lemma keys_dom: "fst ` set m = dom (map_of m)"
  by (simp add: dom_map_of_conv_image_fst)

lemma omitNull_keys: "fst ` set (omitNull m names) \<subseteq> fst ` set m"
  unfolding keys_dom by (auto simp: omitNull_map_of dom_def split: if_splits)

lemma object_Inr:
  assumes "map_order ord" and "object ord raw path names = Inr fs"
  shows "\<exists>m. raw = Some (JObj m) \<and> fs = dedup m"
    and "distinct (map fst fs)" and "names \<noteq> [] \<Longrightarrow> fst ` set fs \<subseteq> set (Fields names)"
proof -
  show raw: "\<exists>m. raw = Some (JObj m) \<and> fs = dedup m"
    using assms(2) by (auto simp: object_def Let_def split: option.splits json.splits if_splits)
  then show "distinct (map fst fs)" by auto
  assume "names \<noteq> []"
  then have "allowed ord fs path names = None"
    using assms(2) raw by (auto simp: object_def Let_def split: option.splits)
  then show "fst ` set fs \<subseteq> set (Fields names)" by (simp only: allowed_None [OF assms(1)])
qed

section \<open>The field loop\<close>

lemma check_fields_ConsE:
  assumes "check_fields env r fs ((name, raw) # todo) = Inr (r', fs')"
  obtains r1 w where "check_field env r name raw = Inr (r1, w)"
    "check_fields env r1 (set_field fs name w) todo = Inr (r', fs')"
  using assms by (auto simp: bindR_Inr split: prod.splits)

lemma check_fields_distinct:
  "check_fields env r fs todo = Inr (r', fs') \<Longrightarrow> distinct (map fst fs) \<Longrightarrow> distinct (map fst fs')"
proof (induction todo arbitrary: r fs)
  case (Cons kv todo)
  then show ?case
    by (cases kv) (auto elim!: check_fields_ConsE simp del: check_fields.simps dest: distinct_set_field)
qed simp

lemma check_fields_other:
  "check_fields env r fs todo = Inr (r', fs') \<Longrightarrow> k \<notin> fst ` set todo \<Longrightarrow> map_of fs' k = map_of fs k"
proof (induction todo arbitrary: r fs)
  case (Cons kv todo)
  obtain name raw where kv: "kv = (name, raw)" by force
  from Cons.prems(1) show ?case
    unfolding kv by (rule check_fields_ConsE) (use Cons kv in auto)
qed simp

lemma check_fields_each:
  "check_fields env r fs todo = Inr (r', fs') \<Longrightarrow> distinct (map fst todo) \<Longrightarrow> (k, v) \<in> set todo \<Longrightarrow>
   \<exists>r1 r2 w. check_field env r1 k v = Inr (r2, w) \<and> map_of fs' k = Some w"
proof (induction todo arbitrary: r fs)
  case (Cons kv todo)
  obtain name raw where kv: "kv = (name, raw)" by force
  from Cons.prems(1) obtain r1 w where *: "check_field env r name raw = Inr (r1, w)"
    "check_fields env r1 (set_field fs name w) todo = Inr (r', fs')"
    unfolding kv by (rule check_fields_ConsE)
  show ?case
  proof (cases "k = name")
    case True
    then have "v = raw" using Cons.prems(2,3) by (auto simp: kv image_iff)
    moreover have "map_of fs' name = Some w"
      using check_fields_other [OF *(2), of name] Cons.prems(2) by (simp add: kv)
    ultimately show ?thesis using * True by blast
  next
    case False
    then show ?thesis using Cons.IH [OF *(2)] Cons.prems(2,3) by (auto simp: kv)
  qed
qed simp

lemma check_fields_keys:
  assumes "check_fields env r fs todo = Inr (r', fs')" and "distinct (map fst todo)" and "set todo = set fs"
  shows "fst ` set fs' = fst ` set fs"
proof -
  have "map_of fs' k = None \<longleftrightarrow> map_of fs k = None" for k
  proof (cases "k \<in> fst ` set todo")
    case True
    then obtain v where "(k, v) \<in> set todo" by auto
    then show ?thesis using check_fields_each [OF assms(1,2)] assms(3) by (fastforce simp: map_of_eq_None_iff image_iff)
  next
    case False
    then show ?thesis using check_fields_other [OF assms(1)] by simp
  qed
  then show ?thesis unfolding keys_dom by (auto simp: dom_def)
qed

lemma check_field_id:
  "check_field env r k v = Inr (r', w) \<Longrightarrow> k \<notin> {''tools'', ''reasoning'', ''text''} \<Longrightarrow> w = v"
  by (auto simp: check_field_def bindR_Inr checkR_Inr Let_def split: if_splits option.splits)

lemma check_field_background:
  "check_field env r ''background'' v = Inr (r', w) \<Longrightarrow> v = JBool False"
  by (auto simp: check_field_def bindR_Inr boolValue_def split: option.splits json.splits if_splits)

text \<open>The fields only the loop, and only the input validation, may change.\<close>

lemma check_fields_model: "check_fields env r fs todo = Inr (r', fs') \<Longrightarrow> rq_model r' = rq_model r"
proof (induction todo arbitrary: r fs)
  case (Cons kv todo)
  obtain name raw where kv: "kv = (name, raw)" by force
  obtain r1 w where *: "check_field env r name raw = Inr (r1, w)" "check_fields env r1 (set_field fs name w) todo = Inr (r', fs')"
    using Cons.prems by (auto simp: kv bindR_Inr split: prod.splits)
  have "rq_model r1 = rq_model r"
    using *(1) by (auto simp: check_field_def validateReasoning_def validateText_def bindR_Inr checkR_Inr Let_def
        split: if_splits option.splits)
  then show ?case using Cons.IH [OF *(2)] by simp
qed simp

section \<open>What the input validation records\<close>

definition json_fields :: "json \<Rightarrow> fields" where
  "json_fields j = (case j of JObj m \<Rightarrow> dedup m | _ \<Rightarrow> [])"

definition is_image :: "json \<Rightarrow> bool" where
  "is_image p \<longleftrightarrow> map_of (json_fields p) ''type'' = Some (JStr ''input_image'')"

definition is_original :: "json \<Rightarrow> bool" where
  "is_original p \<longleftrightarrow> is_image p \<and> map_of (json_fields p) ''detail'' = Some (JStr ''original'')"

definition parts_of :: "raw \<Rightarrow> json list" where
  "parts_of raw = (case raw of Some (JArr ps) \<Rightarrow> ps | _ \<Rightarrow> [])"

definition fields_parts :: "fields \<Rightarrow> json list" where
  "fields_parts fs =
     (if map_of fs ''type'' = None \<or> map_of fs ''type'' = Some (JStr ''message'') then parts_of (map_of fs ''content'')
      else if map_of fs ''type'' = Some (JStr ''function_call_output'') then parts_of (map_of fs ''output'')
      else [])"

definition item_parts :: "json \<Rightarrow> json list" where
  "item_parts item = fields_parts (json_fields item)"

text \<open>The receiver after its image flags took in the parts \<open>ps\<close>.\<close>

definition note_images :: "json list \<Rightarrow> Request \<Rightarrow> Request" where
  "note_images ps r = r\<lparr>rq_image := rq_image r \<or> list_ex is_image ps, rq_originalImage := rq_originalImage r \<or> list_ex is_original ps\<rparr>"

lemma note_images_simps [simp]:
  "note_images [] r = r" "note_images qs (note_images ps r) = note_images (ps @ qs) r"
  "rq_model (note_images ps r) = rq_model r"
  "rq_image (note_images ps r) \<longleftrightarrow> rq_image r \<or> list_ex is_image ps"
  "rq_originalImage (note_images ps r) \<longleftrightarrow> rq_originalImage r \<or> list_ex is_original ps"
  by (auto simp: note_images_def)

lemma textValue_Inr: "textValue raw path e = Inr v \<longleftrightarrow> raw = Some (JStr v) \<and> (e \<or> \<not> blank v)"
  by (auto simp: textValue_def split: option.splits json.splits)

lemma enumValue_Inr: "enumValue raw path names = Inr v \<longleftrightarrow> raw = Some (JStr v) \<and> \<not> blank v \<and> v \<in> set (Fields names)"
  by (auto simp: enumValue_def textValue_def split: option.splits json.splits if_splits)

lemma array_Inr: "array raw path = Inr vs \<longleftrightarrow> raw = Some (JArr vs)"
  by (auto simp: array_def split: option.splits json.splits)

lemma object_json_fields: "object ord (Some p) path names = Inr fs \<Longrightarrow> fs = json_fields p"
  by (auto simp: object_def json_fields_def Let_def split: json.splits option.splits if_splits)

lemma validate_image_notes:
  assumes "validate_image env r path fs = Inr r'"
  shows "r' = (if map_of fs ''detail'' = Some (JStr ''original'') then r\<lparr>rq_originalImage := True\<rparr> else r)"
proof (cases "map_of fs ''detail''")
  case None
  then show ?thesis using assms by (auto simp: validate_image_def checkR_Inr bindR_Inr split: if_splits)
next
  case (Some d)
  then show ?thesis
    using assms by (auto simp: validate_image_def checkR_Inr bindR_Inr enumValue_Inr split: if_splits)
qed

lemma validate_part_notes:
  assumes "validate_part env r path out p = Inr r'"
  shows "r' = note_images [p] r"
proof -
  obtain fs kind where fs: "object (ce_order env) (Some p) path [] = Inr fs" "map_of fs ''type'' = Some (JStr kind)"
    using assms by (auto simp: validate_part_def bindR_Inr textValue_Inr)
  have jf: "fs = json_fields p" using object_json_fields [OF fs(1)] .
  have im: "is_image p \<longleftrightarrow> kind = ''input_image''" using fs(2) by (simp add: is_image_def jf)
  have rest: "\<exists>r'. validate_part env r path out p = Inr r' \<Longrightarrow> kind \<noteq> ''input_image'' \<Longrightarrow> validate_part env r path out p = Inr r"
    using fs by (auto simp: validate_part_def bindR_Inr textValue_Inr checkR_Inr split: if_splits)
  show ?thesis
  proof (cases "kind = ''input_image''")
    case False
    then show ?thesis using rest assms im by (auto simp: note_images_def is_original_def)
  next
    case True
    then have "validate_image env (r\<lparr>rq_image := True\<rparr>) path fs = Inr r'"
      using assms fs by (auto simp: validate_part_def bindR_Inr textValue_Inr)
    from validate_image_notes [OF this] show ?thesis
      using im True by (auto simp: note_images_def is_original_def jf)
  qed
qed

lemma validate_parts_notes: "validate_parts env r path out ps = Inr r' \<Longrightarrow> r' = note_images ps r"
proof (induction ps arbitrary: r)
  case (Cons p ps)
  then obtain r1 where r1: "validate_part env r path out p = Inr r1" "validate_parts env r1 path out ps = Inr r'"
    by (auto simp: bindR_Inr)
  show ?case using Cons.IH [OF r1(2)] validate_part_notes [OF r1(1)] by simp
qed simp

lemma validateContent_notes: "validateContent env r raw path out = Inr r' \<Longrightarrow> r' = note_images (parts_of raw) r"
  by (auto simp: validateContent_def bindR_Inr array_Inr textValue_Inr parts_of_def dest!: validate_parts_notes
      split: option.splits json.splits)

lemma validate_kind_notes:
  assumes "validate_kind env r path kind fs = Inr (r', fs')" and "distinct (map fst fs)"
    and "kind = (case map_of fs ''type'' of Some (JStr k) \<Rightarrow> k | _ \<Rightarrow> ''message'')"
    and "\<forall>v. map_of fs ''type'' = Some v \<longrightarrow> (\<exists>k. v = JStr k)"
  shows "r' = note_images (fields_parts fs') r" and "distinct (map fst fs')"
    and "fs' = fs \<or> fs' = set_field fs ''role'' (JStr ''developer'')"
proof -
  consider "kind = ''message''" | "kind = ''function_call''" | "kind = ''function_call_output''" | "kind = ''reasoning''"
    using assms(1) by (auto simp: validate_kind_def split: if_splits)
  then have "r' = note_images (fields_parts fs') r \<and> (fs' = fs \<or> fs' = set_field fs ''role'' (JStr ''developer''))"
  proof cases
    case 1
    have t: "map_of fs ''type'' = None \<or> map_of fs ''type'' = Some (JStr ''message'')"
      using 1 assms(3,4) by (auto split: option.splits)
    have role: "fs' = fs \<or> fs' = set_field fs ''role'' (JStr ''developer'')"
      "validateContent env r (map_of fs' ''content'') (path @ ''.content'') True = Inr r'"
      using assms(1) 1 by (auto simp: validate_kind_def checkR_Inr bindR_Inr Let_def split: if_splits)
    have "fields_parts fs' = parts_of (map_of fs' ''content'')"
      using t role(1) by (auto simp: fields_parts_def)
    then show ?thesis using validateContent_notes [OF role(2)] role(1) by auto
  next
    case 2
    have "map_of fs ''type'' = Some (JStr ''function_call'')" using 2 assms(3,4) by (auto split: option.splits)
    moreover have "r' = r" "fs' = fs" using assms(1) 2 by (auto simp: validate_kind_def checkR_Inr bindR_Inr)
    ultimately show ?thesis by (simp add: fields_parts_def)
  next
    case 3
    have t: "map_of fs ''type'' = Some (JStr ''function_call_output'')" using 3 assms(3,4) by (auto split: option.splits)
    have "fs' = fs" "validateContent env r (map_of fs ''output'') (path @ ''.output'') False = Inr r'"
      using assms(1) 3 by (auto simp: validate_kind_def checkR_Inr bindR_Inr)
    then show ?thesis using validateContent_notes t by (auto simp: fields_parts_def)
  next
    case 4
    have "map_of fs ''type'' = Some (JStr ''reasoning'')" using 4 assms(3,4) by (auto split: option.splits)
    moreover have "r' = r" "fs' = fs"
      using assms(1) 4 by (auto simp: validate_kind_def checkR_Inr bindR_Inr split: option.splits json.splits)
    ultimately show ?thesis by (simp add: fields_parts_def)
  qed
  then show "r' = note_images (fields_parts fs') r" "fs' = fs \<or> fs' = set_field fs ''role'' (JStr ''developer'')" by blast+
  then show "distinct (map fst fs')" using assms(2) by auto
qed

lemma fields_parts_cong: "map_of a = map_of b \<Longrightarrow> fields_parts a = fields_parts b"
  by (simp add: fields_parts_def)

lemma distinct_sort_fst: "distinct (map fst m) \<Longrightarrow> distinct (map fst (sort_key fst m))"
  by (metis distinct_map distinct_sort set_sort)

lemma json_fields_marshal: "distinct (map fst fs) \<Longrightarrow> map_of (json_fields (marshal_fields fs)) = map_of fs"
  by (simp add: json_fields_def marshal_fields_def dedup_id distinct_sort_fst sort_key_fst_map_of)

lemma validate_item_notes:
  assumes "map_order (ce_order env)" and "validate_item env r path item = Inr (r', item')"
  shows "r' = note_images (item_parts item') r"
proof -
  obtain fs kind fs' where fs: "object (ce_order env) (Some item) path [] = Inr fs"
    "(case map_of fs ''type'' of None \<Rightarrow> Inr ''message'' | Some value \<Rightarrow> textValue (Some value) (path @ ''.type'') False) = Inr kind"
    "validate_kind env r path kind fs = Inr (r', fs')" "item' = marshal_fields fs'"
    using assms(2) by (auto simp: validate_item_def bindR_Inr split: prod.splits)
  have k: "kind = (case map_of fs ''type'' of Some (JStr k) \<Rightarrow> k | _ \<Rightarrow> ''message'')"
    "\<forall>v. map_of fs ''type'' = Some v \<longrightarrow> (\<exists>k. v = JStr k)"
    using fs(2) by (auto simp: textValue_Inr split: option.splits)
  note n = validate_kind_notes [OF fs(3) object_Inr(2) [OF assms(1) fs(1)] k]
  then show ?thesis using fs(4) by (simp add: item_parts_def fields_parts_cong [OF json_fields_marshal [OF n(2)]])
qed

lemma validate_items_notes:
  assumes "map_order (ce_order env)"
  shows "validate_items env r i items = Inr (r', items') \<Longrightarrow> r' = note_images (concat (map item_parts items')) r"
proof (induction items arbitrary: r i items')
  case (Cons item items)
  then obtain r1 item1 items1 where *: "validate_item env r (''input['' @ FormatInt (int i) @ '']'') item = Inr (r1, item1)"
    "validate_items env r1 (Suc i) items = Inr (r', items1)" "items' = item1 # items1"
    by (auto simp: bindR_Inr split: prod.splits)
  show ?case using Cons.IH [OF *(2)] validate_item_notes [OF assms *(1)] *(3) by simp
qed simp

lemma validateInput_notes:
  assumes "map_order (ce_order env)" and "validateInput env r raw = Inr (r', input)"
  shows "\<exists>items. input = JArr items \<and> r' = note_images (concat (map item_parts items)) r"
proof -
  have t: "item_parts (marshal_fields [(''type'', JStr ''message''), (''role'', JStr ''user''),
       (''content'', JArr [marshal_fields [(''type'', JStr ''input_text''), (''text'', JStr s)]])]) =
     [marshal_fields [(''type'', JStr ''input_text''), (''text'', JStr s)]]" for s
    unfolding item_parts_def by (subst fields_parts_cong [OF json_fields_marshal]) (simp_all add: fields_parts_def parts_of_def)
  have u: "\<not> is_image (marshal_fields [(''type'', JStr ''input_text''), (''text'', JStr s)])" for s
    unfolding is_image_def by (subst json_fields_marshal) simp_all
  show ?thesis
  proof (cases "\<exists>s. raw = Some (JStr s)")
    case True
    then show ?thesis
      using assms(2) by (auto simp: validateInput_def bindR_Inr textValue_Inr text_input_def t u note_images_def is_original_def)
  next
    case False
    then obtain items items' where "raw = Some (JArr items)" "validate_items env r 0 items = Inr (r', items')" "input = JArr items'"
      using assms(2) by (auto simp: validateInput_def bindR_Inr array_Inr split: option.splits json.splits prod.splits)
    then show ?thesis using validate_items_notes [OF assms(1)] by blast
  qed
qed

end
