(* ===== verification/RequestOrder.thy ===== *)
theory RequestOrder
  imports RequestParsing
begin

text \<open>
  Go visits a map in a random order. Two parses of one request under different orders accept the
  same requests and build the same result; only the field named in a rejection may differ.
\<close>

section \<open>Agreement up to the reported field\<close>

definition same_ok :: "'a result \<Rightarrow> 'a result \<Rightarrow> bool" where
  "same_ok a b \<longleftrightarrow> (\<forall>y. a = Inr y \<longleftrightarrow> b = Inr y)"

named_theorems same_ok_intros

lemma same_ok_refl [same_ok_intros]: "same_ok a a"
  by (simp add: same_ok_def)

lemma same_ok_sym: "same_ok a b \<Longrightarrow> same_ok b a"
  by (simp add: same_ok_def)

lemma same_ok_bind [same_ok_intros]:
  "same_ok m m' \<Longrightarrow> (\<And>x. m = Inr x \<Longrightarrow> same_ok (f x) (f' x)) \<Longrightarrow> same_ok (bindR m f) (bindR m' f')"
  by (auto simp: same_ok_def bindR_Inr)

lemma same_ok_check [same_ok_intros]:
  "(e = None \<longleftrightarrow> e' = None) \<Longrightarrow> same_ok k k' \<Longrightarrow> same_ok (checkR e k) (checkR e' k')"
  by (auto simp: same_ok_def checkR_Inr)

lemma same_ok_if [same_ok_intros]:
  "(b \<Longrightarrow> same_ok x x') \<Longrightarrow> (\<not> b \<Longrightarrow> same_ok y y') \<Longrightarrow> same_ok (if b then x else y) (if b then x' else y')"
  by simp

lemma same_ok_Inl [same_ok_intros]: "same_ok (Inl e) (Inl e')"
  by (simp add: same_ok_def)

lemma same_ok_present [same_ok_intros]:
  "(\<And>v. same_ok (f v) (f' v)) \<Longrightarrow> same_ok (if_present raw f) (if_present raw f')"
  by (auto simp: if_present_def same_ok_def bindR_Inr split: option.splits)

lemma same_ok_unless [same_ok_intros]:
  "(\<And>v. same_ok (f v) (f' v)) \<Longrightarrow> same_ok (unless_null raw f) (unless_null raw f')"
  unfolding unless_null_def by (intro same_ok_intros)

lemma same_ok_option [same_ok_intros]:
  "same_ok a a' \<Longrightarrow> (\<And>v. same_ok (f v) (f' v)) \<Longrightarrow>
   same_ok (case raw of None \<Rightarrow> a | Some v \<Rightarrow> f v) (case raw of None \<Rightarrow> a' | Some v \<Rightarrow> f' v)"
  by (cases raw) simp_all

lemma same_ok_prod [same_ok_intros]:
  "(\<And>x y. same_ok (f x y) (f' x y)) \<Longrightarrow> same_ok (case p of (x, y) \<Rightarrow> f x y) (case p of (x, y) \<Rightarrow> f' x y)"
  by (cases p) simp

lemma same_ok_str:
  "(\<And>s. raw = Some (JStr s) \<Longrightarrow> same_ok (f s) (f' s)) \<Longrightarrow> ((\<nexists>s. raw = Some (JStr s)) \<Longrightarrow> same_ok g g') \<Longrightarrow>
   same_ok (case raw of Some (JStr s) \<Rightarrow> f s | _ \<Rightarrow> g) (case raw of Some (JStr s) \<Rightarrow> f' s | _ \<Rightarrow> g')"
  by (auto split: option.splits json.splits)

section \<open>Validators\<close>

text \<open>Two environments that differ in the map order only.\<close>

definition reorders :: "CodexEnv \<Rightarrow> CodexEnv \<Rightarrow> bool" where
  "reorders e e' \<longleftrightarrow> map_order (ce_order e) \<and> map_order (ce_order e') \<and> ce_url_Parse e = ce_url_Parse e'"

lemma allowed_same: "reorders e e' \<Longrightarrow> allowed (ce_order e) fs path names = None \<longleftrightarrow> allowed (ce_order e') fs path names = None"
  by (simp add: reorders_def allowed_None)

lemma object_same: "reorders e e' \<Longrightarrow> same_ok (object (ce_order e) raw path names) (object (ce_order e') raw path names)"
proof -
  assume r: "reorders e e'"
  have obj: "object (ce_order f) (Some (JObj m)) path names =
      (if names \<noteq> [] then checkR (allowed (ce_order f) (dedup m) path names) (Inr (dedup m)) else Inr (dedup m))" for f m
    by (simp add: object_def Let_def checkR_def)
  show ?thesis
  proof (cases "\<exists>m. raw = Some (JObj m)")
    case True
    then show ?thesis by (auto simp: obj intro!: same_ok_intros allowed_same [OF r])
  next
    case False
    then show ?thesis by (auto simp: object_def same_ok_def split: option.splits json.splits)
  qed
qed

lemma imageURL_same: "reorders e e' \<Longrightarrow> imageURL e v = imageURL e' v"
  by (simp add: imageURL_def reorders_def)

lemma text_parts_same: "reorders e e' \<Longrightarrow> text_parts e path kind ps = None \<longleftrightarrow> text_parts e' path kind ps = None"
proof (induction ps)
  case (Cons p ps)
  have ok: "object (ce_order e) (Some p) path ''type text'' = Inr y \<longleftrightarrow> object (ce_order e') (Some p) path ''type text'' = Inr y" for y
    using object_same [OF Cons.prems] by (simp add: same_ok_def)
  have "text_parts f path kind (p # ps) = None \<longleftrightarrow>
      (\<exists>fs. object (ce_order f) (Some p) path ''type text'' = Inr fs \<and>
        (\<exists>a. enumValue (map_of fs ''type'') (path @ ''.type'') kind = Inr a) \<and>
        (\<exists>b. textValue (map_of fs ''text'') (path @ ''.text'') True = Inr b) \<and> text_parts f path kind ps = None)" for f
    by (auto split: sum.splits)
  then show ?case using Cons ok by simp
qed simp

lemma validateTextParts_same:
  "reorders e e' \<Longrightarrow> validateTextParts e raw path kind = None \<longleftrightarrow> validateTextParts e' raw path kind = None"
  by (auto simp: validateTextParts_def dest: text_parts_same split: sum.splits)

lemma validate_image_same: "reorders e e' \<Longrightarrow> same_ok (validate_image e r path fs) (validate_image e' r path fs)"
  unfolding validate_image_def
  by (simp only: imageURL_same) (intro same_ok_intros allowed_same; assumption)

lemma validate_part_same: "reorders e e' \<Longrightarrow> same_ok (validate_part e r path out p) (validate_part e' r path out p)"
  unfolding validate_part_def by (intro same_ok_intros allowed_same object_same validate_image_same; assumption)

lemma validate_parts_same: "reorders e e' \<Longrightarrow> same_ok (validate_parts e r path out ps) (validate_parts e' r path out ps)"
  by (induction ps arbitrary: r) (auto intro!: same_ok_intros validate_part_same)

lemma validateContent_same: "reorders e e' \<Longrightarrow> same_ok (validateContent e r raw path out) (validateContent e' r raw path out)"
  unfolding validateContent_def by (intro same_ok_str same_ok_intros validate_parts_same; assumption)

lemma validate_kind_same: "reorders e e' \<Longrightarrow> same_ok (validate_kind e r path kind fs) (validate_kind e' r path kind fs)"
  unfolding validate_kind_def Let_def
  by (intro same_ok_intros allowed_same validateContent_same validateTextParts_same; assumption)

lemma validate_item_same: "reorders e e' \<Longrightarrow> same_ok (validate_item e r path item) (validate_item e' r path item)"
  unfolding validate_item_def by (intro same_ok_intros object_same validate_kind_same; assumption)

lemma validate_items_same: "reorders e e' \<Longrightarrow> same_ok (validate_items e r i items) (validate_items e' r i items)"
  by (induction items arbitrary: r i) (auto intro!: same_ok_intros validate_item_same)

lemma validateInput_same: "reorders e e' \<Longrightarrow> same_ok (validateInput e r raw) (validateInput e' r raw)"
  unfolding validateInput_def by (intro same_ok_str same_ok_intros validate_items_same; assumption)

lemma validate_tool_same: "reorders e e' \<Longrightarrow> same_ok (validate_tool e t) (validate_tool e' t)"
  unfolding validate_tool_def Let_def by (intro same_ok_intros object_same; assumption)

lemma validate_tool_list_same: "reorders e e' \<Longrightarrow> same_ok (validate_tool_list e ts) (validate_tool_list e' ts)"
  by (induction ts) (auto intro!: same_ok_intros validate_tool_same)

lemma validateTools_same: "reorders e e' \<Longrightarrow> same_ok (validateTools e raw) (validateTools e' raw)"
  unfolding validateTools_def by (intro same_ok_intros validate_tool_list_same; assumption)

lemma validateReasoning_same: "reorders e e' \<Longrightarrow> same_ok (validateReasoning e r raw) (validateReasoning e' r raw)"
  unfolding validateReasoning_def Let_def by (intro same_ok_intros object_same; assumption)

lemma validateFormat_same: "reorders e e' \<Longrightarrow> same_ok (validateFormat e raw) (validateFormat e' raw)"
  unfolding validateFormat_def Let_def by (intro same_ok_intros object_same allowed_same; assumption)

lemma validateText_same: "reorders e e' \<Longrightarrow> same_ok (validateText e r raw) (validateText e' r raw)"
  unfolding validateText_def Let_def by (intro same_ok_intros object_same validateFormat_same; assumption)

lemma validateToolChoice_same: "reorders e e' \<Longrightarrow> validateToolChoice e raw = None \<longleftrightarrow> validateToolChoice e' raw = None"
proof -
  assume "reorders e e'"
  from object_same [OF this, of raw "''tool_choice''" "''type name''"]
  have ok: "object (ce_order e) raw ''tool_choice'' ''type name'' = Inr y \<longleftrightarrow> object (ce_order e') raw ''tool_choice'' ''type name'' = Inr y" for y
    by (simp add: same_ok_def)
  have "(\<nexists>s. raw = Some (JStr s)) \<Longrightarrow> validateToolChoice f raw = None \<longleftrightarrow>
      (\<exists>fs. object (ce_order f) raw ''tool_choice'' ''type name'' = Inr fs \<and>
        (\<exists>a. enumValue (map_of fs ''type'') ''tool_choice.type'' ''function'' = Inr a) \<and>
        (\<exists>b. textValue (map_of fs ''name'') ''tool_choice.name'' False = Inr b))" for f
    by (auto simp: validateToolChoice_def split: sum.splits option.splits json.splits)
  moreover have "raw = Some (JStr s) \<Longrightarrow> validateToolChoice e raw = validateToolChoice e' raw" for s
    by (simp add: validateToolChoice_def)
  ultimately show ?thesis using ok by (cases "\<exists>s. raw = Some (JStr s)") auto
qed

lemma check_field_same: "reorders e e' \<Longrightarrow> same_ok (check_field e r k v) (check_field e' r k v)"
proof -
  assume r: "reorders e e'"
  consider "k = ''tools''" | "k = ''tool_choice''" | "k = ''reasoning''" | "k = ''text''"
    | "k \<noteq> ''tools''" "k \<noteq> ''tool_choice''" "k \<noteq> ''reasoning''" "k \<noteq> ''text''" by argo
  then show ?thesis
  proof cases
    case 1
    then show ?thesis by (simp add: check_field_def same_ok_bind [OF validateTools_same [OF r] same_ok_refl])
  next
    case 2
    then show ?thesis by (simp add: check_field_def same_ok_check [OF validateToolChoice_same [OF r] same_ok_refl])
  next
    case 3
    then show ?thesis by (simp add: check_field_def validateReasoning_same [OF r])
  next
    case 4
    then show ?thesis by (simp add: check_field_def validateText_same [OF r])
  next
    case 5
    then have "check_field e r k v = check_field e' r k v" by (simp add: check_field_def)
    then show ?thesis by (simp add: same_ok_refl)
  qed
qed

section \<open>The loop\<close>

text \<open>What the check of field \<open>k\<close> takes over from its result \<open>z\<close> into the receiver.\<close>

definition take_over :: "string \<Rightarrow> Request \<Rightarrow> Request \<Rightarrow> Request" where
  "take_over k z r =
     r\<lparr>rq_stream := (if k = ''stream'' then rq_stream z else rq_stream r),
       rq_omittedCap := (k = ''max_output_tokens'' \<or> rq_omittedCap r),
       rq_effort := (if k = ''reasoning'' \<and> rq_effort z \<noteq> [] then rq_effort z else rq_effort r),
       rq_summary := (k = ''reasoning'' \<and> rq_summary z \<or> rq_summary r),
       rq_verbosity := (k = ''text'' \<and> rq_verbosity z \<or> rq_verbosity r)\<rparr>"

lemma take_over_commute: "k \<noteq> k' \<Longrightarrow> take_over k z (take_over k' z' r) = take_over k' z' (take_over k z r)"
  by (rule Request.equality) (auto simp: take_over_def)

lemma zero_Request_simps [simp]:
  "rq_stream zero_Request = False" "rq_omittedCap zero_Request = False" "rq_effort zero_Request = []"
  "rq_summary zero_Request = False" "rq_verbosity zero_Request = False"
  by (simp_all add: zero_Request_def)

lemma take_over_other:
  "k \<noteq> ''stream'' \<Longrightarrow> k \<noteq> ''max_output_tokens'' \<Longrightarrow> k \<noteq> ''reasoning'' \<Longrightarrow> k \<noteq> ''text'' \<Longrightarrow> take_over k z r = r"
  by (simp add: take_over_def)

lemma validateReasoning_effect:
  "validateReasoning env r raw = Inr (r', w) \<longleftrightarrow>
   (\<exists>z. validateReasoning env zero_Request raw = Inr (z, w) \<and> r' = take_over ''reasoning'' z r)"
proof (cases "object (ce_order env) raw ''reasoning'' ''effort summary''")
  case (Inr fs)
  show ?thesis
    by (cases "map_of (omitNull fs ''effort summary'') ''effort''";
        cases "map_of (omitNull fs ''effort summary'') ''summary''")
       (auto simp: validateReasoning_def Inr Let_def bindR_Inr textValue_Inr take_over_def)
qed (simp add: validateReasoning_def)

lemma validateText_effect:
  "validateText env r raw = Inr (r', w) \<longleftrightarrow>
   (\<exists>z. validateText env zero_Request raw = Inr (z, w) \<and> r' = take_over ''text'' z r)"
proof (cases "object (ce_order env) raw ''text'' ''verbosity format''")
  case (Inr fs)
  show ?thesis
    by (cases "map_of (omitNull fs ''verbosity'') ''verbosity''")
       (auto simp: validateText_def Inr Let_def bindR_Inr take_over_def)
qed (simp add: validateText_def)

lemma bindR_if: "bindR (if b then x else y) f = (if b then bindR x f else bindR y f)"
  by simp

lemma bindR_assoc: "bindR (bindR m f) g = bindR m (\<lambda>x. bindR (f x) g)"
  by (cases m) simp_all

lemma bindR_check: "bindR (checkR e k) f = checkR e (bindR k f)"
  by (cases e) simp_all

lemma check_field_effect:
  "check_field env r k v = Inr (r', w) \<longleftrightarrow>
   (\<exists>z. check_field env zero_Request k v = Inr (z, w) \<and> r' = take_over k z r)"
proof -
  consider "k = ''reasoning''" | "k = ''text''" | "k = ''stream''" | "k = ''max_output_tokens''"
    | "k \<noteq> ''reasoning''" "k \<noteq> ''text''" "k \<noteq> ''stream''" "k \<noteq> ''max_output_tokens''" by argo
  then show ?thesis
  proof cases
    case 1
    have "check_field env q k v = validateReasoning env q (Some v)" for q by (simp add: 1 check_field_def)
    then show ?thesis by (simp only: 1 validateReasoning_effect [of env r])
  next
    case 2
    have "check_field env q k v = validateText env q (Some v)" for q by (simp add: 2 check_field_def)
    then show ?thesis by (simp only: 2 validateText_effect [of env r])
  next
    case 3
    then show ?thesis by (auto simp: check_field_def take_over_def bindR_Inr Let_def)
  next
    case 4
    then show ?thesis by (auto simp: check_field_def take_over_def split: option.splits)
  next
    case 5
    have "check_field env r k v = bindR (check_field env zero_Request k v) (\<lambda>(_, w). Inr (r, w))"
      using 5 by (simp add: check_field_def bindR_if bindR_assoc bindR_check Let_def cong: if_cong)
    then show ?thesis using take_over_other [OF 5(3,4,1,2)] by (auto simp: bindR_Inr)
  qed
qed

definition outcome :: "CodexEnv \<Rightarrow> string \<times> json \<Rightarrow> Request \<times> json" where
  "outcome env kv = (case check_field env zero_Request (fst kv) (snd kv) of Inr p \<Rightarrow> p | Inl _ \<Rightarrow> undefined)"

lemma check_fields_fold:
  "check_fields env r fs todo = Inr (r', fs') \<longleftrightarrow>
     (\<forall>(k, v) \<in> set todo. \<exists>p. check_field env zero_Request k v = Inr p) \<and>
     r' = fold (\<lambda>kv. take_over (fst kv) (fst (outcome env kv))) todo r \<and>
     fs' = fold (\<lambda>kv fs. set_field fs (fst kv) (snd (outcome env kv))) todo fs"
proof (induction todo arbitrary: r fs)
  case (Cons kv todo)
  obtain k v where kv: "kv = (k, v)" by force
  have "check_fields env r fs (kv # todo) = Inr (r', fs') \<longleftrightarrow>
      (\<exists>r1 w. check_field env r k v = Inr (r1, w) \<and> check_fields env r1 (set_field fs k w) todo = Inr (r', fs'))"
    by (auto simp: kv bindR_Inr split: prod.splits)
  also have "\<dots> \<longleftrightarrow> (\<exists>z w. check_field env zero_Request k v = Inr (z, w) \<and>
      check_fields env (take_over k z r) (set_field fs k w) todo = Inr (r', fs'))"
    unfolding check_field_effect [of env r] by blast
  also have "\<dots> \<longleftrightarrow> (\<exists>p. check_field env zero_Request k v = Inr p) \<and>
      check_fields env (take_over k (fst (outcome env kv)) r) (set_field fs k (snd (outcome env kv))) todo = Inr (r', fs')"
    by (auto simp: kv outcome_def)
  finally show ?case using Cons.IH by (auto simp: kv)
qed auto

lemma fold_perm:
  assumes "mset xs = mset ys" and "distinct (map fst xs)"
    and "\<And>x y. fst x \<noteq> fst y \<Longrightarrow> f x \<circ> f y = f y \<circ> f x"
  shows "fold f xs = fold f ys"
proof (rule fold_multiset_equiv)
  fix x y assume "x \<in> set xs" "y \<in> set xs"
  then have "x = y \<or> fst x \<noteq> fst y" using assms(2) by (auto simp: distinct_map inj_on_def)
  then show "f x \<circ> f y = f y \<circ> f x" using assms(3) by blast
qed (rule assms(1))

lemma map_of_fold_set:
  "map_of (fold (\<lambda>kv fs. set_field fs (fst kv) (g kv)) todo fs) = fold (\<lambda>kv m. m(fst kv \<mapsto> g kv)) todo (map_of fs)"
  by (induction todo arbitrary: fs) auto

lemma distinct_fold_set:
  "distinct (map fst fs) \<Longrightarrow> distinct (map fst (fold (\<lambda>kv fs. set_field fs (fst kv) (g kv)) todo fs))"
  by (induction todo arbitrary: fs) auto

lemma sort_key_map_of_eq:
  assumes "distinct (map fst a)" and "distinct (map fst b)" and "map_of a = map_of b"
  shows "sort_key fst a = sort_key fst (b :: fields)"
proof -
  have "set a = set b" using assms by (metis map_of_inject_set)
  moreover have "distinct a" "distinct b" using assms by (simp_all add: distinct_map)
  ultimately have m: "mset a = mset b" by (simp add: set_eq_iff_mset_eq_distinct)
  show ?thesis
    using m assms(1) by (intro sort_key_inj_key_eq) (auto simp: distinct_map)
qed

lemma check_fields_order:
  assumes "check_fields env r fs todo = Inr (r1, fs1)" and "check_fields env r fs todo' = Inr (r2, fs2)"
    and "mset todo = mset todo'" and "distinct (map fst todo)"
  shows "r1 = r2" and "map_of fs1 = map_of fs2"
proof -
  have "fold (\<lambda>kv. take_over (fst kv) (fst (outcome env kv))) todo = fold (\<lambda>kv. take_over (fst kv) (fst (outcome env kv))) todo'"
    by (rule fold_perm [OF assms(3,4)]) (auto simp: take_over_commute)
  then show "r1 = r2" using assms(1,2) by (simp add: check_fields_fold)
  have "fold (\<lambda>kv (m :: string \<Rightarrow> raw). m(fst kv \<mapsto> snd (outcome env kv))) todo =
      fold (\<lambda>kv m. m(fst kv \<mapsto> snd (outcome env kv))) todo'"
    by (rule fold_perm [OF assms(3,4)]) (auto simp: fun_eq_iff)
  then show "map_of fs1 = map_of fs2" using assms(1,2) by (simp add: check_fields_fold map_of_fold_set)
qed

lemma check_fields_same:
  assumes "reorders e e'"
  shows "same_ok (check_fields e r fs todo) (check_fields e' r fs todo)"
  by (induction todo arbitrary: r fs) (auto intro!: same_ok_intros check_field_same [OF assms])

lemma check_fields_reorder:
  assumes "reorders e e'" and "check_fields e r fs todo = Inr (r1, fs1)"
    and "mset todo = mset todo'" and "distinct (map fst todo)"
  shows "\<exists>fs2. check_fields e' r fs todo' = Inr (r1, fs2) \<and> map_of fs2 = map_of fs1"
proof -
  have "check_fields e' r fs todo = Inr (r1, fs1)" using check_fields_same [OF assms(1)] assms(2) by (simp add: same_ok_def)
  moreover from this have "\<exists>r2 fs2. check_fields e' r fs todo' = Inr (r2, fs2)"
    using mset_eq_setD [OF assms(3)] by (auto simp: check_fields_fold)
  ultimately show ?thesis using check_fields_order [OF _ _ assms(3,4)] by metis
qed

lemma ParseRequest_Inr:
  "ParseRequest env n data = Inr r \<longleftrightarrow> int n \<le> maxPayload \<and>
   (\<exists>fs0 model r1 fs2 r2 input.
      object (ce_order env) data ''request'' request_names = Inr fs0 \<and>
      textValue (map_of (omitNull fs0 nullable_names) ''model'') ''model'' False = Inr model \<and>
      check_fields env (zero_Request\<lparr>rq_model := model\<rparr>) (omitNull fs0 nullable_names)
        (ce_order env (omitNull fs0 nullable_names)) = Inr (r1, fs2) \<and>
      validateInput env r1 (map_of fs2 ''input'') = Inr (r2, input) \<and>
      r = r2\<lparr>rq_body := Some (marshal_fields (del_field (set_field (set_field (set_field fs2 ''input'' input)
            ''stream'' (JBool True)) ''store'' (JBool False)) ''max_output_tokens''))\<rparr>)"
  by (auto simp: ParseRequest_def Let_def bindR_Inr not_less split: prod.splits)

lemma ParseRequest_reorder:
  assumes "reorders e e'" and "ParseRequest e n data = Inr r"
  shows "ParseRequest e' n data = Inr r"
proof -
  obtain fs0 model r1 fs2 r2 input where p: "int n \<le> maxPayload"
      "object (ce_order e) data ''request'' request_names = Inr fs0"
      "textValue (map_of (omitNull fs0 nullable_names) ''model'') ''model'' False = Inr model"
      "check_fields e (zero_Request\<lparr>rq_model := model\<rparr>) (omitNull fs0 nullable_names)
        (ce_order e (omitNull fs0 nullable_names)) = Inr (r1, fs2)"
      "validateInput e r1 (map_of fs2 ''input'') = Inr (r2, input)"
      "r = r2\<lparr>rq_body := Some (marshal_fields (del_field (set_field (set_field (set_field fs2 ''input'' input)
            ''stream'' (JBool True)) ''store'' (JBool False)) ''max_output_tokens''))\<rparr>"
    using assms(2) unfolding ParseRequest_Inr by blast
  let ?fs = "omitNull fs0 nullable_names"
  have o: "map_order (ce_order e)" "map_order (ce_order e')" using assms(1) by (simp_all add: reorders_def)
  have d0: "distinct (map fst ?fs)" using object_Inr(2) [OF o(1) p(2)] by (rule omitNull_distinct)
  have m: "mset (ce_order e ?fs) = mset (ce_order e' ?fs)" using o by (simp add: map_order_def)
  have "mset (map fst (ce_order e ?fs)) = mset (map fst ?fs)" using o(1) by (simp add: map_order_def)
  then have d: "distinct (map fst (ce_order e ?fs))" using d0 by (metis mset_eq_imp_distinct_iff)
  obtain fs3 where fs3: "check_fields e' (zero_Request\<lparr>rq_model := model\<rparr>) ?fs (ce_order e' ?fs) = Inr (r1, fs3)"
    "map_of fs3 = map_of fs2"
    using check_fields_reorder [OF assms(1) p(4) m d] by blast
  have "validateInput e' r1 (map_of fs3 ''input'') = Inr (r2, input)"
    using validateInput_same [OF assms(1)] p(5) fs3(2) by (simp add: same_ok_def)
  moreover have "object (ce_order e') data ''request'' request_names = Inr fs0"
    using object_same [OF assms(1)] p(2) by (simp add: same_ok_def)
  moreover have "marshal_fields (del_field (set_field (set_field (set_field fs3 ''input'' input)
            ''stream'' (JBool True)) ''store'' (JBool False)) ''max_output_tokens'') =
      marshal_fields (del_field (set_field (set_field (set_field fs2 ''input'' input)
            ''stream'' (JBool True)) ''store'' (JBool False)) ''max_output_tokens'')"
    unfolding marshal_fields_def json.inject
    using check_fields_distinct [OF p(4) d0] check_fields_distinct [OF fs3(1) d0] fs3(2)
    by (intro sort_key_map_of_eq) simp_all
  ultimately show ?thesis
    unfolding ParseRequest_Inr using p(1,3,6) fs3(1)
    by (intro conjI exI [of _ fs0] exI [of _ model] exI [of _ r1] exI [of _ fs3] exI [of _ r2] exI [of _ input]) simp_all
qed

text \<open>
  C29. Parsing does not depend on Go's map iteration order: under any two orders the same requests
  are accepted, with the same recorded controls and the same upstream body.
\<close>

theorem ParseRequest_order_independent:
  assumes "map_order ord" and "map_order ord'"
  shows "ParseRequest \<lparr>ce_order = ord, ce_url_Parse = u\<rparr> n data = Inr r \<longleftrightarrow>
         ParseRequest \<lparr>ce_order = ord', ce_url_Parse = u\<rparr> n data = Inr r"
proof -
  have "reorders \<lparr>ce_order = ord, ce_url_Parse = u\<rparr> \<lparr>ce_order = ord', ce_url_Parse = u\<rparr>"
    "reorders \<lparr>ce_order = ord', ce_url_Parse = u\<rparr> \<lparr>ce_order = ord, ce_url_Parse = u\<rparr>"
    using assms by (simp_all add: reorders_def)
  then show ?thesis by (blast intro: ParseRequest_reorder)
qed

definition toy_env_codex :: CodexEnv where
  "toy_env_codex = \<lparr>ce_order = id, ce_url_Parse = (\<lambda>_. None)\<rparr>"

definition toy_body :: json where
  "toy_body = JObj [(''stream'', JBool True), (''model'', JStr ''m''), (''input'', JStr ''hi''),
     (''reasoning'', JObj [(''effort'', JStr ''low''), (''summary'', JNull)]), (''max_output_tokens'', JNum ''5'')]"

theorem ParseRequest_order_independent_witness:
  "\<exists>r. ParseRequest \<lparr>ce_order = id, ce_url_Parse = (\<lambda>_. None)\<rparr> 100 (Some toy_body) = Inr r \<and>
       ParseRequest \<lparr>ce_order = rev, ce_url_Parse = (\<lambda>_. None)\<rparr> 100 (Some toy_body) = Inr r"
proof -
  have o: "map_order id" "map_order rev" by (simp_all add: map_order_def)
  have "case ParseRequest \<lparr>ce_order = id, ce_url_Parse = (\<lambda>_. None)\<rparr> 100 (Some toy_body) of Inr _ \<Rightarrow> True | Inl _ \<Rightarrow> False"
    by code_simp
  then obtain r where "ParseRequest \<lparr>ce_order = id, ce_url_Parse = (\<lambda>_. None)\<rparr> 100 (Some toy_body) = Inr r"
    by (auto split: sum.splits)
  then show ?thesis using ParseRequest_order_independent [OF o] by blast
qed

end
