(* ===== verification/RequestBody.thy ===== *)
theory RequestBody
  imports RequestOrder
begin

text \<open>The shape of the upstream body, and what a request accepted for a model may use.\<close>

section \<open>The body\<close>

text \<open>The fields of the body before they are sorted.\<close>

definition sent_fields :: "fields \<Rightarrow> json \<Rightarrow> fields" where
  "sent_fields fs input =
     del_field (set_field (set_field (set_field fs ''input'' input) ''stream'' (JBool True)) ''store'' (JBool False))
       ''max_output_tokens''"

lemma sent_fields_map:
  "map_of (sent_fields fs input) k =
     (if k = ''max_output_tokens'' then None else if k = ''store'' then Some (JBool False)
      else if k = ''stream'' then Some (JBool True) else if k = ''input'' then Some input else map_of fs k)"
  by (simp add: sent_fields_def)

lemma ParseRequest_steps:
  assumes "map_order (ce_order env)" and "ParseRequest env n data = Inr r"
  obtains fs model r1 fs2 r2 input where
    "distinct (map fst fs)" "fst ` set fs \<subseteq> set (Fields request_names)" "map_of fs ''model'' = Some (JStr model)" "\<not> blank model"
    "check_fields env (zero_Request\<lparr>rq_model := model\<rparr>) fs (ce_order env fs) = Inr (r1, fs2)"
    "validateInput env r1 (map_of fs2 ''input'') = Inr (r2, input)"
    "r = r2\<lparr>rq_body := Some (marshal_fields (sent_fields fs2 input))\<rparr>"
    "distinct (map fst (sent_fields fs2 input))" "distinct (map fst (ce_order env fs))" "set (ce_order env fs) = set fs"
proof -
  obtain fs0 model r1 fs2 r2 input where p:
      "object (ce_order env) data ''request'' request_names = Inr fs0"
      "textValue (map_of (omitNull fs0 nullable_names) ''model'') ''model'' False = Inr model"
      "check_fields env (zero_Request\<lparr>rq_model := model\<rparr>) (omitNull fs0 nullable_names)
        (ce_order env (omitNull fs0 nullable_names)) = Inr (r1, fs2)"
      "validateInput env r1 (map_of fs2 ''input'') = Inr (r2, input)"
      "r = r2\<lparr>rq_body := Some (marshal_fields (sent_fields fs2 input))\<rparr>"
    using assms(2) unfolding ParseRequest_Inr sent_fields_def by blast
  let ?fs = "omitNull fs0 nullable_names"
  have d: "distinct (map fst ?fs)" using object_Inr(2) [OF assms(1) p(1)] by (rule omitNull_distinct)
  have "request_names \<noteq> []" by (simp add: request_names_def)
  then have k: "fst ` set ?fs \<subseteq> set (Fields request_names)"
    using omitNull_keys object_Inr(3) [OF assms(1) p(1)] by blast
  have "mset (map fst (ce_order env ?fs)) = mset (map fst ?fs)" using assms(1) by (simp add: map_order_def)
  then have do: "distinct (map fst (ce_order env ?fs))" using d by (metis mset_eq_imp_distinct_iff)
  have ds: "distinct (map fst (sent_fields fs2 input))"
    using check_fields_distinct [OF p(3) d] by (simp add: sent_fields_def)
  show thesis
    using that [OF d k _ _ p(3,4,5) ds do set_ord [OF assms(1)]] p(2) by (auto simp: textValue_Inr)
qed

lemma marshal_fields_obj: "marshal_fields fs = JObj (sort_key fst fs)"
  by (simp add: marshal_fields_def)

lemma loop_field:
  assumes "check_fields env r fs (ce_order env fs) = Inr (r', fs')" and "distinct (map fst (ce_order env fs))"
    and "set (ce_order env fs) = set fs" and "k \<noteq> ''tools''" "k \<noteq> ''reasoning''" "k \<noteq> ''text''"
  shows "map_of fs' k = map_of fs k"
proof (cases "map_of fs k")
  case None
  then have "k \<notin> fst ` set (ce_order env fs)" using assms(3) by (simp add: map_of_eq_None_iff)
  then show ?thesis using check_fields_other [OF assms(1)] by simp
next
  case (Some v)
  then have "(k, v) \<in> set (ce_order env fs)" using assms(3) by (simp add: map_of_SomeD)
  then show ?thesis
    using check_fields_each [OF assms(1,2)] check_field_id assms(4-6) Some by fastforce
qed

text \<open>
  C27. Whatever an accepted request contained, the body sent upstream streams, is not stored and
  is not a background job, carries no output cap, names exactly the nonblank model the request
  asked for, has an array as its input and no field outside the supported set, and its keys are
  sorted without repetition, so equal requests have equal bodies.
\<close>

theorem ParseRequest_body:
  assumes "map_order (ce_order env)" and "ParseRequest env n data = Inr r"
  shows "\<exists>fs. rq_body r = Some (JObj fs) \<and> sorted (map fst fs) \<and> distinct (map fst fs) \<and>
    map_of fs ''stream'' = Some (JBool True) \<and> map_of fs ''store'' = Some (JBool False) \<and>
    map_of fs ''background'' \<in> {None, Some (JBool False)} \<and> map_of fs ''max_output_tokens'' = None \<and>
    map_of fs ''model'' = Some (JStr (rq_model r)) \<and> \<not> blank (rq_model r) \<and>
    (\<exists>items. map_of fs ''input'' = Some (JArr items)) \<and> fst ` set fs \<subseteq> set (Fields request_names)"
proof -
  from assms obtain fs model r1 fs2 r2 input where s:
    "distinct (map fst fs)" "fst ` set fs \<subseteq> set (Fields request_names)" "map_of fs ''model'' = Some (JStr model)" "\<not> blank model"
    "check_fields env (zero_Request\<lparr>rq_model := model\<rparr>) fs (ce_order env fs) = Inr (r1, fs2)"
    "validateInput env r1 (map_of fs2 ''input'') = Inr (r2, input)"
    "r = r2\<lparr>rq_body := Some (marshal_fields (sent_fields fs2 input))\<rparr>"
    "distinct (map fst (sent_fields fs2 input))" "distinct (map fst (ce_order env fs))" "set (ce_order env fs) = set fs"
    by (rule ParseRequest_steps)
  let ?body = "sort_key fst (sent_fields fs2 input)"
  have bm: "map_of ?body = map_of (sent_fields fs2 input)" using s(8) by (rule sort_key_fst_map_of)
  obtain items where items: "input = JArr items" "r2 = note_images (concat (map item_parts items)) r1"
    using validateInput_notes [OF assms(1) s(6)] by blast
  have model: "rq_model r = model" using check_fields_model [OF s(5)] by (simp add: s(7) items(2))
  have fm: "map_of fs2 ''model'' = Some (JStr model)" using loop_field [OF s(5,9,10), of "''model''"] s(3) by simp
  have bg: "map_of fs2 ''background'' \<in> {None, Some (JBool False)}"
  proof (cases "map_of fs ''background''")
    case None
    then show ?thesis using loop_field [OF s(5,9,10), of "''background''"] by simp
  next
    case (Some v)
    then have "(''background'', v) \<in> set (ce_order env fs)" using s(10) by (simp add: map_of_SomeD)
    then have "v = JBool False" using check_fields_each [OF s(5,9)] check_field_background by blast
    then show ?thesis using loop_field [OF s(5,9,10), of "''background''"] Some by simp
  qed
  have "fst ` set fs2 = fst ` set fs" by (rule check_fields_keys [OF s(5,9,10)])
  then have "fst ` set (sent_fields fs2 input) \<subseteq> insert ''store'' (insert ''stream'' (insert ''input'' (set (Fields request_names))))"
    using s(2) by (auto simp: sent_fields_def simp del: fst_conv)
  also have "\<dots> = set (Fields request_names)" by code_simp
  finally have keys: "fst ` set ?body \<subseteq> set (Fields request_names)" by simp
  show ?thesis
    by (rule exI [of _ ?body])
       (use s(4,8) keys bg model items fm in \<open>simp add: s(7) marshal_fields_obj sort_key_fst_map_of sent_fields_map distinct_sort_fst del: map_of_eq_Some_iff\<close>)
qed

theorem ParseRequest_body_witness:
  "\<exists>r fs. ParseRequest toy_env_codex 100 (Some toy_body) = Inr r \<and> rq_model r = ''m'' \<and> rq_omittedCap r \<and>
     rq_body r = Some (JObj fs) \<and> map_of fs ''max_output_tokens'' = None \<and> map_of fs ''store'' = Some (JBool False)"
proof -
  have o: "map_order (ce_order toy_env_codex)" by (simp add: map_order_def toy_env_codex_def)
  have "case ParseRequest toy_env_codex 100 (Some toy_body) of Inr r \<Rightarrow> rq_model r = ''m'' \<and> rq_omittedCap r | Inl _ \<Rightarrow> False"
    by code_simp
  then obtain r where "ParseRequest toy_env_codex 100 (Some toy_body) = Inr r" "rq_model r = ''m''" "rq_omittedCap r"
    by (auto split: sum.splits)
  then show ?thesis using ParseRequest_body [OF o] by blast
qed

section \<open>Capabilities\<close>

lemma fold_take_over_other:
  "k \<notin> fst ` set todo \<Longrightarrow> k = ''reasoning'' \<Longrightarrow>
    rq_effort (fold (\<lambda>kv. take_over (fst kv) (g kv)) todo r) = rq_effort r \<and>
    rq_summary (fold (\<lambda>kv. take_over (fst kv) (g kv)) todo r) = rq_summary r"
  "k \<notin> fst ` set todo \<Longrightarrow> k = ''text'' \<Longrightarrow> rq_verbosity (fold (\<lambda>kv. take_over (fst kv) (g kv)) todo r) = rq_verbosity r"
  by (induction todo arbitrary: r) (auto simp: take_over_def)

lemma fold_take_over_each:
  assumes "distinct (map fst todo)" and "(k, v) \<in> set todo"
  shows "k = ''reasoning'' \<Longrightarrow> rq_effort r = [] \<Longrightarrow>
      rq_effort (fold (\<lambda>kv. take_over (fst kv) (g kv)) todo r) = rq_effort (g (k, v))"
    and "k = ''reasoning'' \<Longrightarrow>
      rq_summary (fold (\<lambda>kv. take_over (fst kv) (g kv)) todo r) = (rq_summary (g (k, v)) \<or> rq_summary r)"
    and "k = ''text'' \<Longrightarrow>
      rq_verbosity (fold (\<lambda>kv. take_over (fst kv) (g kv)) todo r) = (rq_verbosity (g (k, v)) \<or> rq_verbosity r)"
proof -
  obtain pre post where todo: "todo = pre @ (k, v) # post" using assms(2) by (auto simp: in_set_conv_decomp)
  have n: "k \<notin> fst ` set pre" "k \<notin> fst ` set post" using assms(1) by (auto simp: todo)
  show "k = ''reasoning'' \<Longrightarrow> rq_effort r = [] \<Longrightarrow>
      rq_effort (fold (\<lambda>kv. take_over (fst kv) (g kv)) todo r) = rq_effort (g (k, v))"
    using fold_take_over_other(1) [OF n(1)] fold_take_over_other(1) [OF n(2)] by (simp add: todo take_over_def)
  show "k = ''reasoning'' \<Longrightarrow>
      rq_summary (fold (\<lambda>kv. take_over (fst kv) (g kv)) todo r) = (rq_summary (g (k, v)) \<or> rq_summary r)"
    using fold_take_over_other(1) [OF n(1)] fold_take_over_other(1) [OF n(2)] by (simp add: todo take_over_def)
  show "k = ''text'' \<Longrightarrow>
      rq_verbosity (fold (\<lambda>kv. take_over (fst kv) (g kv)) todo r) = (rq_verbosity (g (k, v)) \<or> rq_verbosity r)"
    using fold_take_over_other(2) [OF n(1)] fold_take_over_other(2) [OF n(2)] by (simp add: todo take_over_def)
qed

lemma validateReasoning_records:
  assumes "map_order (ce_order env)" and "validateReasoning env zero_Request raw = Inr (z, w)"
  shows "map_of (json_fields w) ''effort'' = Some (JStr e) \<Longrightarrow> rq_effort z = e \<and> e \<noteq> []"
    and "map_of (json_fields w) ''summary'' = Some v \<Longrightarrow> rq_summary z"
proof -
  obtain fs0 where fs0: "object (ce_order env) raw ''reasoning'' ''effort summary'' = Inr fs0"
    using assms(2) by (auto simp: validateReasoning_def bindR_Inr)
  let ?fs = "omitNull fs0 ''effort summary''"
  have "w = marshal_fields ?fs" using assms(2) by (auto simp: validateReasoning_def fs0 Let_def bindR_Inr)
  moreover have "distinct (map fst ?fs)" using object_Inr(2) [OF assms(1) fs0] by (rule omitNull_distinct)
  ultimately have w: "map_of (json_fields w) = map_of ?fs" by (simp add: json_fields_marshal)
  show "map_of (json_fields w) ''effort'' = Some (JStr e) \<Longrightarrow> rq_effort z = e \<and> e \<noteq> []"
    using assms(2) unfolding w
    by (cases "map_of ?fs ''summary''") (auto simp: validateReasoning_def fs0 Let_def bindR_Inr textValue_Inr)
  show "map_of (json_fields w) ''summary'' = Some v \<Longrightarrow> rq_summary z"
    using assms(2) unfolding w by (auto simp: validateReasoning_def fs0 Let_def bindR_Inr)
qed

lemma validateText_records:
  assumes "map_order (ce_order env)" and "validateText env zero_Request raw = Inr (z, w)"
    and "map_of (json_fields w) ''verbosity'' = Some v"
  shows "rq_verbosity z"
proof -
  obtain fs0 where fs0: "object (ce_order env) raw ''text'' ''verbosity format'' = Inr fs0"
    using assms(2) by (auto simp: validateText_def bindR_Inr)
  let ?fs = "omitNull fs0 ''verbosity''"
  have d: "distinct (map fst ?fs)" using object_Inr(2) [OF assms(1) fs0] by (rule omitNull_distinct)
  obtain fs1 where fs1: "w = marshal_fields fs1" "fs1 = ?fs \<or> (\<exists>f. fs1 = set_field ?fs ''format'' f)"
    using assms(2) by (auto simp: validateText_def fs0 Let_def bindR_Inr split: option.splits)
  have "map_of (json_fields w) ''verbosity'' = map_of ?fs ''verbosity''"
    using fs1 d by (auto simp: json_fields_marshal)
  then show ?thesis
    using assms(2,3) by (cases "map_of ?fs ''verbosity''") (auto simp: validateText_def fs0 Let_def bindR_Inr)
qed

text \<open>The loop's value of a control field is the outcome of its check, and its record is kept.\<close>

lemma loop_outcome:
  assumes "check_fields env r fs todo = Inr (r', fs')" and "distinct (map fst todo)" and "set todo = set fs"
    and "map_of fs' k = Some w"
  shows "\<exists>x z. (k, x) \<in> set todo \<and> check_field env zero_Request k x = Inr (z, w) \<and> fst (outcome env (k, x)) = z"
proof -
  have "k \<in> fst ` set fs" using assms(4) check_fields_keys [OF assms(1-3)] by (metis domI keys_dom)
  then obtain x where x: "(k, x) \<in> set todo" using assms(3) by auto
  then obtain z w' where "check_field env zero_Request k x = Inr (z, w')" "map_of fs' k = Some w'"
    using check_fields_each [OF assms(1,2) x] check_field_effect by blast
  then show ?thesis using x assms(4) by (auto simp: outcome_def)
qed

lemma loop_records_reasoning:
  assumes "map_order (ce_order env)" and "check_fields env r fs todo = Inr (r', fs')" and "distinct (map fst todo)"
    and "set todo = set fs" and "rq_effort r = []" and "map_of fs' ''reasoning'' = Some w"
  shows "map_of (json_fields w) ''effort'' = Some (JStr e) \<Longrightarrow> rq_effort r' = e \<and> e \<noteq> []"
    and "map_of (json_fields w) ''summary'' = Some y \<Longrightarrow> rq_summary r'"
proof -
  obtain x z where x: "(''reasoning'', x) \<in> set todo" "check_field env zero_Request ''reasoning'' x = Inr (z, w)"
    "fst (outcome env (''reasoning'', x)) = z" using loop_outcome [OF assms(2-4,6)] by blast
  have v: "validateReasoning env zero_Request (Some x) = Inr (z, w)" using x(2) by (simp add: check_field_def)
  have r': "r' = fold (\<lambda>kv. take_over (fst kv) (fst (outcome env kv))) todo r" using assms(2) by (simp add: check_fields_fold)
  show "map_of (json_fields w) ''effort'' = Some (JStr e) \<Longrightarrow> rq_effort r' = e \<and> e \<noteq> []"
    using validateReasoning_records(1) [OF assms(1) v] fold_take_over_each(1) [OF assms(3) x(1) refl assms(5)] x(3) by (simp add: r')
  show "map_of (json_fields w) ''summary'' = Some y \<Longrightarrow> rq_summary r'"
    using validateReasoning_records(2) [OF assms(1) v] fold_take_over_each(2) [OF assms(3) x(1) refl] x(3) by (simp add: r')
qed

lemma loop_records_text:
  assumes "map_order (ce_order env)" and "check_fields env r fs todo = Inr (r', fs')" and "distinct (map fst todo)"
    and "set todo = set fs" and "map_of fs' ''text'' = Some w" and "map_of (json_fields w) ''verbosity'' = Some y"
  shows "rq_verbosity r'"
proof -
  obtain x z where x: "(''text'', x) \<in> set todo" "check_field env zero_Request ''text'' x = Inr (z, w)"
    "fst (outcome env (''text'', x)) = z" using loop_outcome [OF assms(2-5)] by blast
  have v: "validateText env zero_Request (Some x) = Inr (z, w)" using x(2) by (simp add: check_field_def)
  have "r' = fold (\<lambda>kv. take_over (fst kv) (fst (outcome env kv))) todo r" using assms(2) by (simp add: check_fields_fold)
  then show ?thesis
    using validateText_records [OF assms(1) v assms(6)] fold_take_over_each(3) [OF assms(3) x(1) refl] x(3) by simp
qed

lemma ValidateModel_None:
  "ValidateModel r m = None \<longleftrightarrow> rq_body r \<noteq> None \<and> rq_model r = m_ID m \<and>
     (rq_effort r \<noteq> [] \<longrightarrow> rq_effort r \<in> set (m_ReasoningEfforts m)) \<and>
     (rq_summary r \<longrightarrow> m_SupportsReasoningSummary m) \<and> (rq_verbosity r \<longrightarrow> m_SupportsVerbosity m) \<and>
     (rq_originalImage r \<longrightarrow> m_SupportsImageDetailOriginal m) \<and> (rq_image r \<longrightarrow> ''image'' \<in> set (m_InputModalities m))"
  by (auto simp: ValidateModel_def)

text \<open>
  C28. A request accepted for an account's model uses only what that model offers: every effort
  the body carries is one of the model's, a summary or verbosity control appears only where it is
  supported, and image parts, also in tool output, only for models with the image modality, in
  original detail only where that is supported.
\<close>

theorem ValidateModel_sound:
  assumes "map_order (ce_order env)" and "ParseRequest env n data = Inr r" and "ValidateModel r m = None"
  shows "\<exists>fs items. rq_body r = Some (JObj fs) \<and> map_of fs ''model'' = Some (JStr (m_ID m)) \<and>
    map_of fs ''input'' = Some (JArr items) \<and>
    (\<forall>w e. map_of fs ''reasoning'' = Some w \<longrightarrow> map_of (json_fields w) ''effort'' = Some (JStr e) \<longrightarrow>
       e \<in> set (m_ReasoningEfforts m)) \<and>
    (\<forall>w. map_of fs ''reasoning'' = Some w \<longrightarrow> map_of (json_fields w) ''summary'' \<noteq> None \<longrightarrow> m_SupportsReasoningSummary m) \<and>
    (\<forall>w. map_of fs ''text'' = Some w \<longrightarrow> map_of (json_fields w) ''verbosity'' \<noteq> None \<longrightarrow> m_SupportsVerbosity m) \<and>
    (list_ex is_image (concat (map item_parts items)) \<longrightarrow> ''image'' \<in> set (m_InputModalities m)) \<and>
    (list_ex is_original (concat (map item_parts items)) \<longrightarrow> m_SupportsImageDetailOriginal m)"
proof -
  from assms(1,2) obtain fs model r1 fs2 r2 input where s:
    "distinct (map fst fs)" "fst ` set fs \<subseteq> set (Fields request_names)" "map_of fs ''model'' = Some (JStr model)" "\<not> blank model"
    "check_fields env (zero_Request\<lparr>rq_model := model\<rparr>) fs (ce_order env fs) = Inr (r1, fs2)"
    "validateInput env r1 (map_of fs2 ''input'') = Inr (r2, input)"
    "r = r2\<lparr>rq_body := Some (marshal_fields (sent_fields fs2 input))\<rparr>"
    "distinct (map fst (sent_fields fs2 input))" "distinct (map fst (ce_order env fs))" "set (ce_order env fs) = set fs"
    by (rule ParseRequest_steps)
  let ?body = "sort_key fst (sent_fields fs2 input)"
  obtain items where items: "input = JArr items" "r2 = note_images (concat (map item_parts items)) r1"
    using validateInput_notes [OF assms(1) s(6)] by blast
  have same: "rq_effort r = rq_effort r1" "rq_summary r = rq_summary r1" "rq_verbosity r = rq_verbosity r1"
    "rq_model r = model" "rq_image r \<longleftrightarrow> rq_image r1 \<or> list_ex is_image (concat (map item_parts items))"
    "rq_originalImage r \<longleftrightarrow> rq_originalImage r1 \<or> list_ex is_original (concat (map item_parts items))"
    using check_fields_model [OF s(5)] by (simp_all add: s(7) items(2) note_images_def)
  note v = assms(3) [unfolded ValidateModel_None]
  have zero: "rq_effort (zero_Request\<lparr>rq_model := model\<rparr>) = []" by simp
  note reasoning = loop_records_reasoning [OF assms(1) s(5,9,10) zero] and verb = loop_records_text [OF assms(1) s(5,9,10)]
  have effort: "e \<in> set (m_ReasoningEfforts m)"
    if "map_of fs2 ''reasoning'' = Some w" "map_of (json_fields w) ''effort'' = Some (JStr e)" for w e
    using reasoning(1) [OF that] same(1) v by auto
  have summary: "m_SupportsReasoningSummary m"
    if "map_of fs2 ''reasoning'' = Some w" "map_of (json_fields w) ''summary'' \<noteq> None" for w
    using reasoning(2) [OF that(1)] that(2) same(2) v by auto
  have verbosity: "m_SupportsVerbosity m"
    if "map_of fs2 ''text'' = Some w" "map_of (json_fields w) ''verbosity'' \<noteq> None" for w
    using verb [OF that(1)] that(2) same(3) v by auto
  have body: "rq_body r = Some (JObj ?body)" by (simp add: s(7) marshal_fields_obj)
  have look: "map_of ?body ''model'' = Some (JStr (m_ID m))" "map_of ?body ''input'' = Some (JArr items)"
    "map_of ?body ''reasoning'' = map_of fs2 ''reasoning''" "map_of ?body ''text'' = map_of fs2 ''text''"
    unfolding sort_key_fst_map_of [OF s(8)] sent_fields_map
    using loop_field [OF s(5,9,10), of "''model''"] s(3) same(4) v items(1) by simp_all
  show ?thesis
    by (rule exI [of _ ?body], rule exI [of _ items], unfold look, intro conjI allI impI)
       (use same(5,6) v in \<open>simp_all only: body effort summary verbosity simp_thms\<close>)
qed

definition toy_model :: Model where
  "toy_model = \<lparr>m_ID = ''m'', m_Name = ''M'', m_Listed = True, m_ReasoningEfforts = [''low''],
     m_InputModalities = [''text''], m_SupportsReasoningSummary = False, m_SupportsVerbosity = False,
     m_SupportsImageDetailOriginal = False\<rparr>"

theorem ValidateModel_sound_witness:
  "\<exists>r fs. ParseRequest toy_env_codex 100 (Some toy_body) = Inr r \<and> ValidateModel r toy_model = None \<and>
     rq_body r = Some (JObj fs) \<and> map_of fs ''model'' = Some (JStr ''m'')"
proof -
  have o: "map_order (ce_order toy_env_codex)" by (simp add: map_order_def toy_env_codex_def)
  have "case ParseRequest toy_env_codex 100 (Some toy_body) of Inr r \<Rightarrow> ValidateModel r toy_model = None | Inl _ \<Rightarrow> False"
    by code_simp
  then obtain r where "ParseRequest toy_env_codex 100 (Some toy_body) = Inr r" "ValidateModel r toy_model = None"
    by (auto split: sum.splits)
  moreover have "m_ID toy_model = ''m''" by (simp add: toy_model_def)
  ultimately show ?thesis using ValidateModel_sound [OF o] by metis
qed

end
