(* ===== verification/CodexClient.thy ===== *)
theory CodexClient
  imports CodexRequest Retry Account
begin

text \<open>
  \<open>internal/codex/client.go\<close>: one HTTP attempt and the classification of its failures. A context
  is its error and its cause at the time it is read; \<open>http.Client.Do\<close>, \<open>mime.ParseMediaType\<close>,
  \<open>http.ParseTime\<close> and the clock are arguments. A response is its status, the two headers that
  are read, and what reading its body gives.
\<close>

section \<open>Struct decoding\<close>

text \<open>
  \<open>json.Unmarshal\<close> into a struct matches keys after \<open>foldName\<close>: ASCII case folding, with the
  Kelvin sign read as k and the long s as s. Repeated keys store in turn.
\<close>

fun json_fold :: "string \<Rightarrow> string" where
  "json_fold [] = []"
| "json_fold (a # s) =
     (case s of
        b # c # s' \<Rightarrow>
          if a = CHR 0xE2 \<and> b = CHR 0x84 \<and> c = CHR 0xAA then CHR ''k'' # json_fold s'
          else if a = CHR 0xC5 \<and> b = CHR 0xBF then CHR ''s'' # json_fold (c # s')
          else ascii_lower a # json_fold s
      | [b] \<Rightarrow> if a = CHR 0xC5 \<and> b = CHR 0xBF then ''s'' else ascii_lower a # json_fold s
      | [] \<Rightarrow> [ascii_lower a])"

definition field_is :: "string \<Rightarrow> string \<Rightarrow> bool" where
  "field_is name key \<longleftrightarrow> json_fold key = json_fold name"

text \<open>On ASCII names the fold is a map, which evaluation uses.\<close>

lemma json_fold_ascii: "list_all (\<lambda>c. \<not> digit7 c) s \<Longrightarrow> json_fold s = map ascii_lower s"
proof (induction s)
  case (Cons a s)
  then have a: "a \<noteq> CHR 0xE2" "a \<noteq> CHR 0xC5" and IH: "json_fold s = map ascii_lower s" by auto
  show ?case
  proof (cases s)
    case (Cons b s')
    then show ?thesis using a IH by (cases s') simp_all
  qed simp
qed simp

lemma field_is_code [code]:
  "field_is name key \<longleftrightarrow>
     name = key \<or>
     (if list_all (\<lambda>c. \<not> digit7 c) name \<and> list_all (\<lambda>c. \<not> digit7 c) key
      then length name = length key \<and> map ascii_lower name = map ascii_lower key
      else json_fold key = json_fold name)"
  by (auto simp: field_is_def json_fold_ascii dest: map_eq_imp_length_eq)

text \<open>A string field of a struct after one more value; \<open>None\<close> is a type error.\<close>

definition store_string :: "json \<Rightarrow> string \<Rightarrow> string option" where
  "store_string v old = (case v of JStr s \<Rightarrow> Some s | JNull \<Rightarrow> Some old | _ \<Rightarrow> None)"

section \<open>Failures\<close>

record Ctx =
  ctx_Err :: "ctx_error option"
  ctx_Cause :: "error option"

record ('body) Response =
  rs_StatusCode :: int
  rs_RetryAfter :: string
  rs_ContentType :: string
  rs_Body :: 'body

definition safeFailure :: "Ctx \<Rightarrow> Category \<Rightarrow> int \<Rightarrow> error option \<Rightarrow> Failure" where
  "safeFailure ctx category status err =
     (let cause = (case ctx_Cause ctx of
                     Some c \<Rightarrow> if is_ctx c DeadlineExceeded then Some DeadlineExceeded else ctx_Err ctx
                   | None \<Rightarrow> ctx_Err ctx);
          cause = (if cause \<noteq> None then cause
                   else case err of
                          None \<Rightarrow> None
                        | Some e \<Rightarrow>
                            if is_ctx e DeadlineExceeded then Some DeadlineExceeded
                            else if is_ctx e Canceled then Some Canceled
                            else if as_net_timeout e then Some DeadlineExceeded
                            else None)
      in (mk_Failure category status False)\<lparr>f_cause := cause\<rparr>)"

text \<open>The first value of \<open>ParseRetryAfter\<close>, where the source drops its error.\<close>

definition retry_cooldown :: "Cooldown result \<Rightarrow> Cooldown" where
  "retry_cooldown r = (case r of Inl _ \<Rightarrow> zero_Cooldown | Inr c \<Rightarrow> c)"

record quota_error =
  qe_Type :: string
  qe_ResetsAt :: raw
  qe_ResetsIn :: raw

definition store_quota_field :: "quota_error option \<Rightarrow> string \<times> json \<Rightarrow> quota_error option" where
  "store_quota_field q kv =
     (case q of
        None \<Rightarrow> None
      | Some q \<Rightarrow>
          if field_is ''type'' (fst kv) then map_option (\<lambda>s. q\<lparr>qe_Type := s\<rparr>) (store_string (snd kv) (qe_Type q))
          else if field_is ''resets_at'' (fst kv) then Some (q\<lparr>qe_ResetsAt := Some (snd kv)\<rparr>)
          else if field_is ''resets_in_seconds'' (fst kv) then Some (q\<lparr>qe_ResetsIn := Some (snd kv)\<rparr>)
          else Some q)"

definition store_quota :: "quota_error option \<Rightarrow> string \<times> json \<Rightarrow> quota_error option" where
  "store_quota q kv =
     (case q of
        None \<Rightarrow> None
      | Some _ \<Rightarrow>
          if field_is ''error'' (fst kv) then
            (case snd kv of
               JNull \<Rightarrow> q
             | JObj m \<Rightarrow> foldl store_quota_field q m
             | _ \<Rightarrow> None)
          else q)"

definition decode_quota :: "raw \<Rightarrow> quota_error option" where
  "decode_quota data =
     (let zero = \<lparr>qe_Type = [], qe_ResetsAt = None, qe_ResetsIn = None\<rparr> in
      case data of
        Some JNull \<Rightarrow> Some zero
      | Some (JObj m) \<Rightarrow> foldl store_quota (Some zero) m
      | _ \<Rightarrow> None)"

definition maxErrorBody :: int where "maxErrorBody = 65536"
definition lastUnixSecond :: int where "lastUnixSecond = 253402300799"

text \<open>\<open>body\<close>: a read error, or the number of bytes read (at most \<open>maxErrorBody + 1\<close>) and their value.\<close>

type_synonym payload = "(int \<times> raw) result"

definition quotaReset :: "(string \<Rightarrow> time option) \<Rightarrow> payload \<Rightarrow> time \<Rightarrow> Cooldown" where
  "quotaReset ParseTime body receivedAt =
     (case body of
        Inl _ \<Rightarrow> zero_Cooldown
      | Inr (n, data) \<Rightarrow>
          if n > maxErrorBody then zero_Cooldown
          else case decode_quota data of
                 None \<Rightarrow> zero_Cooldown
               | Some q \<Rightarrow>
                   if qe_Type q \<noteq> ''usage_limit_reached'' then zero_Cooldown
                   else
                     let at = int64Value (qe_ResetsAt q) 0 in
                     if (case at of None \<Rightarrow> False | Some s \<Rightarrow> s > time_Unix receivedAt \<and> s \<le> lastUnixSecond)
                     then until_Cooldown (Unix_time (the at))
                     else
                       let seconds = int64Value (qe_ResetsIn q) (case at of None \<Rightarrow> 0 | Some s \<Rightarrow> s) in
                       if (case seconds of None \<Rightarrow> False | Some s \<Rightarrow> s > 0)
                       then retry_cooldown (ParseRetryAfter ParseTime
                              (case qe_ResetsIn q of Some (JNum s) \<Rightarrow> s | _ \<Rightarrow> ''null'') receivedAt)
                       else zero_Cooldown)"

definition httpFailure :: "(string \<Rightarrow> time option) \<Rightarrow> time \<Rightarrow> payload Response \<Rightarrow> Failure" where
  "httpFailure ParseTime receivedAt response =
     (let status = rs_StatusCode response;
          f = (mk_Failure ProviderFailure status False)
                \<lparr>f_RetryAfter := retry_cooldown (ParseRetryAfter ParseTime (rs_RetryAfter response) receivedAt)\<rparr>
      in if status \<in> {400, 404, 422} then f\<lparr>f_Category := InvalidRequest, f_SafeToRetry := True\<rparr>
         else if status \<in> {401, 403} then f\<lparr>f_Category := AccountProblem, f_SafeToRetry := True\<rparr>
         else if status = 429 then
           (let f = f\<lparr>f_Category := ProviderLimit, f_SafeToRetry := True\<rparr> in
            if cd_Kind (f_RetryAfter f) = NoCooldown
            then f\<lparr>f_RetryAfter := quotaReset ParseTime (rs_Body response) receivedAt\<rparr> else f)
         else if status < 400 then f\<lparr>f_Category := InvalidResponse\<rparr>
         else f)"

text \<open>The \<open>code\<close> of an error detail: a type error is dropped and decoding goes on.\<close>

definition detail_code :: "raw \<Rightarrow> string" where
  "detail_code raw =
     (case raw of
        Some (JObj m) \<Rightarrow>
          foldl (\<lambda>code (k, v). if field_is ''code'' k then (case store_string v code of Some s \<Rightarrow> s | None \<Rightarrow> code) else code) [] m
      | _ \<Rightarrow> [])"

definition responseFailure :: "raw \<Rightarrow> int \<Rightarrow> Failure" where
  "responseFailure raw status =
     (let code = detail_code raw; f = mk_Failure ProviderFailure status False in
      if code \<in> {''context_length_exceeded'', ''invalid_prompt'', ''bio_policy'', ''cyber_policy'', ''misalignment_policy_violation''}
      then f\<lparr>f_Category := InvalidRequest\<rparr>
      else if code \<in> {''insufficient_quota'', ''rate_limit_exceeded'', ''server_is_overloaded'', ''slow_down''}
      then f\<lparr>f_Category := ProviderLimit\<rparr>
      else if code = ''usage_not_included'' then f\<lparr>f_Category := AccountProblem\<rparr>
      else f)"

text \<open>\<open>read\<close>: what \<open>io.ReadAll\<close> of the body limited to \<open>maxPayload + 1\<close> bytes gives.\<close>

definition readPayload :: "int \<times> raw \<times> error option \<Rightarrow> raw result" where
  "readPayload read =
     (case read of (n, data, err) \<Rightarrow>
        if n > maxPayload then Inl (Sentinel ErrPayloadTooLarge)
        else (case err of Some e \<Rightarrow> Inl e | None \<Rightarrow> Inr data))"

section \<open>The attempt\<close>

text \<open>
  \<open>send\<close>: \<open>outcome\<close> is what \<open>http.Client.Do\<close> returned and \<open>ctx\<close> the request's own context once the
  five-minute timer has been stopped.
\<close>

definition send :: "Ctx \<Rightarrow> 'b Response result \<Rightarrow> 'b Response result" where
  "send ctx outcome =
     (if ctx_Err ctx \<noteq> None then Inl (case ctx_Cause ctx of Some c \<Rightarrow> c | None \<Rightarrow> PlainErr [])
      else outcome)"

record attempt_env =
  ae_initialized :: bool
  ae_newRequest :: "error option"
  ae_ParseTime :: "string \<Rightarrow> time option"
  ae_ParseMediaType :: "string \<Rightarrow> string option"
  ae_now :: time

text \<open>\<open>readCtx\<close> is the context of the error body's read once \<open>httpFailure\<close> is done with it.\<close>

definition do_attempt ::
  "attempt_env \<Rightarrow> Ctx \<Rightarrow> Ctx \<Rightarrow> Account \<Rightarrow> payload Response result \<Rightarrow> payload Response result" where
  "do_attempt env ctx readCtx a sent =
     (if \<not> ae_initialized env then Inl (PlainErr ''codex: client is not initialized'')
      else if ValidateCredentials (acc_credentials a) \<noteq> None then Inl (FailureErr (mk_Failure AccountProblem 0 True))
      else case ae_newRequest env of
             Some e \<Rightarrow> Inl (FailureErr (safeFailure ctx TransportFailure 0 (Some e)))
           | None \<Rightarrow>
               (case sent of
                  Inl e \<Rightarrow> Inl (FailureErr (safeFailure ctx TransportFailure 0 (Some e)))
                | Inr resp \<Rightarrow>
                    if rs_StatusCode resp \<noteq> 200 then
                      (let failure = httpFailure (ae_ParseTime env) (ae_now env) resp
                       in Inl (FailureErr (failure\<lparr>f_cause := f_cause (safeFailure readCtx (f_Category failure) (f_HTTPStatus failure) None)\<rparr>)))
                    else Inr resp))"

definition Client_Stream ::
  "attempt_env \<Rightarrow> Ctx \<Rightarrow> Ctx \<Rightarrow> Account \<Rightarrow> Request \<Rightarrow> payload Response result \<Rightarrow> payload Response result" where
  "Client_Stream env ctx readCtx a request sent =
     (if rq_body request = None then Inl (invalid ''request'')
      else bindR (do_attempt env ctx readCtx a sent) (\<lambda>resp.
        if rs_ContentType resp \<noteq> [] \<and> ae_ParseMediaType env (rs_ContentType resp) \<noteq> Some ''text/event-stream''
        then Inl (FailureErr (httpFailure (ae_ParseTime env) (ae_now env) resp))
        else Inr resp))"

section \<open>Retry safety\<close>

lemma safeFailure_simps [simp]:
  "f_SafeToRetry (safeFailure ctx c s e) = False" "f_Category (safeFailure ctx c s e) = c"
  "f_HTTPStatus (safeFailure ctx c s e) = s"
  by (simp_all add: safeFailure_def Let_def)

lemma responseFailure_unsafe [simp]: "f_SafeToRetry (responseFailure raw s) = False"
  by (simp add: responseFailure_def Let_def)

lemma httpFailure_safe_iff: "f_SafeToRetry (httpFailure pt now r) \<longleftrightarrow> rs_StatusCode r \<in> {400, 401, 403, 404, 422, 429}"
  by (auto simp: httpFailure_def Let_def)

lemma httpFailure_category:
  "f_Category (httpFailure pt now r) =
     (if rs_StatusCode r \<in> {400, 404, 422} then InvalidRequest else if rs_StatusCode r \<in> {401, 403} then AccountProblem
      else if rs_StatusCode r = 429 then ProviderLimit else if rs_StatusCode r < 400 then InvalidResponse else ProviderFailure)"
  by (simp add: httpFailure_def Let_def)

lemma httpFailure_status [simp]: "f_HTTPStatus (httpFailure pt now r) = rs_StatusCode r"
  by (simp add: httpFailure_def Let_def)

text \<open>
  C30. An attempt is reported as safe to repeat only when the provider is known not to have
  started generating: nothing was sent because the stored credentials are unusable, or the
  provider answered with a complete rejection (400, 401, 403, 404, 422 or 429). A transport error,
  a timeout, a server error or a successful status never is.
\<close>

theorem attempt_safe_to_retry:
  assumes "Client_Stream env ctx readCtx a request sent = Inl e" and "as_Failure e = Some f" and "f_SafeToRetry f"
  shows "\<not> wf_credentials (acc_credentials a) \<or>
    (\<exists>resp. sent = Inr resp \<and> rs_StatusCode resp \<in> {400, 401, 403, 404, 422, 429} \<and> f_HTTPStatus f = rs_StatusCode resp)"
proof (cases "wf_credentials (acc_credentials a)")
  case True
  then have v: "ValidateCredentials (acc_credentials a) = None" by (simp add: ValidateCredentials_None)
  consider "do_attempt env ctx readCtx a sent = Inl e"
    | resp where "do_attempt env ctx readCtx a sent = Inr resp" "e = FailureErr (httpFailure (ae_ParseTime env) (ae_now env) resp)"
    using assms(1,2) by (cases "do_attempt env ctx readCtx a sent") (auto simp: Client_Stream_def invalid_def split: if_splits)
  then show ?thesis
  proof cases
    case 1
    then show ?thesis
      using assms(2,3) v by (auto simp: do_attempt_def Let_def httpFailure_safe_iff split: if_splits option.splits sum.splits)
  next
    case 2
    then have "rs_StatusCode resp = 200" "sent = Inr resp"
      using v by (auto simp: do_attempt_def Let_def split: if_splits option.splits sum.splits)
    then show ?thesis using 2 assms(2,3) by (auto simp: httpFailure_safe_iff)
  qed
qed simp

definition toy_attempt :: attempt_env where
  "toy_attempt = \<lparr>ae_initialized = True, ae_newRequest = None, ae_ParseTime = (\<lambda>_. None),
     ae_ParseMediaType = (\<lambda>_. None), ae_now = 63000000000000000000\<rparr>"

definition background :: Ctx where "background = \<lparr>ctx_Err = None, ctx_Cause = None\<rparr>"

theorem attempt_safe_to_retry_witness:
  "\<exists>f. Client_Stream toy_attempt background background
      \<lparr>acc_identity = \<lparr>ai_ID = ''a'', ai_Name = ''a''\<rparr>,
       acc_credentials = \<lparr>ChatGPTAccountID = ''w'', AccessToken = ''t'', RefreshToken = [], ExpiresAt = 0\<rparr>\<rparr>
      (zero_Request\<lparr>rq_body := Some JNull\<rparr>)
      (Inr \<lparr>rs_StatusCode = 429, rs_RetryAfter = ''3'', rs_ContentType = [], rs_Body = Inr (0, None)\<rparr>) = Inl (FailureErr f) \<and>
     f_SafeToRetry f \<and> f_HTTPStatus f = 429 \<and> f_RetryAfter f = until_Cooldown 63000000003000000000"
proof -
  let ?a = "\<lparr>acc_identity = \<lparr>ai_ID = ''a'', ai_Name = ''a''\<rparr>,
       acc_credentials = \<lparr>ChatGPTAccountID = ''w'', AccessToken = ''t'', RefreshToken = [], ExpiresAt = 0\<rparr>\<rparr>"
  let ?r = "\<lparr>rs_StatusCode = 429, rs_RetryAfter = ''3'', rs_ContentType = [], rs_Body = Inr (0, None)\<rparr> :: payload Response"
  let ?e = "Client_Stream toy_attempt background background ?a (zero_Request\<lparr>rq_body := Some JNull\<rparr>) (Inr ?r)"
  have "case ?e of Inl (FailureErr f) \<Rightarrow> f_SafeToRetry f \<and> f_RetryAfter f = until_Cooldown 63000000003000000000 | _ \<Rightarrow> False"
    by code_simp
  then obtain f where f: "?e = Inl (FailureErr f)" "f_SafeToRetry f" "f_RetryAfter f = until_Cooldown 63000000003000000000"
    by (auto split: sum.splits error.splits)
  have w: "wf_credentials (acc_credentials ?a)" by code_simp
  show ?thesis using attempt_safe_to_retry [OF f(1) as_Failure_simps(1) f(2)] w f by auto
qed

end
