(* ===== verification/CodexStream.thy ===== *)
theory CodexStream
  imports CodexClient Requests
begin

text \<open>
  \<open>internal/codex/stream.go\<close>: the reader of one upstream response. A call of \<open>Next\<close> takes what
  \<open>readEvent\<close> delivered, the stream's context and the body's read error at that moment, and
  whether closing the body fails; reads and closes run under the stream's mutex, so each call is
  one step. The go-sse parser is the source of the delivered events; the byte length of an item's
  text, which the value does not determine, comes with the event.
\<close>

section \<open>State\<close>

record Result =
  res_Response :: raw
  res_Status :: string
  res_Usage :: Snapshot

definition zero_Result :: Result where
  "zero_Result = \<lparr>res_Response = None, res_Status = [], res_Usage = zero_Snapshot\<rparr>"

record Stream =
  s_status :: int
  s_retryAfter :: Cooldown
  s_closed :: bool \<comment> \<open>\<open>closeOnce\<close> has run\<close>
  s_closeErr :: "Failure option"
  s_ended :: bool
  s_err :: "error option"
  s_result :: Result
  s_items :: "(int \<times> json \<times> int) list" \<comment> \<open>index, item, length of its text\<close>
  s_itemBytes :: int

definition newStream :: "int \<Rightarrow> Cooldown \<Rightarrow> Stream" where
  "newStream status cooldown =
     \<lparr>s_status = status, s_retryAfter = cooldown, s_closed = False, s_closeErr = None, s_ended = False, s_err = None,
      s_result = zero_Result, s_items = [], s_itemBytes = 0\<rparr>"

text \<open>What \<open>readEvent\<close> returns.\<close>

datatype delivery =
    Delivered string raw int \<comment> \<open>event type, data, length of the text of its \<open>item\<close>\<close>
  | NoEvent \<comment> \<open>an error, or the end of the body\<close>

text \<open>
  One result of the SSE iterator, with whether the five minutes or the stream's context had ended when it
  came; an event with empty data is skipped. \<open>None\<close>: the reads given do not end the wait.
\<close>

datatype sse_item =
    SseEvent string bool raw int \<comment> \<open>type, whether the data is empty, the data, length of the text of its \<open>item\<close>\<close>
  | SseError error
  | SseEnd

fun readEvent :: "(sse_item \<times> bool) list \<Rightarrow> delivery option" where
  "readEvent [] = None"
| "readEvent ((item, expired) # rest) =
     (if expired then Some NoEvent
      else case item of
             SseEvent type no_data data n \<Rightarrow> if no_data then readEvent rest else Some (Delivered type data n)
           | SseError e \<Rightarrow> Some NoEvent
           | SseEnd \<Rightarrow> Some NoEvent)"

record read_state =
  rd_ctx :: Ctx
  rd_body_err :: "error option"
  rd_close_fails :: bool

definition item_length :: "(int \<times> json \<times> int) list \<Rightarrow> int \<Rightarrow> int" where
  "item_length items i = (case map_of items i of None \<Rightarrow> 0 | Some (_, n) \<Rightarrow> n)"

section \<open>Ending\<close>

definition closeBody :: "bool \<Rightarrow> Stream \<Rightarrow> Stream" where
  "closeBody close_fails s =
     (if s_closed s then s
      else s\<lparr>s_closed := True,
             s_closeErr := (if close_fails
               then Some ((mk_Failure TransportFailure (s_status s) False)\<lparr>f_RetryAfter := s_retryAfter s\<rparr>) else None)\<rparr>)"

definition stream_finish :: "bool \<Rightarrow> Stream \<Rightarrow> Failure option \<Rightarrow> Stream" where
  "stream_finish close_fails s failure =
     (let err = map_option (\<lambda>f. FailureErr (f\<lparr>f_RetryAfter := s_retryAfter s\<rparr>)) failure;
          s = closeBody close_fails (s\<lparr>s_ended := True, s_err := err\<rparr>)
      in s\<lparr>s_err := errors_Join [s_err s, map_option FailureErr (s_closeErr s)], s_items := []\<rparr>)"

definition badEvent :: "bool \<Rightarrow> Stream \<Rightarrow> Stream \<times> json result" where
  "badEvent close_fails s =
     (let s' = stream_finish close_fails s (Some (mk_Failure InvalidResponse (s_status s) False))
      in (s', Inl (the (s_err s'))))"

definition Stream_Close :: "Ctx \<Rightarrow> bool \<Rightarrow> Stream \<Rightarrow> Stream \<times> error option" where
  "Stream_Close ctx close_fails s =
     (let s = closeBody close_fails s;
          s = s\<lparr>s_items := []\<rparr>;
          s = (if s_ended s then s
               else s\<lparr>s_ended := True,
                      s_err := Some (FailureErr ((safeFailure ctx TransportFailure (s_status s) None)\<lparr>f_RetryAfter := s_retryAfter s\<rparr>))\<rparr>)
      in (s, map_option FailureErr (s_closeErr s)))"

definition CleanupError :: "Stream \<Rightarrow> error option" where
  "CleanupError s = (if \<not> s_ended s then None else map_option FailureErr (s_closeErr s))"

section \<open>Events\<close>

text \<open>One counter of \<open>observeUsage\<close>: its new value and whether it was malformed.\<close>

definition observe_counter :: "fields \<Rightarrow> string \<Rightarrow> Counter \<Rightarrow> Counter \<times> bool" where
  "observe_counter fs name old =
     (case map_of fs name of
        None \<Rightarrow> (old, False)
      | Some JNull \<Rightarrow> (old, False)
      | Some v \<Rightarrow>
          (case int64Value (Some v) 0 of
             None \<Rightarrow> (old, True)
           | Some n \<Rightarrow> if n < 0 then (old, True) else (\<lparr>Tokens = n, Known = True\<rparr>, False)))"

definition observeUsage :: "map_iter \<Rightarrow> raw \<Rightarrow> Snapshot \<Rightarrow> Snapshot \<times> error option" where
  "observeUsage ord raw u =
     (if raw = None \<or> raw = Some JNull then (u, None)
      else case object ord raw ''usage'' [] of
             Inl err \<Rightarrow> (u, Some err)
           | Inr fs \<Rightarrow>
               (let (i, bi) = observe_counter fs ''input_tokens'' (u_Input u);
                    (out, bo) = observe_counter fs ''output_tokens'' (u_Output u);
                    (t, bt) = observe_counter fs ''total_tokens'' (u_Total u)
                in (\<lparr>u_Input = i, u_Output = out, u_Total = t\<rparr>, if bi \<or> bo \<or> bt then Some (invalid ''usage'') else None)))"

text \<open>\<open>Failure.Error\<close> and the error object that replaces the provider's.\<close>

definition failure_message :: "Failure \<Rightarrow> string" where
  "failure_message f = ''codex: '' @ f_Category f"

definition safeErrorJSON :: "Failure \<Rightarrow> json" where
  "safeErrorJSON f = marshal_fields [(''code'', JStr (f_Category f)), (''message'', JStr (failure_message f))]"

fun check_outputs :: "map_iter \<Rightarrow> json list \<Rightarrow> error option" where
  "check_outputs ord [] = None"
| "check_outputs ord (item # items) =
     (case object ord (Some item) ''response.output'' [] of
        Inl err \<Rightarrow> Some err
      | Inr values \<Rightarrow>
          (case textValue (map_of values ''type'') ''response.output.type'' False of
             Inl err \<Rightarrow> Some err
           | Inr _ \<Rightarrow> check_outputs ord items))"

definition assembled_items :: "(int \<times> json \<times> int) list \<Rightarrow> json list" where
  "assembled_items items = map (\<lambda>i. fst (the (map_of items i))) (sort (remdups (map fst items)))"

text \<open>The steps of \<open>terminal\<close>: the response's status, its own output, its final fields.\<close>

definition with_status :: "fields \<Rightarrow> string \<Rightarrow> fields result" where
  "with_status response status =
     (case map_of response ''status'' of
        Some raw \<Rightarrow>
          (case textValue (Some raw) ''response.status'' False of
             Inl _ \<Rightarrow> Inl (invalid ''response.status'')
           | Inr value \<Rightarrow> if value \<noteq> status then Inl (invalid ''response.status'') else Inr response)
      | None \<Rightarrow> Inr (set_field response ''status'' (JStr status)))"

definition given_output :: "map_iter \<Rightarrow> fields \<Rightarrow> json list result" where
  "given_output ord response =
     (case map_of response ''output'' of
        None \<Rightarrow> Inr []
      | Some raw \<Rightarrow> bindR (array (Some raw) ''response.output'') (\<lambda>output. checkR (check_outputs ord output) (Inr output)))"

definition final_response :: "Stream \<Rightarrow> string \<Rightarrow> fields \<Rightarrow> json list \<Rightarrow> fields \<times> Failure option" where
  "final_response s status response output =
     (let response = (if output = [] then set_field response ''output'' (JArr (assembled_items (s_items s))) else response)
      in if status = ''failed'' then
           (let classified = responseFailure (map_of response ''error'') (s_status s)
            in (set_field response ''error'' (safeErrorJSON classified), Some classified))
         else (response, None))"

text \<open>
  \<open>terminal\<close>: the event to return, the classified failure of a failed response and the result to
  record; \<open>kind\<close> is one of the three terminal kinds.
\<close>

definition terminal :: "map_iter \<Rightarrow> Stream \<Rightarrow> fields \<Rightarrow> string \<Rightarrow> (json \<times> Failure option \<times> Result) result" where
  "terminal ord s fs kind =
     bindR (object ord (map_of fs ''response'') ''response'' []) (\<lambda>response.
     bindR (textValue (map_of response ''id'') ''response.id'' False) (\<lambda>_.
       let status = drop (length ''response.'') kind in
       bindR (with_status response status) (\<lambda>response.
       bindR (given_output ord response) (\<lambda>output.
         let (response, failure) = final_response s status response output;
             body = marshal_fields response
         in Inr (marshal_fields (set_field fs ''response'' body), failure,
                 (s_result s)\<lparr>res_Response := Some body, res_Status := status\<rparr>)))))"

definition clean_error :: "Stream \<Rightarrow> fields \<Rightarrow> json \<Rightarrow> json \<times> Failure" where
  "clean_error s fs raw =
     (let detail = (case map_of fs ''error'' of Some nested \<Rightarrow> nested | None \<Rightarrow> raw);
          failure = responseFailure (Some detail) (s_status s);
          clean = [(''type'', the (map_of fs ''type'')), (''code'', JStr (f_Category failure)),
                   (''message'', JStr (failure_message failure)), (''param'', JNull)];
          clean = (case map_of fs ''sequence_number'' of
                     Some (JNum n) \<Rightarrow>
                       (case ParseInt64 n of
                          Inr k \<Rightarrow> if k \<ge> 0 then set_field clean ''sequence_number'' (JNum n) else clean
                        | Inl _ \<Rightarrow> clean)
                   | _ \<Rightarrow> clean)
      in (marshal_fields clean, failure))"

text \<open>The part of \<open>Next\<close> that handles a delivered event of a stream that has not ended.\<close>

definition observe_response :: "map_iter \<Rightarrow> Stream \<Rightarrow> fields \<Rightarrow> Stream \<times> bool" where
  "observe_response ord s fs =
     (case map_of fs ''response'' of
        None \<Rightarrow> (s, True)
      | Some response \<Rightarrow>
          (case object ord (Some response) ''response'' [] of
             Inl _ \<Rightarrow> (s, False)
           | Inr values \<Rightarrow>
               (let (u, err) = observeUsage ord (map_of values ''usage'') (res_Usage (s_result s))
                in (s\<lparr>s_result := (s_result s)\<lparr>res_Usage := u\<rparr>\<rparr>, err = None))))"

definition output_index :: "fields \<Rightarrow> int option" where
  "output_index fs =
     (case map_of fs ''output_index'' of
        None \<Rightarrow> None
      | Some JNull \<Rightarrow> None
      | Some v \<Rightarrow> (case int64Value (Some v) 0 of None \<Rightarrow> None | Some index \<Rightarrow> if index < 0 then None else Some index))"

definition output_item :: "map_iter \<Rightarrow> Stream \<Rightarrow> fields \<Rightarrow> int \<Rightarrow> Stream option" where
  "output_item ord s fs n =
     (case output_index fs of
        None \<Rightarrow> None
      | Some index \<Rightarrow>
          (case object ord (map_of fs ''item'') ''item'' [] of
             Inl _ \<Rightarrow> None
           | Inr item \<Rightarrow>
               (case textValue (map_of item ''type'') ''item.type'' False of
                  Inl _ \<Rightarrow> None
                | Inr _ \<Rightarrow>
                    let total = s_itemBytes s + n - item_length (s_items s) index in
                    if total > maxPayload then None
                    else Some (s\<lparr>s_itemBytes := total,
                                 s_items := AList.update index (the (map_of fs ''item''), n) (s_items s)\<rparr>))))"

definition handle_event :: "map_iter \<Rightarrow> bool \<Rightarrow> Stream \<Rightarrow> string \<Rightarrow> raw \<Rightarrow> int \<Rightarrow> Stream \<times> json result" where
  "handle_event ord close_fails s type data n =
     (case object ord data ''event'' [] of
        Inl _ \<Rightarrow> badEvent close_fails s
      | Inr fs \<Rightarrow>
          (case textValue (map_of fs ''type'') ''event.type'' False of
             Inl _ \<Rightarrow> badEvent close_fails s
           | Inr kind \<Rightarrow>
               if type \<noteq> [] \<and> type \<noteq> kind then badEvent close_fails s
               else
                 (case observe_response ord s fs of
                    (s, False) \<Rightarrow> badEvent close_fails s
                  | (s, True) \<Rightarrow>
                      if kind = ''response.output_item.done'' then
                        (case output_item ord s fs n of
                           None \<Rightarrow> badEvent close_fails s
                         | Some s' \<Rightarrow> (s', Inr (the data)))
                      else if kind \<in> {''response.completed'', ''response.incomplete'', ''response.failed''} then
                        (case terminal ord s fs kind of
                           Inl _ \<Rightarrow> badEvent close_fails s
                         | Inr (event, failure, result) \<Rightarrow>
                             (stream_finish close_fails (s\<lparr>s_result := result\<rparr>) failure, Inr event))
                      else if kind = ''error'' then
                        (let (event, failure) = clean_error s fs (the data)
                         in (stream_finish close_fails s (Some failure), Inr event))
                      else (s, Inr (the data)))))"

definition Stream_Next :: "map_iter \<Rightarrow> Stream \<Rightarrow> read_state \<Rightarrow> delivery \<Rightarrow> Stream \<times> json result" where
  "Stream_Next ord s rd d =
     (if s_ended s then (s, Inl (case s_err s of Some e \<Rightarrow> e | None \<Rightarrow> Sentinel EOF))
      else case d of
             NoEvent \<Rightarrow>
               (let category = (if ctx_Err (rd_ctx rd) \<noteq> None \<or>
                                   (case rd_body_err rd of None \<Rightarrow> False | Some e \<Rightarrow> \<not> errors_Is e EOF)
                                then TransportFailure else InvalidResponse);
                    s' = stream_finish (rd_close_fails rd) s (Some (safeFailure (rd_ctx rd) category (s_status s) (rd_body_err rd)))
                in (s', Inl (the (s_err s'))))
           | Delivered type data n \<Rightarrow> handle_event ord (rd_close_fails rd) s type data n)"

end
