(* ===== verification/StreamLaws.thy ===== *)
theory StreamLaws
  imports CodexStream RequestParsing
begin

text \<open>
  What a consumer of an upstream stream may rely on: an end without an error means a complete or
  incomplete response was received, the outcome of an ended stream is final, provider error
  texts never leave the reader, and a final response without output is assembled from the items.
\<close>

section \<open>Invariant\<close>

definition wf_usage :: "Snapshot \<Rightarrow> bool" where
  "wf_usage u \<longleftrightarrow> \<not> bad_counter (u_Input u) \<and> \<not> bad_counter (u_Output u) \<and> \<not> bad_counter (u_Total u)"

definition item_sum :: "(int \<times> json \<times> int) list \<Rightarrow> int" where
  "item_sum items = sum_list (map (snd \<circ> snd) items)"

definition wf_items :: "Stream \<Rightarrow> bool" where
  "wf_items s \<longleftrightarrow> distinct (map fst (s_items s)) \<and> list_all (\<lambda>x. 0 \<le> fst x) (s_items s) \<and>
     s_itemBytes s = item_sum (s_items s) \<and> s_itemBytes s \<le> maxPayload"

definition wf_response :: "Result \<Rightarrow> bool" where
  "wf_response r \<longleftrightarrow> (\<exists>m. res_Response r = Some (JObj m) \<and> distinct (map fst m) \<and>
     map_of m ''status'' = Some (JStr (res_Status r)) \<and> (\<exists>items. map_of m ''output'' = Some (JArr items)))"

definition stream_inv :: "Stream \<Rightarrow> bool" where
  [inv_defs]: "stream_inv s \<longleftrightarrow>
     wf_usage (res_Usage (s_result s)) \<and>
     (\<not> s_ended s \<longrightarrow> s_err s = None \<and> s_closed s = False \<and> res_Status (s_result s) = [] \<and> res_Response (s_result s) = None \<and> wf_items s) \<and>
     (res_Status (s_result s) \<noteq> [] \<longrightarrow> res_Status (s_result s) \<in> {''completed'', ''incomplete'', ''failed''} \<and> wf_response (s_result s)) \<and>
     (s_ended s \<longrightarrow> s_closed s \<and> (s_err s = None \<longrightarrow> res_Status (s_result s) \<in> {''completed'', ''incomplete''} \<and> s_closeErr s = None))"

inductive stream_step :: "map_iter \<Rightarrow> Stream \<Rightarrow> Stream \<Rightarrow> bool" for ord where
  "Stream_Next ord s rd NoEvent = (s', r) \<Longrightarrow> stream_step ord s s'"
| "Stream_Next ord s rd (Delivered t data n) = (s', r) \<Longrightarrow> 0 \<le> n \<Longrightarrow> stream_step ord s s'"
| "Stream_Close ctx close_fails s = (s', e) \<Longrightarrow> stream_step ord s s'"

lemma finish_sels [simp]:
  "s_ended (stream_finish cf s f)" "s_result (stream_finish cf s f) = s_result s" "s_closed (stream_finish cf s f)"
  by (simp_all add: stream_finish_def closeBody_def Let_def)

lemma finish_err_None: "s_err (stream_finish cf s f) = None \<Longrightarrow> f = None \<and> s_closeErr (stream_finish cf s f) = None"
  by (auto simp: stream_finish_def Let_def errors_Join_None closeBody_def split: if_splits)

lemma finish_err_Some [simp]: "s_err (stream_finish cf s (Some f)) \<noteq> None"
  using finish_err_None by blast

lemma badEvent_inv:
  assumes "wf_usage (res_Usage (s_result s))" and "res_Status (s_result s) = []"
  shows "stream_inv (fst (badEvent cf s))"
  using assms by (simp add: badEvent_def Let_def stream_inv_def)

lemma observe_counter_wf: "\<not> bad_counter c \<Longrightarrow> \<not> bad_counter (fst (observe_counter fs name c))"
  by (auto simp: observe_counter_def bad_counter_def split: option.splits json.splits if_splits)

lemma observeUsage_wf: "wf_usage u \<Longrightarrow> wf_usage (fst (observeUsage ord raw u))"
  by (auto simp: observeUsage_def wf_usage_def observe_counter_wf split: sum.splits prod.splits)
     (metis fst_conv observe_counter_wf)+

lemma observe_response_keeps:
  assumes "observe_response ord s fs = (s', b)"
  shows "\<exists>u. s' = s\<lparr>s_result := (s_result s)\<lparr>res_Usage := u\<rparr>\<rparr> \<and> (wf_usage (res_Usage (s_result s)) \<longrightarrow> wf_usage u)"
proof -
  have id: "s = s\<lparr>s_result := (s_result s)\<lparr>res_Usage := res_Usage (s_result s)\<rparr>\<rparr>" by simp
  show ?thesis
  proof (cases "\<exists>v values. map_of fs ''response'' = Some v \<and> object ord (Some v) ''response'' [] = Inr values")
    case True
    then obtain v vals where v: "map_of fs ''response'' = Some v" "object ord (Some v) ''response'' [] = Inr vals" by blast
    let ?u = "observeUsage ord (map_of vals ''usage'') (res_Usage (s_result s))"
    have "s' = s\<lparr>s_result := (s_result s)\<lparr>res_Usage := fst ?u\<rparr>\<rparr>"
      using assms v by (auto simp: observe_response_def split: prod.splits)
    then show ?thesis using observeUsage_wf by blast
  next
    case False
    then have "s' = s" using assms by (auto simp: observe_response_def split: option.splits sum.splits)
    then show ?thesis using id by metis
  qed
qed

lemma item_sum_update:
  "distinct (map fst items) \<Longrightarrow> item_sum (AList.update i (x, n) items) = item_sum items + n - item_length items i"
  by (induction items) (auto simp: item_sum_def item_length_def split: option.splits if_splits)

lemma output_item_inv:
  assumes "output_item ord s fs n = Some s'" and "wf_items s"
  shows "wf_items s' \<and> s_result s' = s_result s \<and> s_ended s' = s_ended s \<and> s_err s' = s_err s \<and> s_closed s' = s_closed s"
proof -
  have "output_index fs = Some i \<Longrightarrow> 0 \<le> i" for i
    by (auto simp: output_index_def split: option.splits json.splits if_splits)
  then obtain index where i: "0 \<le> index" "s_itemBytes s + n - item_length (s_items s) index \<le> maxPayload"
    "s' = s\<lparr>s_itemBytes := s_itemBytes s + n - item_length (s_items s) index,
            s_items := AList.update index (the (map_of fs ''item''), n) (s_items s)\<rparr>"
    using assms(1) by (auto simp: output_item_def Let_def split: option.splits sum.splits if_splits)
  have "list_all (\<lambda>x. 0 \<le> fst x) (AList.update index v (s_items s))" for v
    using assms(2) i(1) dom_update [of index v "s_items s"] by (auto simp: wf_items_def list_all_iff)
      (metis (no_types, lifting) fst_conv image_eqI insertE imageE)
  then show ?thesis
    using assms(2) i by (auto simp: wf_items_def item_sum_update distinct_update)
qed

lemma with_status_Inr:
  "with_status response st = Inr r \<Longrightarrow>
   (r = response \<or> r = set_field response ''status'' (JStr st)) \<and> map_of r ''status'' = Some (JStr st)"
  by (auto simp: with_status_def textValue_Inr simp del: map_of_eq_Some_iff split: option.splits sum.splits if_splits)

lemma given_output_Inr:
  "given_output ord response = Inr output \<Longrightarrow>
   (map_of response ''output'' = None \<and> output = []) \<or> map_of response ''output'' = Some (JArr output)"
  by (auto simp: given_output_def bindR_Inr checkR_Inr array_Inr split: option.splits)

lemma final_response_fields:
  fixes s :: Stream
  assumes "distinct (map fst response)" and "map_of response ''status'' = Some (JStr st)" and "given_output ord response = Inr output"
  defines "fin \<equiv> final_response s st response output"
  shows "distinct (map fst (fst fin))" and "map_of (fst fin) ''status'' = Some (JStr st)"
    and "\<exists>items. map_of (fst fin) ''output'' = Some (JArr items)" and "snd fin = None \<longleftrightarrow> st \<noteq> ''failed''"
  using assms given_output_Inr [OF assms(3)]
  by (auto simp: final_response_def Let_def simp del: map_of_eq_Some_iff)

lemma wf_response_marshal:
  assumes "distinct (map fst r)" and "map_of r ''status'' = Some (JStr st)" and "\<exists>items. map_of r ''output'' = Some (JArr items)"
  shows "wf_response (res\<lparr>res_Response := Some (marshal_fields r), res_Status := st\<rparr>)"
  using assms unfolding wf_response_def marshal_fields_def
  by (intro exI [of _ "sort_key fst r"]) (simp add: sort_key_fst_map_of distinct_sort_fst del: map_of_eq_Some_iff)

lemma terminal_result:
  assumes "map_order ord" and "terminal ord s fs kind = Inr (event, failure, result)"
  shows "res_Status result = drop 9 kind \<and> res_Usage result = res_Usage (s_result s) \<and> wf_response result \<and>
    (failure = None \<longleftrightarrow> drop 9 kind \<noteq> ''failed'')"
proof -
  let ?st = "drop 9 kind"
  have len: "length ''response.'' = 9" by simp
  obtain response0 response1 outp where r: "object ord (map_of fs ''response'') ''response'' [] = Inr response0"
    "with_status response0 ?st = Inr response1" "given_output ord response1 = Inr outp"
    "failure = snd (final_response s ?st response1 outp)"
    "result = (s_result s)\<lparr>res_Response := Some (marshal_fields (fst (final_response s ?st response1 outp))), res_Status := ?st\<rparr>"
    using assms(2) unfolding terminal_def len by (auto simp: bindR_Inr Let_def case_prod_beta)
  have "distinct (map fst response0)" using object_Inr(2) [OF assms(1) r(1)] .
  then have d1: "distinct (map fst response1)" "map_of response1 ''status'' = Some (JStr ?st)"
    using with_status_Inr [OF r(2)] by auto
  note final = final_response_fields [OF d1 r(3)]
  show ?thesis
    using wf_response_marshal [OF final(1,2,3)] final(4) by (simp add: r(4,5))
qed

lemma handle_event_inv:
  assumes "map_order ord" and "stream_inv s" and "\<not> s_ended s"
  shows "stream_inv (fst (handle_event ord cf s t data n))"
proof -
  have u: "wf_usage (res_Usage (s_result s))" and st: "res_Status (s_result s) = []" "res_Response (s_result s) = None"
    and e: "s_err s = None" "\<not> s_closed s" and it: "wf_items s"
    using assms(2,3) by (auto simp: stream_inv_def)
  have bad: "stream_inv (fst (badEvent cf s))" using u st by (intro badEvent_inv)
  show ?thesis
  proof (cases "object ord data ''event'' []")
    case (Inr fs)
    show ?thesis
    proof (cases "\<exists>kind. textValue (map_of fs ''type'') ''event.type'' False = Inr kind \<and> \<not> (t \<noteq> [] \<and> t \<noteq> kind)")
      case True
      then obtain kind where kind: "textValue (map_of fs ''type'') ''event.type'' False = Inr kind" "\<not> (t \<noteq> [] \<and> t \<noteq> kind)" by blast
      obtain s1 ok where s1: "observe_response ord s fs = (s1, ok)" by force
      obtain v where v: "s1 = s\<lparr>s_result := (s_result s)\<lparr>res_Usage := v\<rparr>\<rparr>" "wf_usage v"
        using observe_response_keeps [OF s1] u by blast
      have bad1: "stream_inv (fst (badEvent cf s1))" using v st by (intro badEvent_inv) simp_all
      have it1: "wf_items s1" using it by (simp add: v wf_items_def)
      have live: "stream_inv s2" if "wf_items s2" "s_result s2 = s_result s1" "s_ended s2 = s_ended s1" "s_err s2 = s_err s1" "s_closed s2 = s_closed s1" for s2
        using that v st e assms(3) by (simp add: stream_inv_def)
      have item: "stream_inv s2" if "output_item ord s1 fs n = Some s2" for s2
        using output_item_inv [OF that it1] live by blast
      have trm: "stream_inv (stream_finish cf (s1\<lparr>s_result := result\<rparr>) failure)"
        if "terminal ord s1 fs kind = Inr (event, failure, result)"
          "kind \<in> {''response.completed'', ''response.incomplete'', ''response.failed''}" for event failure result
      proof -
        have "drop 9 kind \<in> {''completed'', ''incomplete'', ''failed''}" using that(2) by auto
        then show ?thesis
          using terminal_result [OF assms(1) that(1)] v finish_err_None [of cf "s1\<lparr>s_result := result\<rparr>" failure]
          by (auto simp: stream_inv_def)
      qed
      have err: "stream_inv (stream_finish cf s1 (Some failure))" for failure
        using v st by (simp add: stream_inv_def)
      have pass: "stream_inv s1" using live [OF it1] by simp
      show ?thesis
        unfolding handle_event_def Inr sum.case kind(1) if_not_P [OF kind(2)] s1 prod.case
        using bad1 item trm err pass
        by (cases ok) (auto split: option.splits sum.splits prod.splits)
    next
      case False
      then show ?thesis using bad by (auto simp: handle_event_def Inr split: sum.splits)
    qed
  qed (simp add: handle_event_def bad)
qed

lemma stream_step_inv: "stream_step ord s s' \<Longrightarrow> map_order ord \<Longrightarrow> stream_inv s \<Longrightarrow> stream_inv s'"
proof (induction rule: stream_step.induct)
  case (1 s rd s' r)
  then show ?case by (auto simp: Stream_Next_def Let_def stream_inv_def split: if_splits)
next
  case (2 s rd t data n s' r)
  then show ?case
    using handle_event_inv [OF 2(3,4)] by (auto simp: Stream_Next_def split: if_splits) (metis fst_conv)
next
  case (3 ctx close_fails s s' e)
  then show ?case by (auto simp: Stream_Close_def Let_def closeBody_def stream_inv_def split: if_splits)
qed

interpretation stream_sys: invariant_system "\<lambda>s. s = newStream status cd" "stream_step ord"
    "\<lambda>s. map_order ord \<longrightarrow> stream_inv s" for status cd ord
proof unfold_locales
  fix s assume "s = newStream status cd"
  then show "map_order ord \<longrightarrow> stream_inv s"
    by (simp add: stream_inv_def newStream_def zero_Result_def wf_usage_def zero_Snapshot_def bad_counter_def zero_Counter_def
        wf_items_def item_sum_def maxPayload_def)
qed (use stream_step_inv in blast)

text \<open>
  C31. Whatever the upstream sends and whenever it fails or is closed, a stream that has ended
  without an error holds a terminal response with status completed or incomplete, whose JSON says
  so and has an output array; a stream that has not ended reports no error and no response; and
  every usage counter is nonnegative and zero when unknown.
\<close>

theorem stream_outcome:
  assumes "map_order ord" and "reachable (\<lambda>s. s = newStream status cd) (stream_step ord) s"
  shows "(s_ended s \<and> s_err s = None \<longrightarrow> res_Status (s_result s) \<in> {''completed'', ''incomplete''} \<and> wf_response (s_result s)) \<and>
    (\<not> s_ended s \<longrightarrow> s_err s = None \<and> res_Response (s_result s) = None \<and> item_sum (s_items s) \<le> maxPayload) \<and>
    wf_usage (res_Usage (s_result s))"
  using stream_sys.inv_reachable [OF assms(2)] assms(1) by (auto simp: stream_inv_def wf_items_def)

definition toy_completed :: json where
  "toy_completed = JObj [(''type'', JStr ''response.completed''),
     (''response'', JObj [(''id'', JStr ''r1''), (''usage'', JObj [(''total_tokens'', JNum ''7'')])])]"

definition toy_read :: read_state where
  "toy_read = \<lparr>rd_ctx = background, rd_body_err = None, rd_close_fails = False\<rparr>"

theorem stream_outcome_witness:
  "\<exists>s e. Stream_Next id (newStream 200 zero_Cooldown) toy_read (Delivered [] (Some toy_completed) 0) = (s, Inr e) \<and>
     s_ended s \<and> s_err s = None \<and> res_Status (s_result s) = ''completed'' \<and> wf_response (s_result s) \<and>
     res_Usage (s_result s) = zero_Snapshot\<lparr>u_Total := \<lparr>Tokens = 7, Known = True\<rparr>\<rparr>"
proof -
  let ?p = "Stream_Next id (newStream 200 zero_Cooldown) toy_read (Delivered [] (Some toy_completed) 0)"
  have r: "case snd ?p of Inr _ \<Rightarrow> True | Inl _ \<Rightarrow> False" by code_simp
  have s: "s_ended (fst ?p) \<and> s_err (fst ?p) = None \<and> res_Status (s_result (fst ?p)) = ''completed''" by code_simp
  have u: "res_Usage (s_result (fst ?p)) = zero_Snapshot\<lparr>u_Total := \<lparr>Tokens = 7, Known = True\<rparr>\<rparr>" by code_simp
  have "stream_step id (newStream 200 zero_Cooldown) (fst ?p)"
    by (rule stream_step.intros(2) [of id _ toy_read "[]" "Some toy_completed" 0 _ "snd ?p"]) simp_all
  then have "reachable (\<lambda>s. s = newStream 200 zero_Cooldown) (stream_step id) (fst ?p)"
    by (rule reach_step [OF reach_start [of "\<lambda>s. s = newStream 200 zero_Cooldown", OF refl]])
  moreover have "map_order id" by (simp add: map_order_def)
  ultimately have "wf_response (s_result (fst ?p))" using stream_outcome [of id 200 zero_Cooldown "fst ?p"] s by blast
  moreover obtain e where "snd ?p = Inr e" using r by (auto split: sum.splits)
  then have "?p = (fst ?p, Inr e)" by (metis prod.collapse)
  ultimately show ?thesis using s u by blast
qed

section \<open>Finality\<close>

lemma ended_step:
  "stream_step ord s s' \<Longrightarrow> s_ended s \<Longrightarrow> s_closed s \<Longrightarrow>
   s_ended s' \<and> s_closed s' \<and> s_err s' = s_err s \<and> s_result s' = s_result s \<and> s_closeErr s' = s_closeErr s"
  by (induction rule: stream_step.induct) (auto simp: Stream_Next_def Stream_Close_def Let_def closeBody_def)

lemma ended_steps:
  "(stream_step ord)\<^sup>*\<^sup>* s s' \<Longrightarrow> s_ended s \<Longrightarrow> s_closed s \<Longrightarrow>
   s_ended s' \<and> s_closed s' \<and> s_err s' = s_err s \<and> s_result s' = s_result s \<and> s_closeErr s' = s_closeErr s"
  by (induction rule: rtranclp_induct) (use ended_step in fastforce)+

text \<open>
  The outcome of a stream is final: once it has ended, later reads and closes in any number
  leave its error, result and cleanup error as they are, and every later \<open>Next\<close> returns that same
  error, or the end of the stream when there is none, and no event.
\<close>

theorem stream_outcome_final:
  assumes "map_order ord" and "reachable (\<lambda>s. s = newStream status cd) (stream_step ord) s" and "s_ended s"
    and "(stream_step ord)\<^sup>*\<^sup>* s s'"
  shows "s_err s' = s_err s \<and> s_result s' = s_result s \<and> CleanupError s' = CleanupError s \<and>
    Stream_Next ord s' rd d = (s', Inl (case s_err s of Some e \<Rightarrow> e | None \<Rightarrow> Sentinel EOF))"
proof -
  have "s_closed s" using stream_sys.inv_reachable [OF assms(2)] assms(1,3) by (simp add: stream_inv_def)
  from ended_steps [OF assms(4,3) this] show ?thesis using assms(3) by (simp add: CleanupError_def Stream_Next_def)
qed

theorem stream_outcome_final_witness:
  "Stream_Next id (fst (Stream_Close background False (newStream 200 zero_Cooldown))) toy_read (Delivered [] (Some toy_completed) 0) =
     (fst (Stream_Close background False (newStream 200 zero_Cooldown)),
      Inl (FailureErr (mk_Failure TransportFailure 200 False)))"
proof -
  let ?s = "fst (Stream_Close background False (newStream 200 zero_Cooldown))"
  have "stream_step id (newStream 200 zero_Cooldown) ?s"
    by (rule stream_step.intros(3) [of background False _ _ "snd (Stream_Close background False (newStream 200 zero_Cooldown))"]) simp
  then have reach: "reachable (\<lambda>s. s = newStream 200 zero_Cooldown) (stream_step id) ?s"
    by (rule reach_step [OF reach_start [of "\<lambda>s. s = newStream 200 zero_Cooldown", OF refl]])
  have "map_order id" by (simp add: map_order_def)
  moreover have "s_ended ?s" by code_simp
  moreover have "s_err ?s = Some (FailureErr (mk_Failure TransportFailure 200 False))" by code_simp
  ultimately show ?thesis using stream_outcome_final [OF _ reach _ rtranclp.rtrancl_refl] by simp
qed

section \<open>Error texts\<close>

definition category_set :: "Category set" where
  "category_set = {InvalidRequest, AccountProblem, ProviderLimit, ProviderFailure, TransportFailure, InvalidResponse}"

lemma responseFailure_category: "f_Category (responseFailure raw st) \<in> category_set"
  by (simp add: responseFailure_def Let_def category_set_def)

text \<open>The error object that a category alone determines.\<close>

definition safe_error :: "Category \<Rightarrow> json" where
  "safe_error c = JObj [(''code'', JStr c), (''message'', JStr (''codex: '' @ c))]"

lemma safeErrorJSON_eq: "safeErrorJSON f = safe_error (f_Category f)"
proof -
  have "sort_key fst [(''code'', x), (''message'', y)] = [(''code'', x), (''message'', y)]" for x y :: json
  proof (rule sort_key_id_if_sorted)
    have "''code'' \<le> ''message''" by code_simp
    then show "sorted (map fst [(''code'', x), (''message'', y)])" by simp
  qed
  then show ?thesis by (simp add: safeErrorJSON_def safe_error_def marshal_fields_def failure_message_def)
qed

lemma clean_error_fields:
  assumes "clean_error s fs raw = (event, failure)" and "map_of fs ''type'' = Some kind"
  shows "\<exists>m. event = JObj m \<and> map_of m ''type'' = Some kind \<and> map_of m ''code'' = Some (JStr (f_Category failure)) \<and>
    map_of m ''message'' = Some (JStr (''codex: '' @ f_Category failure)) \<and>
    fst ` set m \<subseteq> {''type'', ''code'', ''message'', ''param'', ''sequence_number''} \<and> f_Category failure \<in> category_set"
proof -
  let ?base = "[(''type'', kind), (''code'', JStr (f_Category failure)), (''message'', JStr (failure_message failure)), (''param'', JNull)]"
  obtain m where m: "event = marshal_fields m" "m = ?base \<or> (\<exists>n. m = set_field ?base ''sequence_number'' (JNum n))"
    "f_Category failure \<in> category_set"
    using assms responseFailure_category
    by (auto simp: clean_error_def Let_def split: option.splits json.splits sum.splits if_splits)
  have k: "fst ` set m \<subseteq> {''type'', ''code'', ''message'', ''param'', ''sequence_number''}" "distinct (map fst m)"
    using m(2) by (auto simp: set_field_def)
  then show ?thesis
    using m by (intro exI [of _ "sort_key fst m"])
      (auto simp: marshal_fields_def sort_key_fst_map_of failure_message_def simp del: map_of_eq_Some_iff)
qed

lemma terminal_error:
  assumes "map_order ord" and "terminal ord s fs ''response.failed'' = Inr (event, failure, result)" and "distinct (map fst fs)"
  shows "\<exists>f m r. failure = Some f \<and> f_Category f \<in> category_set \<and> event = JObj m \<and> map_of m ''response'' = Some (JObj r) \<and>
    res_Response result = Some (JObj r) \<and> map_of r ''error'' = Some (safe_error (f_Category f))"
proof -
  obtain response0 response1 outp where r: "object ord (map_of fs ''response'') ''response'' [] = Inr response0"
    "with_status response0 ''failed'' = Inr response1" "given_output ord response1 = Inr outp"
    "failure = snd (final_response s ''failed'' response1 outp)"
    "event = marshal_fields (set_field fs ''response'' (marshal_fields (fst (final_response s ''failed'' response1 outp))))"
    "result = (s_result s)\<lparr>res_Response := Some (marshal_fields (fst (final_response s ''failed'' response1 outp))), res_Status := ''failed''\<rparr>"
    using assms(2) by (auto simp: terminal_def bindR_Inr Let_def case_prod_beta)
  let ?fin = "final_response s ''failed'' response1 outp"
  have "distinct (map fst response0)" using object_Inr(2) [OF assms(1) r(1)] .
  then have d1: "distinct (map fst response1)" "map_of response1 ''status'' = Some (JStr ''failed'')"
    using with_status_Inr [OF r(2)] by auto
  have d: "distinct (map fst (fst ?fin))" by (rule final_response_fields [OF d1 r(3)])
  obtain f where f: "snd ?fin = Some f" "f_Category f \<in> category_set" "map_of (fst ?fin) ''error'' = Some (safe_error (f_Category f))"
    using responseFailure_category by (auto simp: final_response_def Let_def safeErrorJSON_eq)
  show ?thesis
    using f r(4-6) d assms(3)
    by (intro exI [of _ f] exI [of _ "sort_key fst (set_field fs ''response'' (marshal_fields (fst ?fin)))"] exI [of _ "sort_key fst (fst ?fin)"])
       (simp add: marshal_fields_def sort_key_fst_map_of del: map_of_eq_Some_iff)
qed

lemma handle_event_error_kind:
  assumes "handle_event ord cf s t data n = (s', Inr event)" and "object ord data ''event'' [] = Inr fs" and "map_of fs ''type'' = Some (JStr kind)"
  shows "kind = ''error'' \<Longrightarrow> \<exists>s1. event = fst (clean_error s1 fs (the data))"
    and "kind = ''response.failed'' \<Longrightarrow> \<exists>s1 failure. terminal ord s1 fs kind = Inr (event, failure, s_result s')"
  using assms
  by (auto simp: handle_event_def textValue_def badEvent_def Let_def case_prod_beta split: if_splits prod.splits bool.splits option.splits sum.splits)
     blast+

text \<open>
  C32. Provider error texts do not pass the reader: an event of type error is replaced by one that
  has only the five protocol fields, with one of CLAN's own categories as its code and a fixed
  message, and the error of a failed response, in the event and in the recorded result, is the
  object that the category alone determines.
\<close>

theorem provider_errors_replaced:
  assumes "map_order ord" and "\<not> s_ended s" and "Stream_Next ord s rd (Delivered t data n) = (s', Inr event)"
    and "data = Some (JObj d)" and "map_of (dedup d) ''type'' = Some (JStr kind)"
  shows "(kind = ''error'' \<longrightarrow> (\<exists>m. \<exists>c \<in> category_set. event = JObj m \<and> map_of m ''code'' = Some (JStr c) \<and>
        map_of m ''message'' = Some (JStr (''codex: '' @ c)) \<and>
        fst ` set m \<subseteq> {''type'', ''code'', ''message'', ''param'', ''sequence_number''})) \<and>
    (kind = ''response.failed'' \<longrightarrow> (\<exists>m r. \<exists>c \<in> category_set. event = JObj m \<and> map_of m ''response'' = Some (JObj r) \<and>
        res_Response (s_result s') = Some (JObj r) \<and> map_of r ''error'' = Some (safe_error c)))"
proof -
  have h: "handle_event ord (rd_close_fails rd) s t data n = (s', Inr event)" using assms(2,3) by (simp add: Stream_Next_def)
  have ob: "object ord data ''event'' [] = Inr (dedup d)" by (simp add: object_def assms(4))
  show ?thesis
  proof (intro conjI impI)
    assume "kind = ''error''"
    then obtain s1 where "event = fst (clean_error s1 (dedup d) (the data))" using handle_event_error_kind(1) [OF h ob assms(5)] by blast
    then obtain f where "clean_error s1 (dedup d) (the data) = (event, f)" by (metis prod.collapse)
    from clean_error_fields [OF this assms(5)]
    show "\<exists>m. \<exists>c \<in> category_set. event = JObj m \<and> map_of m ''code'' = Some (JStr c) \<and>
        map_of m ''message'' = Some (JStr (''codex: '' @ c)) \<and>
        fst ` set m \<subseteq> {''type'', ''code'', ''message'', ''param'', ''sequence_number''}" by blast
  next
    assume k: "kind = ''response.failed''"
    then obtain s1 failure where "terminal ord s1 (dedup d) kind = Inr (event, failure, s_result s')"
      using handle_event_error_kind(2) [OF h ob assms(5)] by blast
    from terminal_error [OF assms(1) this [unfolded k] dedup_distinct]
    show "\<exists>m r. \<exists>c \<in> category_set. event = JObj m \<and> map_of m ''response'' = Some (JObj r) \<and>
        res_Response (s_result s') = Some (JObj r) \<and> map_of r ''error'' = Some (safe_error c)" by blast
  qed
qed

definition toy_failed :: json where
  "toy_failed = JObj [(''type'', JStr ''error''), (''error'', JObj [(''code'', JStr ''slow_down''), (''message'', JStr ''secret'')])]"

theorem provider_errors_replaced_witness:
  "\<exists>s' event m. Stream_Next id (newStream 200 zero_Cooldown) toy_read (Delivered [] (Some toy_failed) 0) = (s', Inr event) \<and>
     event = JObj m \<and> fst ` set m \<subseteq> {''type'', ''code'', ''message'', ''param'', ''sequence_number''}"
proof -
  let ?p = "Stream_Next id (newStream 200 zero_Cooldown) toy_read (Delivered [] (Some toy_failed) 0)"
  have "case snd ?p of Inr _ \<Rightarrow> True | Inl _ \<Rightarrow> False" by code_simp
  then obtain e where e: "?p = (fst ?p, Inr e)" by (metis (no_types, lifting) prod.collapse sum.case_eq_if sum.collapse(2))
  have d: "Some toy_failed = Some (JObj [(''type'', JStr ''error''),
      (''error'', JObj [(''code'', JStr ''slow_down''), (''message'', JStr ''secret'')])])" by (simp add: toy_failed_def)
  have "map_order id" by (simp add: map_order_def)
  moreover have "\<not> s_ended (newStream 200 zero_Cooldown)" by (simp add: newStream_def)
  ultimately show ?thesis using provider_errors_replaced [OF _ _ e d, of "''error''"] e by auto
qed

end
