(* ===== verification/Catalog.thy ===== *)
theory Catalog
  imports CodexClient
begin

text \<open>
  \<open>internal/codex/catalog.go\<close>: model discovery. Entries and refresh jobs are Go pointers that the
  code compares by identity, so each carries the number under which it was allocated. A call under
  the catalog's mutex is one step; \<open>Snapshot\<close> is its start of due refreshes, the waits (which touch
  nothing) and the final read. Clock readings, the outcome of a fetch, and the JSON decoding of the
  model list are arguments.
\<close>

section \<open>Back-off\<close>

definition catalogTTL :: duration where "catalogTTL = 5 * Minute"
definition catalogInitialRetry :: duration where "catalogInitialRetry = 1 * Second"
definition catalogMaxRetry :: duration where "catalogMaxRetry = catalogTTL"

definition retryGap :: "int \<Rightarrow> duration" where
  "retryGap failures =
     (if failures \<le> 1 then catalogInitialRetry
      else if failures > 9 then catalogMaxRetry
      else let gap = wrap64 (catalogInitialRetry * 2 ^ nat (failures - 1)) in
           if gap > catalogMaxRetry then catalogMaxRetry else gap)"

section \<open>The wire list\<close>

record wire_model =
  wm_ID :: string
  wm_Name :: string
  wm_Visibility :: string
  wm_Reasoning :: "string list"
  wm_Summary :: "bool option"
  wm_Verbosity :: bool
  wm_OriginalImage :: bool
  wm_Modalities :: "string list option" \<comment> \<open>\<open>None\<close> is a nil slice\<close>

definition wire_to_model :: "wire_model \<Rightarrow> Model option" where
  "wire_to_model item =
     (let modalities = (case wm_Modalities item of None \<Rightarrow> [''text'', ''image''] | Some ms \<Rightarrow> ms) in
      if list_ex (\<lambda>m. m \<notin> {''text'', ''image'', ''audio''}) modalities then None
      else if list_ex blank (wm_Reasoning item) then None
      else Some \<lparr>m_ID = wm_ID item, m_Name = wm_Name item, m_Listed = (wm_Visibility item = ''list''),
                 m_ReasoningEfforts = wm_Reasoning item, m_InputModalities = modalities,
                 m_SupportsReasoningSummary = (case wm_Summary item of None \<Rightarrow> True | Some b \<Rightarrow> b),
                 m_SupportsVerbosity = wm_Verbosity item, m_SupportsImageDetailOriginal = wm_OriginalImage item\<rparr>)"

fun convert_models :: "string list \<Rightarrow> wire_model list \<Rightarrow> Model list option" where
  "convert_models seen [] = Some []"
| "convert_models seen (item # items) =
     (if blank (wm_ID item) \<or> wm_ID item \<in> set seen \<or> wm_Visibility item \<notin> {''list'', ''hide'', ''none''} then None
      else case wire_to_model item of
             None \<Rightarrow> None
           | Some model \<Rightarrow> map_option (\<lambda>ms. model # ms) (convert_models (wm_ID item # seen) items))"

text \<open>
  \<open>FetchModels\<close>: \<open>resp\<close> is the outcome of \<open>do\<close>, \<open>read\<close> of reading its body, \<open>decode\<close> of
  \<open>json.Unmarshal\<close> into the wire list (\<open>None\<close>: an error or a nil list), and \<open>ctx\<close> the five-second
  context afterwards.
\<close>

definition FetchModels ::
  "attempt_env \<Rightarrow> Ctx \<Rightarrow> (raw \<Rightarrow> wire_model list option) \<Rightarrow> payload Response result \<Rightarrow> int \<times> raw \<times> error option \<Rightarrow> Model list result" where
  "FetchModels env ctx decode resp read =
     bindR resp (\<lambda>response.
       let invalidResponse = httpFailure (ae_ParseTime env) (ae_now env) response in
       case readPayload read of
         Inl err \<Rightarrow>
           (let category = (if errors_Is err ErrPayloadTooLarge then InvalidResponse else TransportFailure)
            in Inl (FailureErr ((safeFailure ctx category (rs_StatusCode response) (Some err))
                      \<lparr>f_RetryAfter := f_RetryAfter invalidResponse\<rparr>)))
       | Inr data \<Rightarrow>
           (case decode data of
              None \<Rightarrow> Inl (FailureErr invalidResponse)
            | Some wire \<Rightarrow>
                (case convert_models [] wire of
                   None \<Rightarrow> Inl (FailureErr invalidResponse)
                 | Some models \<Rightarrow> Inr models)))"

section \<open>State\<close>

record catalogEntry =
  ent_ref :: nat
  ent_account :: Account
  ent_models :: "Model list"
  ent_loaded :: bool
  ent_everLoaded :: bool
  ent_failure :: "Failure option"
  ent_failures :: int
  ent_nextRefresh :: time
  ent_refresh :: "nat option" \<comment> \<open>the running job\<close>

record job =
  job_id :: nat
  job_entry :: nat
  job_account :: Account

record Catalog =
  cat_closed :: bool
  cat_accounts :: "(string \<times> catalogEntry) list"
  cat_next :: nat
  cat_jobs :: "job list" \<comment> \<open>goroutines that have not finished\<close>
  cat_canceled :: "nat list" \<comment> \<open>jobs whose context was canceled\<close>

definition NewCatalog :: Catalog where
  "NewCatalog = \<lparr>cat_closed = False, cat_accounts = [], cat_next = 0, cat_jobs = [], cat_canceled = []\<rparr>"

record AccountCatalog =
  ac_AccountID :: string
  ac_ChatGPTAccountID :: string
  ac_Models :: "Model list"
  ac_Loaded :: bool
  ac_Failure :: "Failure option"

record CatalogSnapshot =
  cs_Accounts :: "AccountCatalog list"
  cs_Listed :: "Model list"

abbreviation account_id_of :: "Account \<Rightarrow> string" where
  "account_id_of a \<equiv> ai_ID (acc_identity a)"

abbreviation chatgpt_id_of :: "Account \<Rightarrow> string" where
  "chatgpt_id_of a \<equiv> ChatGPTAccountID (acc_credentials a)"

section \<open>Membership\<close>

fun active_accounts :: "(string \<times> Account) list \<Rightarrow> Account list \<Rightarrow> (string \<times> Account) list result" where
  "active_accounts active [] = Inr active"
| "active_accounts active (a # accounts) =
     (let i = account_id_of a in
      if i = [] \<or> ValidateCredentials (acc_credentials a) \<noteq> None then Inl (PlainErr ''codex: invalid catalog account'')
      else if map_of active i \<noteq> None then Inl (PlainErr ''codex: duplicate catalog account'')
      else active_accounts (active @ [(i, a)]) accounts)"

definition update_entry :: "catalogEntry \<Rightarrow> Account \<Rightarrow> catalogEntry" where
  "update_entry entry a =
     (let entry =
        (if acc_credentials (ent_account entry) \<noteq> acc_credentials a then
           (let entry = entry\<lparr>ent_refresh := None\<rparr>;
                entry = (if chatgpt_id_of (ent_account entry) \<noteq> chatgpt_id_of a
                         then entry\<lparr>ent_models := [], ent_loaded := False, ent_everLoaded := False\<rparr> else entry)
            in entry\<lparr>ent_failure := None, ent_failures := 0, ent_nextRefresh := 0\<rparr>)
         else entry)
      in entry\<lparr>ent_account := a\<rparr>)"

definition new_entry :: "nat \<Rightarrow> Account \<Rightarrow> catalogEntry" where
  "new_entry ref a =
     \<lparr>ent_ref = ref, ent_account = a, ent_models = [], ent_loaded = False, ent_everLoaded = False, ent_failure = None,
      ent_failures = 0, ent_nextRefresh = 0, ent_refresh = None\<rparr>"

fun add_entries :: "nat \<Rightarrow> (string \<times> catalogEntry) list \<Rightarrow> (string \<times> Account) list \<Rightarrow> nat \<times> (string \<times> catalogEntry) list" where
  "add_entries next es [] = (next, es)"
| "add_entries next es ((i, a) # active) =
     (if map_of es i \<noteq> None then add_entries next es active
      else add_entries (Suc next) (es @ [(i, new_entry next a)]) active)"

text \<open>The jobs whose context \<open>SetAccounts\<close> cancels: of removed entries and of changed credentials.\<close>

definition dropped_jobs :: "(string \<times> catalogEntry) list \<Rightarrow> (string \<times> Account) list \<Rightarrow> nat list" where
  "dropped_jobs es active =
     List.map_filter (\<lambda>(i, entry).
       case map_of active i of
         None \<Rightarrow> ent_refresh entry
       | Some a \<Rightarrow> if acc_credentials (ent_account entry) \<noteq> acc_credentials a then ent_refresh entry else None) es"

definition SetAccounts :: "Catalog \<Rightarrow> Account list \<Rightarrow> Catalog \<times> error option" where
  "SetAccounts c accounts =
     (if cat_closed c then (c, Some (Sentinel ErrCatalogClosed))
      else case active_accounts [] accounts of
             Inl err \<Rightarrow> (c, Some err)
           | Inr active \<Rightarrow>
               (let kept = List.map_filter (\<lambda>(i, entry). map_option (\<lambda>a. (i, update_entry entry a)) (map_of active i)) (cat_accounts c);
                    (next, es) = add_entries (cat_next c) kept active
                in (c\<lparr>cat_accounts := es, cat_next := next,
                      cat_canceled := cat_canceled c @ dropped_jobs (cat_accounts c) active\<rparr>, None)))"

section \<open>Snapshots and refreshes\<close>

fun start_refreshes ::
  "(string \<Rightarrow> time \<times> time) \<Rightarrow> nat \<Rightarrow> (string \<times> catalogEntry) list \<Rightarrow> nat \<times> (string \<times> catalogEntry) list \<times> job list" where
  "start_refreshes clock next [] = (next, [], [])"
| "start_refreshes clock next ((i, entry) # es) =
     (if ent_refresh entry = None \<and> \<not> fst (clock i) < ent_nextRefresh entry then
        (let entry' = entry\<lparr>ent_refresh := Some next, ent_nextRefresh := snd (clock i) + catalogTTL\<rparr>;
             (next', es', jobs) = start_refreshes clock (Suc next) es
         in (next', (i, entry') # es', \<lparr>job_id = next, job_entry = ent_ref entry, job_account = ent_account entry\<rparr> # jobs))
      else
        (let (next', es', jobs) = start_refreshes clock next es in (next', (i, entry) # es', jobs)))"

text \<open>One turn of the loop in \<open>Snapshot\<close>: the new state and the jobs to wait for, none of which ends it.\<close>

definition snapshot_begin :: "(string \<Rightarrow> time \<times> time) \<Rightarrow> ctx_error option \<Rightarrow> Catalog \<Rightarrow> Catalog \<times> nat list result" where
  "snapshot_begin clock ctx c =
     (case ctx of
        Some e \<Rightarrow> (c, Inl (CtxErr e))
      | None \<Rightarrow>
          if cat_closed c then (c, Inl (Sentinel ErrCatalogClosed))
          else
            (let (next, es, jobs) = start_refreshes clock (cat_next c) (cat_accounts c)
             in (c\<lparr>cat_next := next, cat_accounts := es, cat_jobs := cat_jobs c @ jobs\<rparr>,
                 Inr (List.map_filter (\<lambda>(_, entry). ent_refresh entry) es))))"

fun add_listed :: "Model list \<Rightarrow> Model list \<Rightarrow> Model list" where
  "add_listed listed [] = listed"
| "add_listed listed (m # ms) =
     (if m_Listed m \<and> m_ID m \<notin> m_ID ` set listed then add_listed (listed @ [m]) ms else add_listed listed ms)"

definition account_catalog :: "string \<times> catalogEntry \<Rightarrow> AccountCatalog" where
  "account_catalog ie =
     \<lparr>ac_AccountID = fst ie, ac_ChatGPTAccountID = chatgpt_id_of (ent_account (snd ie)),
      ac_Models = ent_models (snd ie), ac_Loaded = ent_loaded (snd ie), ac_Failure = ent_failure (snd ie)\<rparr>"

definition snapshot_result :: "Catalog \<Rightarrow> CatalogSnapshot \<times> error option" where
  "snapshot_result c =
     (let es = sort_key fst (cat_accounts c);
          listed = foldl (\<lambda>acc ie. add_listed acc (ent_models (snd ie))) [] es;
          result = \<lparr>cs_Accounts = map account_catalog es, cs_Listed = sort_key m_ID listed\<rparr>;
          failed = list_ex (\<lambda>ie. ent_failure (snd ie) \<noteq> None) es;
          loaded = list_ex (\<lambda>ie. ent_loaded (snd ie)) es
      in (result, if failed \<and> \<not> loaded then Some (Sentinel ErrCatalogUnavailable) else None))"

definition transient :: "Failure \<Rightarrow> bool" where
  "transient f \<longleftrightarrow> f_Category f = TransportFailure \<or> f_Category f = ProviderLimit \<or> f_HTTPStatus f \<ge> 500"

definition refreshed_entry :: "time \<Rightarrow> Model list result \<Rightarrow> catalogEntry \<Rightarrow> catalogEntry" where
  "refreshed_entry now outcome entry =
     (let entry = entry\<lparr>ent_refresh := None, ent_failure := None\<rparr> in
      case outcome of
        Inr models \<Rightarrow>
          entry\<lparr>ent_models := models, ent_loaded := True, ent_everLoaded := True, ent_failures := 0, ent_nextRefresh := now + catalogTTL\<rparr>
      | Inl err \<Rightarrow>
          (let failure = (case as_Failure err of Some f \<Rightarrow> f | None \<Rightarrow> mk_Failure TransportFailure 0 False);
               entry = entry\<lparr>ent_failure := Some failure\<rparr>;
               entry = (if transient failure then entry else entry\<lparr>ent_models := [], ent_loaded := False\<rparr>)
           in if ent_everLoaded entry then entry\<lparr>ent_nextRefresh := now + catalogTTL\<rparr>
              else entry\<lparr>ent_failures := ent_failures entry + 1, ent_nextRefresh := now + retryGap (ent_failures entry + 1)\<rparr>))"

text \<open>The end of a job: its result counts only for the entry and the job it was started for.\<close>

definition refresh :: "time \<Rightarrow> Model list result \<Rightarrow> Catalog \<Rightarrow> job \<Rightarrow> Catalog" where
  "refresh now outcome c j =
     (let c = c\<lparr>cat_jobs := filter (\<lambda>k. job_id k \<noteq> job_id j) (cat_jobs c), cat_canceled := cat_canceled c @ [job_id j]\<rparr>;
          i = account_id_of (job_account j)
      in case map_of (cat_accounts c) i of
           None \<Rightarrow> c
         | Some entry \<Rightarrow>
             if ent_ref entry \<noteq> job_entry j \<or> ent_refresh entry \<noteq> Some (job_id j) then c
             else c\<lparr>cat_accounts := AList.update i (refreshed_entry now outcome entry) (cat_accounts c)\<rparr>)"

definition Catalog_Close :: "Catalog \<Rightarrow> Catalog" where
  "Catalog_Close c =
     c\<lparr>cat_closed := True,
       cat_canceled := cat_canceled c @ List.map_filter (\<lambda>(_, entry). ent_refresh entry) (cat_accounts c)\<rparr>"

text \<open>
  \<open>Snapshot\<close> as a whole: a turn is the context and the clocks it reads at the head of its loop, what
  the other goroutines do to the catalog while it waits, and its context after the waits. A call
  whose turns are used up before it returns has no result.
\<close>

record snapshot_turn =
  st_ctx :: "ctx_error option"
  st_clock :: "string \<Rightarrow> time \<times> time"
  st_others :: "Catalog \<Rightarrow> Catalog"
  st_wait :: "ctx_error option"

fun Snapshot_run :: "snapshot_turn list \<Rightarrow> Catalog \<Rightarrow> Catalog \<times> (CatalogSnapshot \<times> error option) result option" where
  "Snapshot_run [] c = (c, None)"
| "Snapshot_run (t # ts) c =
     (case snapshot_begin (st_clock t) (st_ctx t) c of
        (c', Inl err) \<Rightarrow> (c', Some (Inl err))
      | (c', Inr waits) \<Rightarrow>
          if waits = [] then (c', Some (Inr (snapshot_result c')))
          else case st_wait t of
                 Some e \<Rightarrow> (st_others t c', Some (Inl (CtxErr e)))
               | None \<Rightarrow> Snapshot_run ts (st_others t c'))"

text \<open>
  The steps of a catalog. \<open>fetched i\<close> is the set of model lists the provider may answer for the
  ChatGPT identity \<open>i\<close>; a job fetches with the credentials it was started with.
\<close>

inductive catalog_step :: "(string \<Rightarrow> Model list set) \<Rightarrow> Catalog \<Rightarrow> Catalog \<Rightarrow> bool" for fetched where
  set_accounts: "SetAccounts c accounts = (c', r) \<Longrightarrow> catalog_step fetched c c'"
| begin_snapshot: "snapshot_begin clock ctx c = (c', r) \<Longrightarrow> catalog_step fetched c c'"
| finish_job: "j \<in> set (cat_jobs c) \<Longrightarrow> (\<And>ms. outcome = Inr ms \<Longrightarrow> ms \<in> fetched (chatgpt_id_of (job_account j))) \<Longrightarrow>
    refresh now outcome c j = c' \<Longrightarrow> catalog_step fetched c c'"
| close: "Catalog_Close c = c' \<Longrightarrow> catalog_step fetched c c'"

inductive_cases catalog_stepE: "catalog_step fetched c c'"

end
