(* ===== verification/CatalogLaws.thy ===== *)
theory CatalogLaws
  imports Catalog StorageLaws
begin

text \<open>
  Laws of the model catalog: the back-off, the membership that \<open>SetAccounts\<close> decides alone, the
  identity to which listed capabilities belong, and the content of a snapshot.
\<close>

section \<open>Back-off\<close>

lemma retryGap_small: "1 < n \<Longrightarrow> n \<le> 9 \<Longrightarrow> n \<in> {2, 3, 4, 5, 6, 7, 8, 9 :: int}"
  by auto

lemma pow_large:
  assumes "n > (9 :: int)" shows "(512 :: int) \<le> 2 ^ nat (n - 1)"
proof -
  have "(2 :: int) ^ 9 \<le> 2 ^ nat (n - 1)"
    using assms by (intro power_increasing) auto
  then show ?thesis by simp
qed

text \<open>
  The delay after a number of failed first loads is exactly one second doubled for every
  further failure and capped at five minutes: the shift in the code never overflows, so the delay
  is never zero or negative, however many failures there were.
\<close>

theorem retryGap_exponential:
  "retryGap failures =
     (if failures \<le> 1 then catalogInitialRetry else min catalogMaxRetry (catalogInitialRetry * 2 ^ nat (failures - 1)))
   \<and> catalogInitialRetry \<le> retryGap failures \<and> retryGap failures \<le> catalogMaxRetry"
proof -
  note defs = retryGap_def catalogInitialRetry_def catalogMaxRetry_def catalogTTL_def
  consider "failures \<le> 1" | "failures > 9" | "1 < failures" "failures \<le> 9" by linarith
  then show ?thesis
  proof cases
    case 1 then show ?thesis by (simp add: defs)
  next
    case 2
    with pow_large [OF 2] show ?thesis by (simp add: defs)
  next
    case 3
    from retryGap_small [OF this] show ?thesis
      by (elim insertE emptyE) (simp_all add: defs wrap64_def Let_def)
  qed
qed

section \<open>Invariant\<close>

definition entry_ok :: "(string \<Rightarrow> Model list set) \<Rightarrow> nat \<Rightarrow> string \<Rightarrow> catalogEntry \<Rightarrow> bool" where
  "entry_ok fetched n i e \<longleftrightarrow>
     account_id_of (ent_account e) = i \<and> ent_ref e < n \<and> (\<forall>k. ent_refresh e = Some k \<longrightarrow> k < n) \<and>
     (if ent_loaded e then ent_models e \<in> fetched (chatgpt_id_of (ent_account e)) else ent_models e = [])"

definition job_ok :: "nat \<Rightarrow> (string \<times> catalogEntry) list \<Rightarrow> job \<Rightarrow> bool" where
  "job_ok n es j \<longleftrightarrow> job_id j < n \<and>
     (\<forall>i e. (i, e) \<in> set es \<longrightarrow> ent_refresh e = Some (job_id j) \<longrightarrow> acc_credentials (ent_account e) = acc_credentials (job_account j))"

definition cat_inv :: "(string \<Rightarrow> Model list set) \<Rightarrow> Catalog \<Rightarrow> bool" where
  [inv_defs]: "cat_inv fetched c \<longleftrightarrow>
     distinct (map fst (cat_accounts c)) \<and>
     (\<forall>i e. (i, e) \<in> set (cat_accounts c) \<longrightarrow> entry_ok fetched (cat_next c) i e) \<and>
     (\<forall>j \<in> set (cat_jobs c). job_ok (cat_next c) (cat_accounts c) j)"

lemma entry_ok_mono: "entry_ok fetched n i e \<Longrightarrow> n \<le> m \<Longrightarrow> entry_ok fetched m i e"
  by (auto simp: entry_ok_def)

lemma update_entry_ok:
  "entry_ok fetched n i e \<Longrightarrow> account_id_of a = i \<Longrightarrow> entry_ok fetched n i (update_entry e a)"
  by (auto simp: entry_ok_def update_entry_def Let_def)

lemma update_entry_refresh:
  "ent_refresh (update_entry e a) = Some k \<Longrightarrow> ent_refresh e = Some k \<and> acc_credentials (ent_account e) = acc_credentials a"
  by (auto simp: update_entry_def Let_def split: if_splits)

lemma update_entry_simps [simp]:
  "ent_account (update_entry e a) = a" "ent_ref (update_entry e a) = ent_ref e"
  by (simp_all add: update_entry_def Let_def)

lemma new_entry_simps [simp]:
  "ent_account (new_entry n a) = a" "ent_ref (new_entry n a) = n" "ent_refresh (new_entry n a) = None"
  "ent_loaded (new_entry n a) = False" "ent_models (new_entry n a) = []"
  by (simp_all add: new_entry_def)

lemma active_accounts_Inr:
  "active_accounts acc accounts = Inr active \<Longrightarrow> distinct (map fst acc) \<Longrightarrow>
    active = acc @ map (\<lambda>a. (account_id_of a, a)) accounts \<and> distinct (map fst active)"
proof (induction acc accounts rule: active_accounts.induct)
  case (2 acc a accounts)
  from "2.prems"(1) have ok: "\<not> (account_id_of a = [] \<or> ValidateCredentials (acc_credentials a) \<noteq> None)"
    by (simp add: Let_def split: if_splits)
  from "2.prems"(1) ok have none: "\<not> map_of acc (account_id_of a) \<noteq> None"
    by (simp add: Let_def split: if_splits)
  from none have new: "account_id_of a \<notin> fst ` set acc" by (simp add: map_of_eq_None_iff)
  from "2.prems"(1) ok none have "active_accounts (acc @ [(account_id_of a, a)]) accounts = Inr active"
    by (simp add: Let_def)
  note IH = "2.IH" [OF refl ok none this]
  from new "2.prems"(2) have "distinct (map fst (acc @ [(account_id_of a, a)]))" by simp
  from IH [OF this] show ?case unfolding list.map append_assoc append_Cons append_Nil .
qed auto

lemma add_entries_spec:
  "add_entries n es active = (m, es') \<Longrightarrow> distinct (map fst es) \<Longrightarrow>
    n \<le> m \<and> distinct (map fst es') \<and> set es \<subseteq> set es' \<and> fst ` set es' = fst ` set es \<union> fst ` set active \<and>
    (\<forall>(i, e) \<in> set es' - set es. \<exists>k a. (i, a) \<in> set active \<and> n \<le> k \<and> k < m \<and> e = new_entry k a)"
proof (induction n es active rule: add_entries.induct)
  case (2 n es i a active)
  show ?case
  proof (cases "map_of es i")
    case None
    then have new: "i \<notin> fst ` set es" by (simp add: map_of_eq_None_iff)
    from "2.prems"(1) None have "add_entries (Suc n) (es @ [(i, new_entry n a)]) active = (m, es')" by simp
    from "2.IH"(2) [OF _ this] None new "2.prems"(2)
    have IH: "Suc n \<le> m \<and> distinct (map fst es') \<and> set (es @ [(i, new_entry n a)]) \<subseteq> set es' \<and>
        fst ` set es' = fst ` set (es @ [(i, new_entry n a)]) \<union> fst ` set active \<and>
        (\<forall>(i', e) \<in> set es' - set (es @ [(i, new_entry n a)]).
           \<exists>k b. (i', b) \<in> set active \<and> Suc n \<le> k \<and> k < m \<and> e = new_entry k b)" by simp
    have "\<exists>k b. (i', b) \<in> set ((i, a) # active) \<and> n \<le> k \<and> k < m \<and> e = new_entry k b"
      if "(i', e) \<in> set es' - set es" for i' e
    proof (cases "(i', e) = (i, new_entry n a)")
      case True
      with IH show ?thesis by (intro exI [of _ n] exI [of _ a]) auto
    next
      case False
      with that have "(i', e) \<in> set es' - set (es @ [(i, new_entry n a)])" by simp
      from bspec [OF conjunct2 [OF conjunct2 [OF conjunct2 [OF conjunct2 [OF IH]]]] this]
      have "\<exists>k b. (i', b) \<in> set active \<and> Suc n \<le> k \<and> k < m \<and> e = new_entry k b" by simp
      then show ?thesis by (metis Suc_leD list.set_intros(2))
    qed
    with IH show ?thesis by auto
  next
    case (Some e)
    then have i: "i \<in> fst ` set es" by (metis domI dom_map_of_conv_image_fst)
    from "2.prems"(1) Some have "add_entries n es active = (m, es')" by simp
    from "2.IH"(1) [OF _ this "2.prems"(2)] Some i show ?thesis by (auto simp: insert_absorb) blast
  qed
qed auto

lemma kept_entry_mem:
  "(i, e) \<in> set (List.map_filter (\<lambda>(i, entry). map_option (\<lambda>a. (i, update_entry entry a)) (map_of active i)) es) \<Longrightarrow>
    \<exists>e0 a. (i, e0) \<in> set es \<and> (i, a) \<in> set active \<and> e = update_entry e0 a"
  by (induction es) (auto simp: List.map_filter_simps split: option.splits dest: map_of_SomeD)

lemma kept_entries_distinct:
  "distinct (map fst es) \<Longrightarrow>
    distinct (map fst (List.map_filter (\<lambda>(i, entry). map_option (\<lambda>a. (i, update_entry entry a)) (map_of active i)) es))"
proof (induction es)
  case (Cons ie es)
  have "fst ie \<notin> fst ` set (List.map_filter (\<lambda>(i, entry). map_option (\<lambda>a. (i, update_entry entry a)) (map_of active i)) es)"
  proof
    assume "fst ie \<in> fst ` set (List.map_filter (\<lambda>(i, entry). map_option (\<lambda>a. (i, update_entry entry a)) (map_of active i)) es)"
    then obtain e where "(fst ie, e) \<in> set (List.map_filter (\<lambda>(i, entry). map_option (\<lambda>a. (i, update_entry entry a)) (map_of active i)) es)"
      by force
    from kept_entry_mem [OF this] have "fst ie \<in> fst ` set es" by (metis fst_conv image_eqI)
    with Cons.prems show False by simp
  qed
  with Cons show ?case by (cases ie; cases "map_of active (fst ie)") (simp_all add: List.map_filter_simps)
qed (simp add: List.map_filter_simps)

text \<open>What a successful \<open>SetAccounts\<close> leaves: every entry is a kept one, updated, or a new one.\<close>

lemma SetAccounts_spec:
  assumes "SetAccounts c accounts = (c', None)" and "distinct (map fst (cat_accounts c))"
  defines "active \<equiv> map (\<lambda>a. (account_id_of a, a)) accounts"
  shows "distinct (map account_id_of accounts)" and "distinct (map fst (cat_accounts c'))" and "cat_next c \<le> cat_next c'"
    and "cat_jobs c' = cat_jobs c" and "fst ` set (cat_accounts c') = account_id_of ` set accounts"
    and "\<And>i e. (i, e) \<in> set (cat_accounts c') \<Longrightarrow>
       (\<exists>e0 a. (i, e0) \<in> set (cat_accounts c) \<and> (i, a) \<in> set active \<and> e = update_entry e0 a) \<or>
       (\<exists>k a. (i, a) \<in> set active \<and> k < cat_next c' \<and> e = new_entry k a)"
proof -
  define kept where "kept = List.map_filter (\<lambda>(i, entry). map_option (\<lambda>a. (i, update_entry entry a)) (map_of active i)) (cat_accounts c)"
  from assms(1) obtain ac where ac: "active_accounts [] accounts = Inr ac"
    by (auto simp: SetAccounts_def split: if_splits sum.splits)
  from active_accounts_Inr [OF ac] have ac': "ac = active" and dist: "distinct (map fst active)"
    by (auto simp: active_def)
  from dist show "distinct (map account_id_of accounts)" by (simp add: active_def comp_def)
  from assms(1) ac ac' have add: "add_entries (cat_next c) kept active = (cat_next c', cat_accounts c')"
    and jobs: "cat_jobs c' = cat_jobs c"
    by (auto simp: SetAccounts_def kept_def Let_def split: if_splits prod.splits)
  have mem: "\<And>i e. (i, e) \<in> set kept \<Longrightarrow> \<exists>e0 a. (i, e0) \<in> set (cat_accounts c) \<and> (i, a) \<in> set active \<and> e = update_entry e0 a"
    using kept_entry_mem by (simp add: kept_def)
  then have kept: "distinct (map fst kept)" "fst ` set kept \<subseteq> fst ` set active"
    using kept_entries_distinct [OF assms(2)] by (auto simp: kept_def) (force simp: kept_def)
  note spec = add_entries_spec [OF add kept(1)]
  from spec show "distinct (map fst (cat_accounts c'))" and "cat_next c \<le> cat_next c'" by auto
  from spec kept(2) show "fst ` set (cat_accounts c') = account_id_of ` set accounts"
    by (auto simp: active_def image_image)
  show "cat_jobs c' = cat_jobs c" by (rule jobs)
  fix i e assume "(i, e) \<in> set (cat_accounts c')"
  with spec mem show "(\<exists>e0 a. (i, e0) \<in> set (cat_accounts c) \<and> (i, a) \<in> set active \<and> e = update_entry e0 a) \<or>
       (\<exists>k a. (i, a) \<in> set active \<and> k < cat_next c' \<and> e = new_entry k a)" by blast
qed

lemma SetAccounts_error: "SetAccounts c accounts = (c', Some err) \<Longrightarrow> c' = c"
  by (auto simp: SetAccounts_def Let_def split: if_splits sum.splits prod.splits)

lemma SetAccounts_inv:
  assumes "cat_inv fetched c" and "SetAccounts c accounts = (c', r)"
  shows "cat_inv fetched c'"
proof (cases r)
  case (Some err)
  with assms SetAccounts_error show ?thesis by metis
next
  case None
  with assms have set: "SetAccounts c accounts = (c', None)" and d: "distinct (map fst (cat_accounts c))"
    and es: "\<And>i e. (i, e) \<in> set (cat_accounts c) \<Longrightarrow> entry_ok fetched (cat_next c) i e"
    and jobs: "\<And>j. j \<in> set (cat_jobs c) \<Longrightarrow> job_ok (cat_next c) (cat_accounts c) j"
    by (auto simp: cat_inv_def)
  note spec = SetAccounts_spec [OF set d]
  have "entry_ok fetched (cat_next c') i e" if "(i, e) \<in> set (cat_accounts c')" for i e
    using spec(6) [OF that] spec(3) es
    by (auto intro!: update_entry_ok intro: entry_ok_mono) (auto simp: entry_ok_def)
  moreover have "job_ok (cat_next c') (cat_accounts c') j" if "j \<in> set (cat_jobs c)" for j
    using jobs [OF that] spec(3) spec(6) unfolding job_ok_def
    by (fastforce dest: update_entry_refresh)
  ultimately show ?thesis using spec(2,4) by (auto simp: cat_inv_def)
qed

lemma start_refreshes_spec:
  "start_refreshes clock n es = (m, es', js) \<Longrightarrow>
    n \<le> m \<and> map (\<lambda>(i, e). (i, ent_ref e, ent_account e, ent_models e, ent_loaded e)) es' =
      map (\<lambda>(i, e). (i, ent_ref e, ent_account e, ent_models e, ent_loaded e)) es \<and>
    (\<forall>(i, e) \<in> set es'. (i, e) \<in> set es \<or>
       (\<exists>k. ent_refresh e = Some k \<and> n \<le> k \<and> k < m \<and> (\<forall>j \<in> set js. job_id j = k \<longrightarrow> job_account j = ent_account e))) \<and>
    (\<forall>j \<in> set js. n \<le> job_id j \<and> job_id j < m)"
proof (induction clock n es arbitrary: m es' js rule: start_refreshes.induct)
  case (2 clock n i entry es)
  show ?case
  proof (cases "ent_refresh entry = None \<and> \<not> fst (clock i) < ent_nextRefresh entry")
    case True
    obtain m0 es0 js0 where r: "start_refreshes clock (Suc n) es = (m0, es0, js0)" by (cases "start_refreshes clock (Suc n) es")
    with 2 True have "m = m0" and "es' = (i, entry\<lparr>ent_refresh := Some n, ent_nextRefresh := snd (clock i) + catalogTTL\<rparr>) # es0"
      and "js = \<lparr>job_id = n, job_entry = ent_ref entry, job_account = ent_account entry\<rparr> # js0"
      by (auto simp: Let_def)
    with "2.IH"(1) [OF True refl r] show ?thesis by fastforce
  next
    case False
    obtain m0 es0 js0 where r: "start_refreshes clock n es = (m0, es0, js0)" by (cases "start_refreshes clock n es")
    with 2 False have "m = m0" and "es' = (i, entry) # es0" and "js = js0" by (auto simp: Let_def)
    with "2.IH"(2) [OF False r] show ?thesis by auto
  qed
qed auto

lemma start_refreshes_jobs:
  assumes st: "start_refreshes clock n es = (m, es', js)" and j: "j \<in> set (js0 @ js)"
    and old: "\<And>j. j \<in> set js0 \<Longrightarrow> job_ok n es j" and bound: "\<And>i e k. (i, e) \<in> set es \<Longrightarrow> ent_refresh e = Some k \<Longrightarrow> k < n"
  shows "job_ok m es' j"
proof -
  note spec = start_refreshes_spec [OF st]
  have entry: "(i, e) \<in> set es \<or> (\<exists>k. ent_refresh e = Some k \<and> n \<le> k \<and> k < m \<and> (\<forall>j \<in> set js. job_id j = k \<longrightarrow> job_account j = ent_account e))"
    if "(i, e) \<in> set es'" for i e using spec that by auto
  show ?thesis
  proof (cases "j \<in> set js0")
    case True
    from old [OF True] have jn: "job_id j < n"
      and cred: "\<And>i e. (i, e) \<in> set es \<Longrightarrow> ent_refresh e = Some (job_id j) \<Longrightarrow> acc_credentials (ent_account e) = acc_credentials (job_account j)"
      by (auto simp: job_ok_def)
    have "acc_credentials (ent_account e) = acc_credentials (job_account j)"
      if "(i, e) \<in> set es'" "ent_refresh e = Some (job_id j)" for i e
      using entry [OF that(1)] cred [of i e] jn that(2) by auto
    with jn spec show ?thesis by (auto simp: job_ok_def)
  next
    case False
    with j spec have js: "j \<in> set js" and jn: "n \<le> job_id j" "job_id j < m" by auto
    have "acc_credentials (ent_account e) = acc_credentials (job_account j)"
      if "(i, e) \<in> set es'" "ent_refresh e = Some (job_id j)" for i e
      using entry [OF that(1)] bound [of i e] js jn that(2) by auto
    with jn show ?thesis by (auto simp: job_ok_def)
  qed
qed

lemma snapshot_begin_inv:
  assumes inv: "cat_inv fetched c" and beg: "snapshot_begin clock ctx c = (c', r)"
  shows "cat_inv fetched c'"
proof (cases "ctx = None \<and> \<not> cat_closed c")
  case False
  with beg have "c' = c" by (auto simp: snapshot_begin_def split: option.splits)
  with inv show ?thesis by simp
next
  case True
  obtain m es js where st: "start_refreshes clock (cat_next c) (cat_accounts c) = (m, es, js)"
    by (cases "start_refreshes clock (cat_next c) (cat_accounts c)")
  with beg True have c': "c' = c\<lparr>cat_next := m, cat_accounts := es, cat_jobs := cat_jobs c @ js\<rparr>"
    by (auto simp: snapshot_begin_def)
  note spec = start_refreshes_spec [OF st]
  from spec have proj: "map (\<lambda>(i, e). (i, ent_ref e, ent_account e, ent_models e, ent_loaded e)) es =
      map (\<lambda>(i, e). (i, ent_ref e, ent_account e, ent_models e, ent_loaded e)) (cat_accounts c)" by simp
  from arg_cong [OF proj, of "map fst"] have "map fst es = map fst (cat_accounts c)"
    by (simp add: comp_def case_prod_beta)
  with inv have d: "distinct (map fst es)" by (simp add: cat_inv_def)
  have "entry_ok fetched m i e" if "(i, e) \<in> set es" for i e
  proof -
    from that have "(i, ent_ref e, ent_account e, ent_models e, ent_loaded e) \<in>
        set (map (\<lambda>(i, e). (i, ent_ref e, ent_account e, ent_models e, ent_loaded e)) es)"
      unfolding set_map by (rule rev_image_eqI) simp
    then obtain e0 where e0: "(i, e0) \<in> set (cat_accounts c)"
      and same: "ent_ref e0 = ent_ref e" "ent_account e0 = ent_account e" "ent_models e0 = ent_models e" "ent_loaded e0 = ent_loaded e"
      unfolding proj by auto
    from inv e0 have ok0: "entry_ok fetched (cat_next c) i e0" by (auto simp: cat_inv_def)
    have "k < m" if "ent_refresh e = Some k" for k
    proof -
      from spec \<open>(i, e) \<in> set es\<close> that consider "(i, e) \<in> set (cat_accounts c)" | "k < m" by auto
      then show ?thesis using inv spec that by cases (fastforce simp: cat_inv_def entry_ok_def)+
    qed
    with ok0 same spec show ?thesis by (auto simp: entry_ok_def)
  qed
  moreover have "job_ok m es j" if "j \<in> set (cat_jobs c @ js)" for j
    using inv that by (intro start_refreshes_jobs [OF st]) (auto simp: cat_inv_def entry_ok_def)
  ultimately show ?thesis using d by (auto simp: c' cat_inv_def)
qed

lemma refreshed_entry_simps [simp]:
  "ent_account (refreshed_entry now r e) = ent_account e" "ent_ref (refreshed_entry now r e) = ent_ref e"
  "ent_refresh (refreshed_entry now r e) = None"
  by (auto simp: refreshed_entry_def Let_def split: sum.splits)

lemma refreshed_entry_ok:
  assumes "entry_ok fetched n i e" and "\<And>ms. r = Inr ms \<Longrightarrow> ms \<in> fetched (chatgpt_id_of (ent_account e))"
  shows "entry_ok fetched n i (refreshed_entry now r e)"
  using assms by (cases r) (auto simp: entry_ok_def refreshed_entry_def Let_def)

lemma refresh_cases:
  obtains "cat_accounts (refresh now r c j) = cat_accounts c"
  | e where "map_of (cat_accounts c) (account_id_of (job_account j)) = Some e" "ent_refresh e = Some (job_id j)"
      "cat_accounts (refresh now r c j) = AList.update (account_id_of (job_account j)) (refreshed_entry now r e) (cat_accounts c)"
proof (cases "map_of (cat_accounts c) (account_id_of (job_account j))")
  case None
  then have "cat_accounts (refresh now r c j) = cat_accounts c" by (simp add: refresh_def Let_def)
  with that(1) show ?thesis .
next
  case (Some e)
  with that show ?thesis
    by (cases "ent_ref e \<noteq> job_entry j \<or> ent_refresh e \<noteq> Some (job_id j)") (simp_all add: refresh_def Let_def)
qed

lemma refresh_frame:
  "cat_next (refresh now r c j) = cat_next c" "cat_closed (refresh now r c j) = cat_closed c"
  "set (cat_jobs (refresh now r c j)) \<subseteq> set (cat_jobs c)"
  by (auto simp: refresh_def Let_def split: option.splits)

lemma in_set_update:
  "distinct (map fst al) \<Longrightarrow> (i, v) \<in> set (AList.update k w al) \<longleftrightarrow> (if i = k then v = w else (i, v) \<in> set al)"
  by (metis distinct_update map_of_eq_Some_iff update_conv' fun_upd_apply option.inject)

lemma refresh_inv:
  assumes inv: "cat_inv fetched c" and j: "j \<in> set (cat_jobs c)"
    and ms: "\<And>ms. r = Inr ms \<Longrightarrow> ms \<in> fetched (chatgpt_id_of (job_account j))"
  shows "cat_inv fetched (refresh now r c j)"
proof (cases rule: refresh_cases [of now r c j])
  case 1
  with inv refresh_frame [of now r c j] show ?thesis by (auto simp: cat_inv_def)
next
  case (2 e)
  let ?i = "account_id_of (job_account j)"
  from inv have d: "distinct (map fst (cat_accounts c))" by (simp add: cat_inv_def)
  from 2(1) have mem: "(?i, e) \<in> set (cat_accounts c)" by (rule map_of_SomeD)
  with inv j 2(2) have cred: "acc_credentials (ent_account e) = acc_credentials (job_account j)"
    by (fastforce simp: cat_inv_def job_ok_def)
  with inv mem ms have "entry_ok fetched (cat_next c) ?i (refreshed_entry now r e)"
    by (intro refreshed_entry_ok) (auto simp: cat_inv_def)
  moreover have "job_ok (cat_next c) (cat_accounts (refresh now r c j)) j'" if "j' \<in> set (cat_jobs c)" for j'
    using inv that unfolding job_ok_def 2(3) by (auto simp: in_set_update [OF d] cat_inv_def job_ok_def split: if_splits)
  ultimately show ?thesis using inv d refresh_frame [of now r c j]
    by (auto simp: cat_inv_def 2(3) distinct_update in_set_update split: if_splits)
qed

lemma Close_inv: "cat_inv fetched c \<Longrightarrow> cat_inv fetched (Catalog_Close c)"
  by (simp add: cat_inv_def Catalog_Close_def)

interpretation catalog_sys: invariant_system "\<lambda>c. c = NewCatalog" "catalog_step fetched" "cat_inv fetched"
proof
  fix c c' assume "cat_inv fetched c" and "catalog_step fetched c c'"
  then show "cat_inv fetched c'"
    by (elim catalog_stepE) (auto intro: SetAccounts_inv snapshot_begin_inv refresh_inv Close_inv)
qed (simp add: cat_inv_def NewCatalog_def)

section \<open>Membership\<close>

definition members :: "Catalog \<Rightarrow> (string \<times> Account) set" where
  "members c = (\<lambda>(i, e). (i, ent_account e)) ` set (cat_accounts c)"

text \<open>The steps that are not a successful change of membership.\<close>

inductive quiet_step :: "Catalog \<Rightarrow> Catalog \<Rightarrow> bool" where
  refused: "SetAccounts c accounts = (c', Some err) \<Longrightarrow> quiet_step c c'"
| begins: "snapshot_begin clock ctx c = (c', r) \<Longrightarrow> quiet_step c c'"
| finishes: "refresh now outcome c j = c' \<Longrightarrow> quiet_step c c'"
| closes: "Catalog_Close c = c' \<Longrightarrow> quiet_step c c'"

lemma SetAccounts_members:
  assumes "SetAccounts c accounts = (c', None)" and "distinct (map fst (cat_accounts c))"
  shows "members c' = (\<lambda>a. (account_id_of a, a)) ` set accounts"
proof -
  note spec = SetAccounts_spec [OF assms]
  have sub: "members c' \<subseteq> (\<lambda>a. (account_id_of a, a)) ` set accounts"
    using spec(6) by (auto simp: members_def) (metis (no_types, lifting) image_eqI new_entry_simps(1) update_entry_simps(1))+
  have "(account_id_of a, a) \<in> members c'" if "a \<in> set accounts" for a
  proof -
    from that spec(5) have "account_id_of a \<in> fst ` members c'" by (force simp: members_def)
    then obtain b where b: "(account_id_of a, b) \<in> members c'" by force
    with sub have "b \<in> set accounts" and "account_id_of b = account_id_of a" by auto
    with spec(1) that have "b = a" by (metis distinct_map inj_onD)
    with b show ?thesis by simp
  qed
  with sub show ?thesis by auto
qed

lemma start_refreshes_members:
  "start_refreshes clock n es = (m, es', js) \<Longrightarrow>
    map (\<lambda>(i, e). (i, ent_account e)) es' = map (\<lambda>(i, e). (i, ent_account e)) es"
  by (induction clock n es arbitrary: m es' js rule: start_refreshes.induct) (auto simp: Let_def split: if_splits prod.splits)

lemma update_members:
  "map_of es i = Some e \<Longrightarrow> ent_account e' = ent_account e \<Longrightarrow>
    map (\<lambda>(i, e). (i, ent_account e)) (AList.update i e' es) = map (\<lambda>(i, e). (i, ent_account e)) es"
  by (induction es) (auto split: if_splits)

lemma quiet_members: "quiet_step c c' \<Longrightarrow> members c' = members c"
proof (induction rule: quiet_step.induct)
  case (begins clock ctx c c' r)
  then show ?case using start_refreshes_members [of clock "cat_next c" "cat_accounts c"]
    by (auto simp: snapshot_begin_def members_def set_map [symmetric] simp del: set_map split: option.splits if_splits prod.splits)
next
  case (finishes now outcome c j c')
  then show ?case
    by (cases rule: refresh_cases [of now outcome c j])
      (auto simp: members_def set_map [symmetric] update_members simp del: set_map)
qed (auto simp: members_def Catalog_Close_def dest: SetAccounts_error)

lemma quiet_members_steps: "quiet_step\<^sup>*\<^sup>* c c' \<Longrightarrow> members c' = members c"
  by (induction rule: rtranclp_induct) (auto dest: quiet_members)

text \<open>
  \<open>SetAccounts\<close> is the sole authority for membership: after a successful call the catalog holds
  exactly the given accounts, and no refresh that ends later, no snapshot, no refused call and no
  \<open>Close\<close> adds, removes or replaces one; a refused call changes nothing.
\<close>

theorem catalog_membership:
  assumes "reachable (\<lambda>c. c = NewCatalog) (catalog_step fetched) c" and "SetAccounts c accounts = (c', r)"
  shows "(case r of
            None \<Rightarrow> (\<forall>c''. quiet_step\<^sup>*\<^sup>* c' c'' \<longrightarrow> members c'' = (\<lambda>a. (account_id_of a, a)) ` set accounts)
          | Some err \<Rightarrow> c' = c)"
proof -
  from catalog_sys.inv_reachable [OF assms(1)] have "distinct (map fst (cat_accounts c))" by (simp add: cat_inv_def)
  with assms(2) have "members c' = (\<lambda>a. (account_id_of a, a)) ` set accounts" if "r = None"
    using that SetAccounts_members by blast
  with assms(2) show ?thesis by (auto split: option.splits dest: quiet_members_steps SetAccounts_error)
qed

definition toy_catalog :: Catalog where
  "toy_catalog = fst (SetAccounts NewCatalog [toy_account])"

definition toy_listed :: Model where
  "toy_listed = \<lparr>m_ID = ''m'', m_Name = ''M'', m_Listed = True, m_ReasoningEfforts = [], m_InputModalities = [''text''],
     m_SupportsReasoningSummary = True, m_SupportsVerbosity = False, m_SupportsImageDetailOriginal = False\<rparr>"

definition toy_job :: job where
  "toy_job = \<lparr>job_id = 1, job_entry = 0, job_account = toy_account\<rparr>"

definition toy_refreshing :: Catalog where
  "toy_refreshing = fst (snapshot_begin (\<lambda>_. (7, 7)) None toy_catalog)"

lemma toy_catalog_reachable: "reachable (\<lambda>c. c = NewCatalog) (catalog_step fetched) toy_catalog"
  unfolding toy_catalog_def
  by (rule reach_step [OF reach_start]) (rule refl, rule catalog_step.set_accounts, rule prod.collapse [symmetric])

lemma toy_accounts_set: "SetAccounts NewCatalog [toy_account] = (toy_catalog, None)"
  by code_simp

theorem catalog_membership_witness:
  "quiet_step\<^sup>*\<^sup>* toy_catalog (refresh 9 (Inr [toy_listed]) toy_refreshing toy_job) \<and>
   members (refresh 9 (Inr [toy_listed]) toy_refreshing toy_job) = {(account_id_of toy_account, toy_account)}"
proof -
  have steps: "quiet_step\<^sup>*\<^sup>* toy_catalog (refresh 9 (Inr [toy_listed]) toy_refreshing toy_job)"
    unfolding toy_refreshing_def
    by (rule converse_rtranclp_into_rtranclp [OF quiet_step.begins r_into_rtranclp [of quiet_step, OF quiet_step.finishes]])
      (rule prod.collapse [symmetric], rule refl)
  with catalog_membership [OF reach_start toy_accounts_set] show ?thesis by simp
qed

section \<open>Snapshots\<close>

lemma add_listed_distinct: "distinct (map m_ID acc) \<Longrightarrow> distinct (map m_ID (add_listed acc ms))"
  by (induction acc ms rule: add_listed.induct) auto

lemma add_listed_subset: "set (add_listed acc ms) \<subseteq> set acc \<union> set (filter m_Listed ms)"
  by (induction acc ms rule: add_listed.induct) (simp_all, blast+)

lemma add_listed_ids: "m_ID ` set (add_listed acc ms) = m_ID ` set acc \<union> m_ID ` set (filter m_Listed ms)"
proof (induction acc ms rule: add_listed.induct)
  case (2 acc m ms)
  then show ?case by (cases "m_Listed m"; cases "m_ID m \<in> m_ID ` set acc") (auto simp del: set_filter)
qed simp

lemma listed_spec:
  "distinct (map m_ID acc) \<Longrightarrow>
    (let l = foldl (\<lambda>acc ie. add_listed acc (ent_models (snd ie))) acc es;
         every = set (concat (map (\<lambda>ie. filter m_Listed (ent_models (snd ie))) es))
     in distinct (map m_ID l) \<and> set l \<subseteq> set acc \<union> every \<and> m_ID ` set l = m_ID ` set acc \<union> m_ID ` every)"
proof (induction es arbitrary: acc)
  case (Cons ie es)
  from add_listed_distinct [OF Cons.prems] have d: "distinct (map m_ID (add_listed acc (ent_models (snd ie))))" .
  from Cons.IH [OF d] add_listed_subset [of acc "ent_models (snd ie)"] show ?case
    by (simp only: Let_def add_listed_ids foldl.simps list.map concat.simps set_append image_Un Un_assoc) blast
qed simp

definition visible :: "CatalogSnapshot \<Rightarrow> Model set" where
  "visible s = {m. \<exists>a \<in> set (cs_Accounts s). m \<in> set (ac_Models a) \<and> m_Listed m}"

lemma snapshot_result_spec:
  assumes inv: "cat_inv fetched c" and res: "snapshot_result c = (s, err)"
  shows "sorted_wrt (<) (map ac_AccountID (cs_Accounts s))" and "set (map ac_AccountID (cs_Accounts s)) = fst ` members c"
    and "\<forall>a \<in> set (cs_Accounts s). if ac_Loaded a then ac_Models a \<in> fetched (ac_ChatGPTAccountID a) else ac_Models a = []"
    and "sorted_wrt (<) (map m_ID (cs_Listed s))" and "set (cs_Listed s) \<subseteq> visible s" and "m_ID ` set (cs_Listed s) = m_ID ` visible s"
    and "err \<noteq> None \<longleftrightarrow> (\<exists>a \<in> set (cs_Accounts s). ac_Failure a \<noteq> None) \<and> (\<forall>a \<in> set (cs_Accounts s). \<not> ac_Loaded a)"
proof -
  define es where "es = sort_key fst (cat_accounts c)"
  define l where "l = foldl (\<lambda>acc ie. add_listed acc (ent_models (snd ie))) [] es"
  from res have s: "cs_Accounts s = map account_catalog es" "cs_Listed s = sort_key m_ID l"
    and e: "err = (if list_ex (\<lambda>ie. ent_failure (snd ie) \<noteq> None) es \<and> \<not> list_ex (\<lambda>ie. ent_loaded (snd ie)) es
                   then Some (Sentinel ErrCatalogUnavailable) else None)"
    by (auto simp: snapshot_result_def Let_def es_def l_def)
  have set_es: "set es = set (cat_accounts c)" by (simp add: es_def)
  from inv have "distinct (map fst es)" by (simp add: cat_inv_def es_def distinct_map)
  moreover have "sorted (map fst es)" by (simp add: es_def)
  ultimately show "sorted_wrt (<) (map ac_AccountID (cs_Accounts s))"
    by (simp add: s(1) account_catalog_def comp_def strict_sorted_iff)
  show "set (map ac_AccountID (cs_Accounts s)) = fst ` members c"
    by (simp add: s(1) account_catalog_def members_def set_es image_image case_prod_beta)
  show "\<forall>a \<in> set (cs_Accounts s). if ac_Loaded a then ac_Models a \<in> fetched (ac_ChatGPTAccountID a) else ac_Models a = []"
    using inv by (auto simp: s(1) set_es account_catalog_def cat_inv_def entry_ok_def)
  have vis: "visible s = set (concat (map (\<lambda>ie. filter m_Listed (ent_models (snd ie))) es))"
    by (auto simp: visible_def s(1) account_catalog_def)
  have l: "distinct (map m_ID l)" "set l \<subseteq> visible s" "m_ID ` set l = m_ID ` visible s"
    using listed_spec [of "[]" es] by (simp_all add: Let_def l_def vis del: set_concat set_filter)
  then show "sorted_wrt (<) (map m_ID (cs_Listed s))" and "set (cs_Listed s) \<subseteq> visible s" and "m_ID ` set (cs_Listed s) = m_ID ` visible s"
    by (simp_all add: s(2) strict_sorted_iff distinct_map)
  show "err \<noteq> None \<longleftrightarrow> (\<exists>a \<in> set (cs_Accounts s). ac_Failure a \<noteq> None) \<and> (\<forall>a \<in> set (cs_Accounts s). \<not> ac_Loaded a)"
    by (simp add: e s(1) account_catalog_def list_ex_iff)
qed

lemma Snapshot_run_inv:
  "Snapshot_run ts c = (c', Some (Inr (s, err))) \<Longrightarrow> cat_inv fetched c \<Longrightarrow>
    (\<And>t c. t \<in> set ts \<Longrightarrow> (catalog_step fetched)\<^sup>*\<^sup>* c (st_others t c)) \<Longrightarrow>
    cat_inv fetched c' \<and> snapshot_result c' = (s, err)"
proof (induction ts arbitrary: c)
  case (Cons t ts)
  obtain c1 r where beg: "snapshot_begin (st_clock t) (st_ctx t) c = (c1, r)" by (cases "snapshot_begin (st_clock t) (st_ctx t) c")
  then have inv1: "cat_inv fetched c1" using Cons.prems(2) by (rule snapshot_begin_inv [rotated])
  from Cons.prems(1) beg obtain waits where r: "r = Inr waits" by (cases r) auto
  show ?case
  proof (cases "waits = []")
    case True
    with Cons.prems(1) beg r inv1 show ?thesis by auto
  next
    case False
    with Cons.prems(1) beg r have rest: "Snapshot_run ts (st_others t c1) = (c', Some (Inr (s, err)))"
      by (auto split: option.splits)
    have "cat_inv fetched (st_others t c1)"
      using catalog_sys.inv_steps [OF Cons.prems(3) inv1] by simp
    from Cons.IH [OF rest this] Cons.prems(3) show ?thesis by auto
  qed
qed simp


definition toy_turns :: "snapshot_turn list" where
  "toy_turns =
     [\<lparr>st_ctx = None, st_clock = (\<lambda>_. (7, 7)), st_others = (\<lambda>c. if toy_job \<in> set (cat_jobs c) then refresh 9 (Inr [toy_listed]) c toy_job else c),
       st_wait = None\<rparr>,
      \<lparr>st_ctx = None, st_clock = (\<lambda>_. (10, 10)), st_others = (\<lambda>c. c), st_wait = None\<rparr>]"


end
