(* ===== verification/OAuthClient.thy ===== *)
theory OAuthClient
  imports CodexClient Base64
begin

text \<open>
  \<open>internal/codexoauth/client.go\<close>: the token endpoint of the OAuth provider. The HTTP transport, the
  parsers of \<open>net/url\<close>, \<open>net\<close>, \<open>mime\<close> and of JSON text, the generators of \<open>golang.org/x/oauth2\<close> and
  the clock are arguments; struct decoding, the checks on tokens and the classification of failures
  are translated.
\<close>

section \<open>Configuration\<close>

definition DefaultIssuer :: string where "DefaultIssuer = ''https://auth.openai.com''"
definition RedirectURI :: string where "RedirectURI = ''http://localhost:1455/auth/callback''"
definition clientID :: string where "clientID = ''app_EMoamEEZ73f0CkXaXp7hrann''"
definition maxTokenBody :: int where "maxTokenBody = 1048576"

text \<open>What \<open>url.Parse\<close> gives, as far as it is read.\<close>

record parsed_url =
  pu_Scheme :: string
  pu_Host :: string
  pu_Hostname :: string
  pu_RawQuery :: string
  pu_ForceQuery :: bool
  pu_User :: bool
  pu_Path :: string

record oauth_Client =
  oc_AuthURL :: string
  oc_TokenURL :: string
  oc_timeout :: duration

definition TrimRight_slash :: "string \<Rightarrow> string" where
  "TrimRight_slash s = rev (dropWhile (\<lambda>c. c = CHR ''/'') (rev s))"

text \<open>\<open>timeout\<close> is \<open>None\<close> when there is no HTTP client; \<open>loopbackIP\<close> is \<open>net.ParseIP(h).IsLoopback()\<close>.\<close>

definition oauth_NewClient ::
  "(string \<Rightarrow> parsed_url option) \<Rightarrow> (string \<Rightarrow> bool) \<Rightarrow> duration option \<Rightarrow> string \<Rightarrow> oauth_Client result" where
  "oauth_NewClient parse loopbackIP timeout issuer =
     (case timeout of
        None \<Rightarrow> Inl (PlainErr ''codex oauth: HTTP client is required'')
      | Some timeout \<Rightarrow>
          (let issuer = (if issuer = [] then DefaultIssuer else issuer) in
           case parse issuer of
             None \<Rightarrow> Inl (PlainErr ''codex oauth: invalid issuer'')
           | Some u \<Rightarrow>
               if pu_Host u = [] then Inl (PlainErr ''codex oauth: invalid issuer'')
               else
                 (let loopback = (pu_Hostname u = ''localhost'' \<or> loopbackIP (pu_Hostname u)) in
                  if pu_Scheme u \<noteq> ''https'' \<and> \<not> (pu_Scheme u = ''http'' \<and> loopback)
                  then Inl (PlainErr ''codex oauth: issuer requires HTTPS'')
                  else
                    (let hasSuffix = (pu_RawQuery u \<noteq> [] \<or> pu_ForceQuery u \<or> CHR ''#'' \<in> set issuer) in
                     if pu_User u \<or> hasSuffix \<or> TrimSet (pu_Path u) ''/'' \<noteq> [] then Inl (PlainErr ''codex oauth: invalid issuer'')
                     else
                       (let issuer = TrimRight_slash issuer in
                        Inr \<lparr>oc_AuthURL = issuer @ ''/oauth/authorize'', oc_TokenURL = issuer @ ''/oauth/token'',
                             oc_timeout = (if timeout \<le> 0 \<or> timeout > 30 * Second then 30 * Second else timeout)\<rparr>)))))"

record Authorization =
  au_URL :: string
  au_State :: string
  au_Verifier :: string

definition zero_Authorization :: Authorization where
  "zero_Authorization = \<lparr>au_URL = [], au_State = [], au_Verifier = []\<rparr>"

text \<open>\<open>state\<close> and \<open>verifier\<close> are two calls of \<open>oauth2.GenerateVerifier\<close>; \<open>authCodeURL\<close> is the library's URL.\<close>

definition Begin :: "(string \<Rightarrow> string \<Rightarrow> string) \<Rightarrow> string \<Rightarrow> string \<Rightarrow> Authorization" where
  "Begin authCodeURL state verifier = \<lparr>au_URL = authCodeURL state verifier, au_State = state, au_Verifier = verifier\<rparr>"

section \<open>Token fields\<close>

text \<open>
  A byte below \<open>0x20\<close> or equal to \<open>0x7f\<close> is a rune of its own in any byte string, so the rune search
  is a byte search.
\<close>

definition validField :: "string \<Rightarrow> bool" where
  "validField value \<longleftrightarrow> \<not> blank value \<and> \<not> list_ex (\<lambda>c. (of_char c :: nat) < 0x20 \<or> (of_char c :: nat) = 0x7f) value"

definition expirySeconds :: "raw \<Rightarrow> int option" where
  "expirySeconds raw =
     (case int64Value raw 0 of
        None \<Rightarrow> None
      | Some seconds \<Rightarrow> if seconds > 0 \<and> seconds \<le> max_int64 div Second then Some seconds else None)"

text \<open>\<open>decodeMetadata\<close>: \<open>parse\<close> is the JSON reader, \<open>dst\<close> the decoding of the value into the struct.\<close>

definition decodeMetadata :: "(bytes \<Rightarrow> raw) \<Rightarrow> (raw \<Rightarrow> 'a option) \<Rightarrow> string \<Rightarrow> 'a option" where
  "decodeMetadata parse dst token =
     (case Split token (CHR ''.'') of
        [_, payload, _] \<Rightarrow> (case RawURL_Decode payload of None \<Rightarrow> None | Some bs \<Rightarrow> dst (parse bs))
      | _ \<Rightarrow> None)"

definition store_bool :: "json \<Rightarrow> bool \<Rightarrow> bool option" where
  "store_bool v old = (case v of JBool b \<Rightarrow> Some b | JNull \<Rightarrow> Some old | _ \<Rightarrow> None)"

text \<open>A struct of the identity token: account ID and FedRAMP flag.\<close>

definition store_auth_field :: "(string \<times> bool) option \<Rightarrow> string \<times> json \<Rightarrow> (string \<times> bool) option" where
  "store_auth_field acc kv =
     (case acc of
        None \<Rightarrow> None
      | Some (account, fed) \<Rightarrow>
          if field_is ''chatgpt_account_id'' (fst kv) then map_option (\<lambda>s. (s, fed)) (store_string (snd kv) account)
          else if field_is ''chatgpt_account_is_fedramp'' (fst kv) then map_option (\<lambda>b. (account, b)) (store_bool (snd kv) fed)
          else acc)"

definition store_auth :: "(string \<times> bool) option \<Rightarrow> string \<times> json \<Rightarrow> (string \<times> bool) option" where
  "store_auth acc kv =
     (if acc \<noteq> None \<and> field_is ''https://api.openai.com/auth'' (fst kv) then
        (case snd kv of JNull \<Rightarrow> acc | JObj m \<Rightarrow> foldl store_auth_field acc m | _ \<Rightarrow> None)
      else acc)"

definition decode_auth :: "raw \<Rightarrow> (string \<times> bool) option" where
  "decode_auth data =
     (case data of Some JNull \<Rightarrow> Some ([], False) | Some (JObj m) \<Rightarrow> foldl store_auth (Some ([], False)) m | _ \<Rightarrow> None)"

definition decode_exp :: "raw \<Rightarrow> int option" where
  "decode_exp data =
     (case data of
        Some JNull \<Rightarrow> Some 0
      | Some (JObj m) \<Rightarrow>
          foldl (\<lambda>acc kv. if field_is ''exp'' (fst kv) then Option.bind acc (int64Value (Some (snd kv))) else acc) (Some 0) m
      | _ \<Rightarrow> None)"

record tokenResponse =
  tr_AccessToken :: "string option"
  tr_RefreshToken :: "string option"
  tr_IDToken :: "string option"
  tr_TokenType :: string
  tr_ExpiresIn :: raw
  tr_Error :: raw

definition store_pointer :: "json \<Rightarrow> string option option" where
  "store_pointer v = (case v of JStr s \<Rightarrow> Some (Some s) | JNull \<Rightarrow> Some None | _ \<Rightarrow> None)"

definition store_token_field :: "tokenResponse option \<Rightarrow> string \<times> json \<Rightarrow> tokenResponse option" where
  "store_token_field acc kv =
     (case acc of
        None \<Rightarrow> None
      | Some w \<Rightarrow>
          if field_is ''access_token'' (fst kv) then map_option (\<lambda>p. w\<lparr>tr_AccessToken := p\<rparr>) (store_pointer (snd kv))
          else if field_is ''refresh_token'' (fst kv) then map_option (\<lambda>p. w\<lparr>tr_RefreshToken := p\<rparr>) (store_pointer (snd kv))
          else if field_is ''id_token'' (fst kv) then map_option (\<lambda>p. w\<lparr>tr_IDToken := p\<rparr>) (store_pointer (snd kv))
          else if field_is ''token_type'' (fst kv) then map_option (\<lambda>s. w\<lparr>tr_TokenType := s\<rparr>) (store_string (snd kv) (tr_TokenType w))
          else if field_is ''expires_in'' (fst kv) then Some (w\<lparr>tr_ExpiresIn := Some (snd kv)\<rparr>)
          else if field_is ''error'' (fst kv) then Some (w\<lparr>tr_Error := Some (snd kv)\<rparr>)
          else acc)"

definition zero_tokenResponse :: tokenResponse where
  "zero_tokenResponse =
     \<lparr>tr_AccessToken = None, tr_RefreshToken = None, tr_IDToken = None, tr_TokenType = [], tr_ExpiresIn = None, tr_Error = None\<rparr>"

text \<open>\<open>None\<close> is an error or a nil pointer.\<close>

definition decode_token :: "raw \<Rightarrow> tokenResponse option" where
  "decode_token data = (case data of Some (JObj m) \<Rightarrow> foldl store_token_field (Some zero_tokenResponse) m | _ \<Rightarrow> None)"

definition invalid_token :: error where
  "invalid_token = OAuthFailureErr (mk_OAuthFailure FailureInvalidResponse 200)"

text \<open>The four stages of \<open>tokenResponse.credentials\<close>.\<close>

definition with_identity :: "(bytes \<Rightarrow> raw) \<Rightarrow> tokenResponse \<Rightarrow> OAuthCredentials \<Rightarrow> OAuthCredentials result" where
  "with_identity parse wire c =
     (case tr_IDToken wire of
        None \<Rightarrow> Inr c
      | Some token \<Rightarrow>
          (case decodeMetadata parse decode_auth token of
             None \<Rightarrow> Inl invalid_token
           | Some (account, fedRAMP) \<Rightarrow>
               if fedRAMP \<or> \<not> validField account then Inl invalid_token else Inr (c\<lparr>ChatGPTAccountID := account\<rparr>)))"

definition with_access :: "(bytes \<Rightarrow> raw) \<Rightarrow> tokenResponse \<Rightarrow> time \<Rightarrow> OAuthCredentials \<Rightarrow> OAuthCredentials result" where
  "with_access parse wire now c =
     (case tr_AccessToken wire of
        None \<Rightarrow> Inr c
      | Some token \<Rightarrow>
          (let c = c\<lparr>AccessToken := token\<rparr> in
           case expirySeconds (tr_ExpiresIn wire) of
             Some seconds \<Rightarrow> Inr (c\<lparr>ExpiresAt := now + seconds * Second\<rparr>)
           | None \<Rightarrow>
               (case decodeMetadata parse decode_exp token of
                  None \<Rightarrow> Inl invalid_token
                | Some exp \<Rightarrow>
                    if exp \<le> time_Unix now \<or> exp > lastUnixSecond then Inl invalid_token
                    else Inr (c\<lparr>ExpiresAt := Unix_time exp\<rparr>))))"

definition credentials :: "(bytes \<Rightarrow> raw) \<Rightarrow> tokenResponse \<Rightarrow> OAuthCredentials \<Rightarrow> time \<Rightarrow> OAuthCredentials result" where
  "credentials parse wire previous now =
     (if tr_Error wire \<noteq> None \<and> tr_Error wire \<noteq> Some JNull then Inl invalid_token
      else if tr_TokenType wire \<noteq> [] \<and> \<not> EqualFold (tr_TokenType wire) ''Bearer'' then Inl invalid_token
      else
        bindR (with_identity parse wire previous) (\<lambda>c.
        let c = (case tr_RefreshToken wire of None \<Rightarrow> c | Some token \<Rightarrow> c\<lparr>RefreshToken := token\<rparr>) in
        bindR (with_access parse wire now c) (\<lambda>c.
        if list_ex (\<lambda>value. \<not> validField value) [ChatGPTAccountID c, AccessToken c, RefreshToken c] then Inl invalid_token
        else if time_IsZero (ExpiresAt c) then Inl invalid_token
        else Inr c)))"

section \<open>The request\<close>

definition contextCause :: "ctx_error option \<Rightarrow> error option \<Rightarrow> ctx_error option" where
  "contextCause ctx err =
     (if ctx \<noteq> None then ctx
      else case err of
             None \<Rightarrow> None
           | Some e \<Rightarrow> if is_ctx e DeadlineExceeded then Some DeadlineExceeded else if is_ctx e Canceled then Some Canceled else None)"

text \<open>
  The code in the detail of a refusal. Decoding stores a field's code even when a later field has
  the wrong type, in which case the nested forms are not looked at: the flag is that there was no
  type error.
\<close>

definition detail_fields :: "fields \<Rightarrow> string \<times> raw \<times> bool" where
  "detail_fields m =
     foldl (\<lambda>(code, err, ok) (k, v).
       if field_is ''error'' k then (code, Some v, ok)
       else if field_is ''code'' k then (case store_string v code of Some s \<Rightarrow> (s, err, ok) | None \<Rightarrow> (code, err, False))
       else (code, err, ok)) ([], None, True) m"

definition failure_code :: "raw \<Rightarrow> string" where
  "failure_code body =
     (case body of
        Some (JObj m) \<Rightarrow>
          (let (code, err, ok) = detail_fields m in
           if \<not> ok then code
           else case err of
                  Some (JStr s) \<Rightarrow> if s \<noteq> [] then s else code
                | Some (JObj n) \<Rightarrow>
                    (let (nested, _, ok) = detail_fields (filter (\<lambda>(k, _). field_is ''code'' k) n)
                     in if ok \<and> nested \<noteq> [] then nested else code)
                | _ \<Rightarrow> code)
      | _ \<Rightarrow> [])"

definition token_failure :: "(string \<Rightarrow> time option) \<Rightarrow> time \<Rightarrow> int \<Rightarrow> string \<Rightarrow> int \<Rightarrow> raw \<Rightarrow> OAuthFailure" where
  "token_failure ParseTime now status retryAfter n body =
     (let f = (mk_OAuthFailure FailureInvalidResponse status)\<lparr>o_RetryAfter := retry_cooldown (ParseRetryAfter ParseTime retryAfter now)\<rparr> in
      if status = 429 \<or> status \<ge> 500 then f\<lparr>o_Kind := FailureTransient\<rparr>
      else
        (let code = (if n \<le> maxTokenBody then failure_code body else []);
             f = (if status = 401 then f\<lparr>o_Kind := FailureRejected\<rparr> else f)
         in if code \<in> {''refresh_token_expired'', ''refresh_token_reused'', ''refresh_token_invalidated''}
            then f\<lparr>o_Kind := FailureRejected\<rparr>
            else if code = ''invalid_grant'' \<and> status = 400 then f\<lparr>o_Kind := FailureRejected\<rparr>
            else f))"

record token_env =
  te_ctx :: "ctx_error option" \<comment> \<open>the bounded context once the exchange is over\<close>
  te_newRequest :: "error option"
  te_ParseTime :: "string \<Rightarrow> time option"
  te_ParseMediaType :: "string \<Rightarrow> string option"
  te_parse :: "bytes \<Rightarrow> raw"
  te_now :: time

text \<open>A body: a form or a JSON value; what was read of a response: bytes, value, error.\<close>

datatype token_body = FormBody "(string \<times> string) list" | JsonBody json

type_synonym token_read = "int \<times> raw \<times> error option"
type_synonym RoundTrip = "string \<Rightarrow> token_body \<Rightarrow> token_read Response result"

definition requestToken :: "token_env \<Rightarrow> RoundTrip \<Rightarrow> string \<Rightarrow> token_body \<Rightarrow> tokenResponse result" where
  "requestToken env transport contentType body =
     (if te_newRequest env \<noteq> None then Inl (OAuthFailureErr (mk_OAuthFailure FailureInvalidResponse 0))
      else case transport contentType body of
             Inl err \<Rightarrow> Inl (OAuthFailureErr ((mk_OAuthFailure FailureTransient 0)\<lparr>o_cause := contextCause (te_ctx env) (Some err)\<rparr>))
           | Inr resp \<Rightarrow>
               (case rs_Body resp of (n, data, err) \<Rightarrow>
                  if rs_StatusCode resp \<noteq> 200 then
                    Inl (OAuthFailureErr ((token_failure (te_ParseTime env) (te_now env) (rs_StatusCode resp) (rs_RetryAfter resp) n data)
                           \<lparr>o_cause := contextCause (te_ctx env) err\<rparr>))
                  else if err \<noteq> None then
                    Inl (OAuthFailureErr ((mk_OAuthFailure FailureTransient 200)\<lparr>o_cause := contextCause (te_ctx env) err\<rparr>))
                  else if n > maxTokenBody \<or> te_ParseMediaType env (rs_ContentType resp) \<noteq> Some ''application/json'' then
                    Inl (OAuthFailureErr (mk_OAuthFailure FailureInvalidResponse 200))
                  else (case decode_token data of
                          None \<Rightarrow> Inl (OAuthFailureErr (mk_OAuthFailure FailureInvalidResponse 200))
                        | Some wire \<Rightarrow> Inr wire)))"

definition Exchange :: "token_env \<Rightarrow> RoundTrip \<Rightarrow> string \<Rightarrow> string \<Rightarrow> OAuthCredentials result" where
  "Exchange env transport code verifier =
     (if \<not> validField code \<or> \<not> validField verifier then Inl (OAuthFailureErr (mk_OAuthFailure FailureRejected 0))
      else
        bindR (requestToken env transport ''application/x-www-form-urlencoded''
                 (FormBody [(''grant_type'', ''authorization_code''), (''client_id'', clientID), (''code'', code),
                            (''code_verifier'', verifier), (''redirect_uri'', RedirectURI)]))
          (\<lambda>wire. credentials (te_parse env) wire zero_OAuthCredentials (te_now env)))"

text \<open>Encoding a map of strings cannot fail, so the branch for that error is not reached.\<close>

definition Refresh :: "token_env \<Rightarrow> RoundTrip \<Rightarrow> OAuthCredentials \<Rightarrow> OAuthCredentials result" where
  "Refresh env transport previous =
     (if \<not> validField (RefreshToken previous) then Inl (OAuthFailureErr (mk_OAuthFailure FailureRejected 0))
      else
        bindR (requestToken env transport ''application/json''
                 (JsonBody (marshal_fields [(''grant_type'', JStr ''refresh_token''), (''client_id'', JStr clientID),
                                            (''refresh_token'', JStr (RefreshToken previous))])))
          (\<lambda>wire. credentials (te_parse env) wire previous (te_now env)))"

end
