(* ===== verification/OAuthManager.thy ===== *)
theory OAuthManager
  imports OAuthClient Storage
begin

text \<open>
  \<open>internal/codexoauth/manager.go\<close> and \<open>login.go\<close>: on-demand refresh of account credentials and the
  browser login. Refresh states and logins are Go pointers compared by identity, so they live in
  append-only lists and pointers are indices. A section under the manager's mutex is one step, a
  store call another; loops take a list of turns, each with what the other goroutines do at the
  points where the mutex is free. Clock readings and outcomes of the network are arguments. The
  64-bit revision counter is an integer: it would take \<open>2^64\<close> invalidations to wrap.
\<close>

section \<open>State\<close>

record refreshState =
  rf_previous :: AccountRecord
  rf_running :: bool \<comment> \<open>\<open>done\<close> is not nil\<close>
  rf_job :: "bool option" \<comment> \<open>nil, or whether the job's context was canceled\<close>
  rf_replacement :: "OAuthCredentials option"
  rf_needsSignIn :: bool
  rf_retryAt :: time
  rf_retryBlocked :: bool

datatype LoginState = LoginNone | LoginWaiting | LoginExchanging | LoginSucceeded | LoginFailed | LoginCanceled | LoginExpired

record LoginStatus =
  ls_LoginID :: string
  ls_AccountID :: string
  ls_State :: LoginState
  ls_ExpiresAt :: time

record pendingLogin =
  lg_commit :: bool \<comment> \<open>the one-place channel is full\<close>
  lg_authorization :: Authorization
  lg_identity :: AccountIdentity
  lg_previous :: "AccountRecord option"
  lg_status :: LoginStatus
  lg_canceled :: bool

record Manager =
  mg_closed :: bool
  mg_canceled :: bool \<comment> \<open>the lifetime context\<close>
  mg_revision :: int
  mg_states :: "refreshState list"
  mg_refreshes :: "string \<rightharpoonup> nat"
  mg_jobs :: "(string \<times> nat) list" \<comment> \<open>refresh goroutines\<close>
  mg_logins :: "pendingLogin list"
  mg_login :: "nat option"

definition NewManager :: Manager where
  "NewManager =
     \<lparr>mg_closed = False, mg_canceled = False, mg_revision = 0, mg_states = [], mg_refreshes = Map.empty, mg_jobs = [],
      mg_logins = [], mg_login = None\<rparr>"

abbreviation mgr_down :: "Manager \<Rightarrow> bool" where
  "mgr_down m \<equiv> mg_closed m \<or> mg_canceled m"

definition upd_state :: "nat \<Rightarrow> (refreshState \<Rightarrow> refreshState) \<Rightarrow> Manager \<Rightarrow> Manager" where
  "upd_state s f m = m\<lparr>mg_states := (mg_states m)[s := f (mg_states m ! s)]\<rparr>"

definition upd_login :: "nat \<Rightarrow> (pendingLogin \<Rightarrow> pendingLogin) \<Rightarrow> Manager \<Rightarrow> Manager" where
  "upd_login p f m = m\<lparr>mg_logins := (mg_logins m)[p := f (mg_logins m ! p)]\<rparr>"

definition login_state :: "Manager \<Rightarrow> nat \<Rightarrow> LoginState" where
  "login_state m p = ls_State (lg_status (mg_logins m ! p))"

definition set_login_state :: "LoginState \<Rightarrow> pendingLogin \<Rightarrow> pendingLogin" where
  "set_login_state st p = p\<lparr>lg_status := (lg_status p)\<lparr>ls_State := st\<rparr>\<rparr>"

section \<open>Refreshing\<close>

definition needsSignInFor :: "refreshState option \<Rightarrow> AccountRecord \<Rightarrow> bool" where
  "needsSignInFor state record =
     (case state of
        None \<Rightarrow> False
      | Some s \<Rightarrow> rf_needsSignIn s \<and> acc_credentials (rec_Account (rf_previous s)) = acc_credentials (rec_Account record))"

definition state_at :: "Manager \<Rightarrow> nat option \<Rightarrow> refreshState option" where
  "state_at m s = map_option (\<lambda>s. mg_states m ! s) s"

definition invalidateLocked :: "string \<Rightarrow> Manager \<Rightarrow> Manager" where
  "invalidateLocked i m =
     (let m = m\<lparr>mg_revision := mg_revision m + 1\<rparr>;
          m = (case mg_refreshes m i of
                 None \<Rightarrow> m
               | Some s \<Rightarrow> if rf_job (mg_states m ! s) \<noteq> None then upd_state s (\<lambda>st. st\<lparr>rf_job := Some True\<rparr>) m else m)
      in m\<lparr>mg_refreshes := (mg_refreshes m)(i := None)\<rparr>)"

text \<open>\<open>current\<close> before and after its store read.\<close>

definition current_read :: "ctx_error option \<Rightarrow> string \<Rightarrow> Manager \<Rightarrow> (nat option \<times> int) result" where
  "current_read ctx i m =
     (case ctx of
        Some e \<Rightarrow> Inl (CtxErr e)
      | None \<Rightarrow> if mgr_down m then Inl (Sentinel OAuthErrClosed) else Inr (mg_refreshes m i, mg_revision m))"

definition current_check ::
  "string \<Rightarrow> nat option \<Rightarrow> int \<Rightarrow> AccountRecord result \<Rightarrow> Manager \<Rightarrow> Manager \<times> (AccountRecord \<times> nat) result option" where
  "current_check i before revision got m =
     (let same = (mg_refreshes m i = before \<and> mg_revision m = revision) in
      case got of
        Inl err \<Rightarrow> (if errors_Is err ErrNotFound \<and> same then invalidateLocked i m else m, Some (Inl err))
      | Inr record \<Rightarrow>
          if mgr_down m then (m, Some (Inl (Sentinel OAuthErrClosed)))
          else if \<not> same then (m, None)
          else if \<not> rec_Enabled record then
            (if needsSignInFor (state_at m before) record then m else invalidateLocked i m, Some (Inl (Sentinel OAuthErrDisabled)))
          else
            (case before of
               Some s \<Rightarrow>
                 if rf_previous (mg_states m ! s) = record then (m, Some (Inr (record, s)))
                 else (let needs = needsSignInFor (state_at m before) record; m = invalidateLocked i m in
                       (m\<lparr>mg_states := mg_states m @ [\<lparr>rf_previous = record, rf_running = False, rf_job = None, rf_replacement = None,
                            rf_needsSignIn = needs, rf_retryAt = 0, rf_retryBlocked = False\<rparr>],
                          mg_refreshes := (mg_refreshes m)(i \<mapsto> length (mg_states m))\<rparr>,
                        Some (Inr (record, length (mg_states m)))))
             | None \<Rightarrow>
                 (let m = invalidateLocked i m in
                  (m\<lparr>mg_states := mg_states m @ [\<lparr>rf_previous = record, rf_running = False, rf_job = None, rf_replacement = None,
                       rf_needsSignIn = False, rf_retryAt = 0, rf_retryBlocked = False\<rparr>],
                     mg_refreshes := (mg_refreshes m)(i \<mapsto> length (mg_states m))\<rparr>,
                   Some (Inr (record, length (mg_states m)))))))"

record World =
  w_mgr :: Manager
  w_db :: DB

record current_turn =
  ct_ctx :: "ctx_error option"
  ct_before_read :: "World \<Rightarrow> World"
  ct_io :: "error option"
  ct_before_check :: "World \<Rightarrow> World"

fun current :: "StoreEnv \<Rightarrow> current_turn list \<Rightarrow> World \<Rightarrow> string \<Rightarrow> World \<times> (AccountRecord \<times> nat) result option" where
  "current env [] w i = (w, None)"
| "current env (t # ts) w i =
     (case current_read (ct_ctx t) i (w_mgr w) of
        Inl err \<Rightarrow> (w, Some (Inl err))
      | Inr (before, revision) \<Rightarrow>
          (let w1 = ct_before_read t w;
               got = GetAccount env (ct_io t) (w_db w1) i;
               w2 = ct_before_check t w1;
               (m, r) = current_check i before revision got (w_mgr w2);
               w3 = w2\<lparr>w_mgr := m\<rparr>
           in case r of None \<Rightarrow> current env ts w3 i | Some result \<Rightarrow> (w3, Some result)))"

datatype decision = Return "Account result" | Again | Wait nat

text \<open>The locked section of \<open>CurrentAccount\<close>; \<open>t1\<close>, \<open>t2\<close> and \<open>t3\<close> are its clock readings.\<close>

definition current_decide ::
  "time \<Rightarrow> time \<Rightarrow> time \<Rightarrow> bool \<Rightarrow> string \<Rightarrow> AccountRecord \<Rightarrow> nat \<Rightarrow> Manager \<Rightarrow> Manager \<times> decision" where
  "current_decide t1 t2 t3 waited i record s m =
     (let creds = acc_credentials (rec_Account record); state = mg_states m ! s in
      if mgr_down m then (m, Return (Inl (Sentinel OAuthErrClosed)))
      else if mg_refreshes m i \<noteq> Some s then (m, Again)
      else if rf_needsSignIn state then (m, Return (Inl (Sentinel OAuthErrNeedsSignIn)))
      else
        (let fresh = ExpiresAt creds > t1 + 5 * Minute in
         if fresh \<or> waited \<or> rf_retryBlocked state \<or> t2 < rf_retryAt state then
           (m, Return (if rf_replacement state \<noteq> None \<or> \<not> ExpiresAt creds > t3 then Inl (Sentinel OAuthErrUnavailable)
                       else Inr (rec_Account record)))
         else
           (let m = (if rf_running state then m
                     else (upd_state s (\<lambda>st. st\<lparr>rf_job := Some False, rf_running := True\<rparr>) m)\<lparr>mg_jobs := (i, s) # mg_jobs m\<rparr>)
            in (m, Wait s))))"

datatype wait_outcome = WaitCtx ctx_error | WaitClosed | WaitDone

record account_turn =
  at_current :: "current_turn list"
  at_before_decide :: "World \<Rightarrow> World"
  at_t1 :: time
  at_t2 :: time
  at_t3 :: time
  at_waiting :: "World \<Rightarrow> World"
  at_wait :: wait_outcome

fun CurrentAccount :: "StoreEnv \<Rightarrow> account_turn list \<Rightarrow> bool \<Rightarrow> World \<Rightarrow> string \<Rightarrow> World \<times> Account result option" where
  "CurrentAccount env [] waited w i = (w, None)"
| "CurrentAccount env (t # ts) waited w i =
     (case current env (at_current t) w i of
        (w1, None) \<Rightarrow> (w1, None)
      | (w1, Some (Inl err)) \<Rightarrow> (w1, Some (Inl err))
      | (w1, Some (Inr (record, s))) \<Rightarrow>
          (let w2 = at_before_decide t w1;
               (m, d) = current_decide (at_t1 t) (at_t2 t) (at_t3 t) waited i record s (w_mgr w2);
               w3 = w2\<lparr>w_mgr := m\<rparr>
           in case d of
                Return r \<Rightarrow> (w3, Some r)
              | Again \<Rightarrow> CurrentAccount env ts waited w3 i
              | Wait _ \<Rightarrow>
                  (case at_wait t of
                     WaitCtx e \<Rightarrow> (w3, Some (Inl (CtxErr e)))
                   | WaitClosed \<Rightarrow> (w3, Some (Inl (Sentinel OAuthErrClosed)))
                   | WaitDone \<Rightarrow> CurrentAccount env ts True (at_waiting t w3) i)))"

text \<open>
  The job. \<open>refresh_fetch\<close>: \<open>answer\<close> is what \<open>Client.Refresh\<close> returns for credentials. \<open>refresh_save\<close>
  writes to the store; \<open>refresh_finish\<close> is the locked section, with the clock reading \<open>now\<close>.
\<close>

definition refresh_fetch :: "time \<Rightarrow> (OAuthCredentials \<Rightarrow> OAuthCredentials result) \<Rightarrow> refreshState \<Rightarrow> OAuthCredentials result" where
  "refresh_fetch now answer state =
     bindR (case rf_replacement state of
              Some c \<Rightarrow> if \<not> ExpiresAt c > now then Inl (Sentinel OAuthErrNeedsSignIn) else Inr c
            | None \<Rightarrow> answer (acc_credentials (rec_Account (rf_previous state))))
       (\<lambda>c. if ChatGPTAccountID c \<noteq> ChatGPTAccountID (acc_credentials (rec_Account (rf_previous state)))
             then Inl (Sentinel OAuthErrNeedsSignIn) else Inr c)"

definition refresh_save ::
  "StoreEnv \<Rightarrow> bytes \<Rightarrow> error option \<Rightarrow> refreshState \<Rightarrow> OAuthCredentials result \<Rightarrow> DB \<Rightarrow> DB \<times> error option \<times> OAuthCredentials option" where
  "refresh_save env nonce io state fetched db =
     (case fetched of
        Inl err \<Rightarrow> (db, Some err, None)
      | Inr c \<Rightarrow>
          (let (db', err) = ReplaceAccountCredentialsIfUnchanged env nonce io db (rf_previous state) c
           in (db', err, case err of None \<Rightarrow> None | Some e \<Rightarrow> if \<not> errors_Is e ErrConflict then Some c else None)))"

definition failed_state :: "time \<Rightarrow> error \<Rightarrow> OAuthCredentials option \<Rightarrow> refreshState \<Rightarrow> refreshState" where
  "failed_state now err replacement st =
     (let st = st\<lparr>rf_replacement := replacement, rf_retryAt := 0, rf_retryBlocked := False\<rparr>;
          failure = as_OAuthFailure err;
          needs = (errors_Is err OAuthErrNeedsSignIn \<or> (case failure of None \<Rightarrow> False | Some f \<Rightarrow> o_Kind f \<noteq> FailureTransient));
          st = st\<lparr>rf_needsSignIn := needs\<rparr>
      in if needs then st
         else
           (let st = st\<lparr>rf_retryAt := now + Minute\<rparr> in
            case failure of
              None \<Rightarrow> st
            | Some f \<Rightarrow>
                (let st = st\<lparr>rf_retryBlocked := (cd_Kind (o_RetryAfter f) = RetryBlocked)\<rparr>
                 in if cd_Kind (o_RetryAfter f) = RetryAt \<and> cd_Until (o_RetryAfter f) > rf_retryAt st
                    then st\<lparr>rf_retryAt := cd_Until (o_RetryAfter f)\<rparr> else st)))"

definition refresh_finish :: "time \<Rightarrow> string \<Rightarrow> nat \<Rightarrow> error option \<Rightarrow> OAuthCredentials option \<Rightarrow> Manager \<Rightarrow> Manager" where
  "refresh_finish now i s err replacement m =
     (let m = (upd_state s (\<lambda>st. st\<lparr>rf_running := False\<rparr>) m)\<lparr>mg_jobs := remove1 (i, s) (mg_jobs m)\<rparr> in
      if mg_refreshes m i \<noteq> Some s then m
      else case err of
             None \<Rightarrow> invalidateLocked i m
           | Some e \<Rightarrow> upd_state s (failed_state now e replacement) m)"

section \<open>Status\<close>

datatype AccountState = StateConnected | StateRefreshing | StateUnavailable | StateNeedsSignIn | StateDisabled

record AccountStatus =
  as_Identity :: AccountIdentity
  as_State :: AccountState
  as_ExpiresAt :: time
  as_RetryAt :: time

definition statusLocked :: "time \<Rightarrow> Manager \<Rightarrow> AccountRecord \<Rightarrow> AccountStatus" where
  "statusLocked now m record =
     (let creds = acc_credentials (rec_Account record);
          status = \<lparr>as_Identity = acc_identity (rec_Account record), as_State = StateConnected, as_ExpiresAt = ExpiresAt creds, as_RetryAt = 0\<rparr>
      in if \<not> rec_Enabled record then status\<lparr>as_State := StateDisabled\<rparr>
         else
           (let status = (if \<not> ExpiresAt creds > now then status\<lparr>as_State := StateUnavailable\<rparr> else status);
                state = state_at m (mg_refreshes m (ai_ID (acc_identity (rec_Account record))))
            in if needsSignInFor state record then status\<lparr>as_State := StateNeedsSignIn\<rparr>
               else case state of
                      None \<Rightarrow> status
                    | Some st \<Rightarrow>
                        if rf_previous st \<noteq> record then status
                        else
                          (let status = status\<lparr>as_RetryAt := rf_retryAt st\<rparr>
                           in if rf_running st then status\<lparr>as_State := StateRefreshing\<rparr>
                              else if rf_replacement st \<noteq> None then status\<lparr>as_State := StateUnavailable\<rparr>
                              else status)))"

definition Status :: "StoreEnv \<Rightarrow> error option \<Rightarrow> time \<Rightarrow> World \<Rightarrow> string \<Rightarrow> AccountStatus result" where
  "Status env io now w i = bindR (GetAccount env io (w_db w) i) (\<lambda>record. Inr (statusLocked now (w_mgr w) record))"

definition List_accounts :: "StoreEnv \<Rightarrow> error option \<Rightarrow> time \<Rightarrow> World \<Rightarrow> AccountStatus list result" where
  "List_accounts env io now w =
     bindR (ListAccounts env io (w_db w)) (\<lambda>records. Inr (map (statusLocked now (w_mgr w)) records))"

section \<open>Management\<close>

abbreviation login_open :: "LoginState \<Rightarrow> bool" where
  "login_open st \<equiv> st = LoginWaiting \<or> st = LoginExchanging"

definition invalidate :: "string \<Rightarrow> bool \<Rightarrow> Manager \<Rightarrow> Manager" where
  "invalidate i preserveSignIn m =
     (let old = mg_refreshes m i;
          m = invalidateLocked i m;
          m = (case old of
                 Some s \<Rightarrow> if preserveSignIn \<and> rf_needsSignIn (mg_states m ! s) then m\<lparr>mg_refreshes := (mg_refreshes m)(i \<mapsto> s)\<rparr> else m
               | None \<Rightarrow> m)
      in case mg_login m of
           None \<Rightarrow> m
         | Some p \<Rightarrow>
             (case lg_previous (mg_logins m ! p) of
                None \<Rightarrow> m
              | Some previous \<Rightarrow>
                  if ai_ID (acc_identity (rec_Account previous)) = i then
                    upd_login p (\<lambda>l. let l = l\<lparr>lg_canceled := True\<rparr> in
                      if login_open (ls_State (lg_status l)) then (set_login_state LoginCanceled l)\<lparr>lg_authorization := zero_Authorization\<rparr>
                      else l) m
                  else m))"

definition Manager_Enable :: "StoreEnv \<Rightarrow> enable_turn list \<Rightarrow> World \<Rightarrow> string \<Rightarrow> World \<times> error option option" where
  "Manager_Enable env turns w i = (let (db, r) = EnableAccount env turns (w_db w) i in (w\<lparr>w_db := db\<rparr>, r))"

text \<open>\<open>others\<close> is what happens between the write and the invalidation.\<close>

definition Manager_Disable :: "error option \<Rightarrow> (World \<Rightarrow> World) \<Rightarrow> World \<Rightarrow> string \<Rightarrow> World \<times> error option" where
  "Manager_Disable io others w i =
     (case DisableAccount io (w_db w) i of
        (db, Some err) \<Rightarrow> (w\<lparr>w_db := db\<rparr>, Some err)
      | (db, None) \<Rightarrow> (let w = others (w\<lparr>w_db := db\<rparr>) in (w\<lparr>w_mgr := invalidate i True (w_mgr w)\<rparr>, None)))"

definition Manager_Delete :: "error option \<Rightarrow> (World \<Rightarrow> World) \<Rightarrow> World \<Rightarrow> string \<Rightarrow> World \<times> error option" where
  "Manager_Delete io others w i =
     (case DeleteAccount io (w_db w) i of
        (db, Some err) \<Rightarrow> (w\<lparr>w_db := db\<rparr>, Some err)
      | (db, None) \<Rightarrow> (let w = others (w\<lparr>w_db := db\<rparr>) in (w\<lparr>w_mgr := invalidate i False (w_mgr w)\<rparr>, None)))"

section \<open>Login\<close>

definition zero_LoginStatus :: LoginStatus where
  "zero_LoginStatus = \<lparr>ls_LoginID = [], ls_AccountID = [], ls_State = LoginNone, ls_ExpiresAt = 0\<rparr>"

definition clearSensitive :: "pendingLogin \<Rightarrow> pendingLogin" where
  "clearSensitive p = p\<lparr>lg_authorization := zero_Authorization, lg_previous := None, lg_identity := \<lparr>ai_ID = [], ai_Name = []\<rparr>\<rparr>"

definition expireLoginLocked :: "time \<Rightarrow> Manager \<Rightarrow> Manager" where
  "expireLoginLocked now m =
     (case mg_login m of
        None \<Rightarrow> m
      | Some p \<Rightarrow>
          if login_state m p = LoginWaiting \<and> \<not> now < ls_ExpiresAt (lg_status (mg_logins m ! p))
          then upd_login p (\<lambda>l. (clearSensitive (set_login_state LoginExpired l))\<lparr>lg_canceled := True\<rparr>) m
          else m)"

text \<open>\<open>t1\<close> and \<open>t2\<close> are the clock readings; \<open>auth\<close> is \<open>client.Begin()\<close> and \<open>loginID\<close> is \<open>rand.Text()\<close>.\<close>

definition startLogin ::
  "ctx_error option \<Rightarrow> time \<Rightarrow> time \<Rightarrow> Authorization \<Rightarrow> string \<Rightarrow> AccountIdentity \<Rightarrow> AccountRecord option \<Rightarrow> Manager \<Rightarrow>
   Manager \<times> (string \<times> string \<times> string \<times> time) result" where
  "startLogin ctx t1 t2 auth loginID identity previous m =
     (if ctx \<noteq> None then (m, Inl (CtxErr (the ctx)))
      else if mgr_down m then (m, Inl (Sentinel OAuthErrClosed))
      else
        (let m = expireLoginLocked t1 m in
         if (case mg_login m of None \<Rightarrow> False | Some p \<Rightarrow> login_open (login_state m p)) then (m, Inl (Sentinel OAuthErrLoginPending))
         else
           (let expires = t2 + 10 * Minute;
                login = \<lparr>lg_commit = False, lg_authorization = auth, lg_identity = identity, lg_previous = previous,
                         lg_status = \<lparr>ls_LoginID = loginID, ls_AccountID = ai_ID identity, ls_State = LoginWaiting, ls_ExpiresAt = expires\<rparr>,
                         lg_canceled = False\<rparr>
            in (m\<lparr>mg_logins := mg_logins m @ [login], mg_login := Some (length (mg_logins m))\<rparr>,
                Inr (loginID, au_URL auth, ai_ID identity, expires)))))"

definition StartLogin ::
  "ctx_error option \<Rightarrow> time \<Rightarrow> time \<Rightarrow> Authorization \<Rightarrow> string \<Rightarrow> string \<Rightarrow> string \<Rightarrow> Manager \<Rightarrow>
   Manager \<times> (string \<times> string \<times> string \<times> time) result" where
  "StartLogin ctx t1 t2 auth loginID newID name m =
     (if blank name then (m, Inl (Sentinel OAuthErrInvalidLogin))
      else startLogin ctx t1 t2 auth loginID \<lparr>ai_ID = newID, ai_Name = name\<rparr> None m)"

text \<open>The check before the store read; \<open>got\<close> is that read, after which the manager may have moved on.\<close>

definition StartReconnect ::
  "ctx_error option \<Rightarrow> time \<Rightarrow> time \<Rightarrow> Authorization \<Rightarrow> string \<Rightarrow> bool \<Rightarrow> AccountRecord result \<Rightarrow> Manager \<Rightarrow>
   Manager \<times> (string \<times> string \<times> string \<times> time) result" where
  "StartReconnect ctx t1 t2 auth loginID down got m =
     (if down then (m, Inl (Sentinel OAuthErrClosed))
      else case got of
             Inl err \<Rightarrow> (m, Inl err)
           | Inr record \<Rightarrow>
               if \<not> rec_Enabled record then (m, Inl (Sentinel OAuthErrDisabled))
               else startLogin ctx t1 t2 auth loginID (acc_identity (rec_Account record)) (Some record) m)"

definition Manager_LoginStatus :: "time \<Rightarrow> Manager \<Rightarrow> Manager \<times> LoginStatus" where
  "Manager_LoginStatus now m =
     (let m = expireLoginLocked now m
      in (m, case mg_login m of None \<Rightarrow> zero_LoginStatus | Some p \<Rightarrow> lg_status (mg_logins m ! p)))"

text \<open>\<open>CancelLogin\<close>: the first locked section gives a result or the login whose commit token it needs.\<close>

definition cancel_begin :: "ctx_error option \<Rightarrow> time \<Rightarrow> string \<Rightarrow> Manager \<Rightarrow> Manager \<times> (error option + nat)" where
  "cancel_begin ctx now loginID m =
     (case ctx of
        Some e \<Rightarrow> (m, Inl (Some (CtxErr e)))
      | None \<Rightarrow>
          (let m = expireLoginLocked now m in
           case mg_login m of
             None \<Rightarrow> (m, Inl (Some (Sentinel OAuthErrLoginMismatch)))
           | Some p \<Rightarrow>
               if ls_LoginID (lg_status (mg_logins m ! p)) \<noteq> loginID then (m, Inl (Some (Sentinel OAuthErrLoginMismatch)))
               else if \<not> login_open (login_state m p) then (m, Inl None)
               else (m, Inr p)))"

text \<open>The second section, while holding the token (so it runs only when no one else holds it).\<close>

definition cancel_commit :: "ctx_error option \<Rightarrow> time \<Rightarrow> nat \<Rightarrow> Manager \<Rightarrow> Manager \<times> error option" where
  "cancel_commit ctx now p m =
     (case ctx of
        Some e \<Rightarrow> (m, Some (CtxErr e))
      | None \<Rightarrow>
          if mg_login m \<noteq> Some p then (m, Some (Sentinel OAuthErrLoginMismatch))
          else
            (let m = expireLoginLocked now m in
             (if login_open (login_state m p)
              then upd_login p (\<lambda>l. (clearSensitive (set_login_state LoginCanceled l))\<lparr>lg_canceled := True\<rparr>) m
              else m, None)))"

text \<open>
  The callback: \<open>query\<close> is \<open>url.ParseQuery\<close>'s map. It answers with an HTTP status, or claims the login
  and starts its job with the code, the verifier and whether the provider sent an error.
\<close>

definition query_get :: "(string \<Rightarrow> string list) \<Rightarrow> string \<Rightarrow> string" where
  "query_get q k = (case q k of [] \<Rightarrow> [] | v # _ \<Rightarrow> v)"

definition callback_claim ::
  "string \<Rightarrow> string \<Rightarrow> int \<Rightarrow> (string \<Rightarrow> string list) option \<Rightarrow> time \<Rightarrow> Manager \<Rightarrow>
   Manager \<times> (int + nat \<times> string \<times> string \<times> bool)" where
  "callback_claim path verb rawLength query now m =
     (if path \<noteq> ''/auth/callback'' then (m, Inl 404)
      else if verb \<noteq> ''GET'' then (m, Inl 405)
      else if rawLength > 8192 then (m, Inl 400)
      else case query of
             None \<Rightarrow> (m, Inl 400)
           | Some q \<Rightarrow>
               if length (q ''state'') \<noteq> 1 \<or> length (q ''code'') > 1 \<or> length (q ''error'') > 1 then (m, Inl 400)
               else
                 (let m = expireLoginLocked now m in
                  case mg_login m of
                    None \<Rightarrow> (m, Inl 400)
                  | Some p \<Rightarrow>
                      if mgr_down m \<or> \<not> (login_state m p = LoginWaiting \<and> query_get q ''state'' = au_State (lg_authorization (mg_logins m ! p)))
                      then (m, Inl 400)
                      else
                        (upd_login p (\<lambda>l. set_login_state LoginExchanging (l\<lparr>lg_authorization := zero_Authorization\<rparr>)) m,
                         Inr (p, query_get q ''code'', au_Verifier (lg_authorization (mg_logins m ! p)), q ''error'' \<noteq> []))))"

definition callback_answer :: "Manager \<Rightarrow> nat \<Rightarrow> int" where
  "callback_answer m p = (if login_state m p = LoginSucceeded then 200 else 400)"

text \<open>\<open>finishLogin\<close> in the sections between which other goroutines run.\<close>

definition finish_exchange :: "(string \<Rightarrow> string \<Rightarrow> OAuthCredentials result) \<Rightarrow> string \<Rightarrow> string \<Rightarrow> bool \<Rightarrow> OAuthCredentials result" where
  "finish_exchange exchange code verifier denied =
     (if denied \<or> blank code then Inl (Sentinel OAuthErrInvalidLogin) else exchange code verifier)"

definition finish_hold :: "ctx_error option \<Rightarrow> OAuthCredentials result \<Rightarrow> OAuthCredentials result" where
  "finish_hold ctx r = bindR r (\<lambda>c. case ctx of Some e \<Rightarrow> Inl (CtxErr e) | None \<Rightarrow> Inr c)"

definition finish_active :: "Manager \<Rightarrow> nat \<Rightarrow> bool" where
  "finish_active m p \<longleftrightarrow> mg_login m = Some p \<and> login_state m p = LoginExchanging"

definition finish_store ::
  "StoreEnv \<Rightarrow> bytes \<Rightarrow> error option \<Rightarrow> pendingLogin \<Rightarrow> OAuthCredentials result \<Rightarrow> DB \<Rightarrow> DB \<times> error option" where
  "finish_store env nonce io l r db =
     (case r of
        Inl err \<Rightarrow> (db, Some err)
      | Inr c \<Rightarrow>
          (case lg_previous l of
             None \<Rightarrow>
               (case Account_New (lg_identity l) c of
                  Inl err \<Rightarrow> (db, Some err)
                | Inr value \<Rightarrow> CreateAccount env nonce io db value True)
           | Some previous \<Rightarrow> ReplaceAccountCredentialsIfUnchanged env nonce io db previous c))"

definition finish_status :: "nat \<Rightarrow> error option \<Rightarrow> Manager \<Rightarrow> Manager" where
  "finish_status p err m =
     (if login_state m p \<noteq> LoginExchanging then m
      else case err of
             Some _ \<Rightarrow> upd_login p (set_login_state LoginFailed) m
           | None \<Rightarrow>
               (let m = upd_login p (set_login_state LoginSucceeded) m
                in invalidateLocked (ai_ID (lg_identity (mg_logins m ! p))) m))"

text \<open>The deferred calls: the token goes back, the login is cleared and its context canceled.\<close>

definition finish_end :: "nat \<Rightarrow> Manager \<Rightarrow> Manager" where
  "finish_end p m = upd_login p (\<lambda>l. (clearSensitive l)\<lparr>lg_commit := False, lg_canceled := True\<rparr>) m"

section \<open>Shutdown\<close>

definition stop_begin :: "Manager \<Rightarrow> Manager" where
  "stop_begin m = m\<lparr>mg_closed := True\<rparr>"

text \<open>What the stop goroutine does once every job has ended.\<close>

definition stop_end :: "Manager \<Rightarrow> Manager" where
  "stop_end m =
     (let m = m\<lparr>mg_refreshes := Map.empty, mg_canceled := True\<rparr> in
      case mg_login m of
        None \<Rightarrow> m
      | Some p \<Rightarrow>
          upd_login p (\<lambda>l. let l = clearSensitive l in if login_open (ls_State (lg_status l)) then set_login_state LoginCanceled l else l) m)"

definition Manager_Close :: "Manager \<Rightarrow> Manager" where
  "Manager_Close m = stop_begin (m\<lparr>mg_canceled := True\<rparr>)"

text \<open>\<open>Shutdown\<close>: it returns the server's error once the jobs have ended, or its context ends first.\<close>

definition Manager_Shutdown :: "ctx_error option \<Rightarrow> error option \<Rightarrow> Manager \<Rightarrow> Manager \<times> error option" where
  "Manager_Shutdown expired closeErr m =
     (let m = stop_begin m in
      case expired of None \<Rightarrow> (m, closeErr) | Some e \<Rightarrow> (m\<lparr>mg_canceled := True\<rparr>, Some (CtxErr e)))"

end
