(* ===== verification/OAuthLaws.thy ===== *)
theory OAuthLaws
  imports OAuthManager StorageLaws
begin

text \<open>
  Laws of the OAuth client and manager: what accepted tokens satisfy, what \<open>CurrentAccount\<close> may
  return, what a refresh job may write, that there is one job per refresh state, and the life of
  a browser login.
\<close>

section \<open>Tokens\<close>

lemma expirySeconds_pos: "expirySeconds raw = Some s \<Longrightarrow> 0 < s \<and> s * Second \<le> max_int64"
  by (auto simp: expirySeconds_def max_int64_def split: option.splits if_splits)

lemma Unix_time_future: "time_Unix now < s \<Longrightarrow> now < Unix_time s"
proof -
  assume "time_Unix now < s"
  then have "now div Second + 1 \<le> s + unix_epoch_seconds" by (simp add: time_Unix_def)
  then have "(now div Second + 1) * Second \<le> Unix_time s" by (simp add: Unix_time_def)
  moreover have "now < (now div Second + 1) * Second" by simp
  ultimately show ?thesis by linarith
qed

lemma with_identity_Inr:
  "with_identity parse wire c = Inr d \<Longrightarrow>
    RefreshToken d = RefreshToken c \<and> AccessToken d = AccessToken c \<and> ExpiresAt d = ExpiresAt c \<and> (tr_IDToken wire = None \<longrightarrow> d = c)"
  by (auto simp: with_identity_def split: option.splits prod.splits if_splits)

lemma with_access_Inr:
  "with_access parse wire now c = Inr d \<Longrightarrow>
    ChatGPTAccountID d = ChatGPTAccountID c \<and> RefreshToken d = RefreshToken c \<and>
    (case tr_AccessToken wire of
       None \<Rightarrow> d = c
     | Some token \<Rightarrow> AccessToken d = token \<and> now < ExpiresAt d)"
  by (auto simp: with_access_def Let_def Unix_time_future dest: expirySeconds_pos split: option.splits if_splits)

lemma credentials_Inr:
  assumes "credentials parse wire previous now = Inr c"
  shows "validField (ChatGPTAccountID c) \<and> validField (AccessToken c) \<and> validField (RefreshToken c) \<and> ExpiresAt c \<noteq> 0"
    and "tr_IDToken wire = None \<Longrightarrow> ChatGPTAccountID c = ChatGPTAccountID previous"
    and "RefreshToken c = (case tr_RefreshToken wire of None \<Rightarrow> RefreshToken previous | Some token \<Rightarrow> token)"
    and "case tr_AccessToken wire of
           None \<Rightarrow> AccessToken c = AccessToken previous \<and> ExpiresAt c = ExpiresAt previous
         | Some token \<Rightarrow> AccessToken c = token \<and> now < ExpiresAt c"
proof -
  from assms obtain c1 where c1: "with_identity parse wire previous = Inr c1"
    and c2: "with_access parse wire now (case tr_RefreshToken wire of None \<Rightarrow> c1 | Some token \<Rightarrow> c1\<lparr>RefreshToken := token\<rparr>) = Inr c"
    and ok: "validField (ChatGPTAccountID c)" "validField (AccessToken c)" "validField (RefreshToken c)" "ExpiresAt c \<noteq> 0"
    by (auto simp: credentials_def Let_def bindR_Inr time_IsZero_def split: if_splits)
  from ok show "validField (ChatGPTAccountID c) \<and> validField (AccessToken c) \<and> validField (RefreshToken c) \<and> ExpiresAt c \<noteq> 0"
    by simp
  note i1 = with_identity_Inr [OF c1] and i2 = with_access_Inr [OF c2]
  from i1 i2 show "tr_IDToken wire = None \<Longrightarrow> ChatGPTAccountID c = ChatGPTAccountID previous"
    by (simp split: option.splits)
  from i1 have same: "RefreshToken c1 = RefreshToken previous" "AccessToken c1 = AccessToken previous" "ExpiresAt c1 = ExpiresAt previous"
    by simp_all
  with i2 show "RefreshToken c = (case tr_RefreshToken wire of None \<Rightarrow> RefreshToken previous | Some token \<Rightarrow> token)"
    by (simp split: option.splits)
  from i2 same show "case tr_AccessToken wire of
           None \<Rightarrow> AccessToken c = AccessToken previous \<and> ExpiresAt c = ExpiresAt previous
         | Some token \<Rightarrow> AccessToken c = token \<and> now < ExpiresAt c"
    by (auto split: option.splits)
qed

lemma refresh_field_order:
  "''client_id'' \<le> ''grant_type''" "\<not> ''grant_type'' \<le> ''client_id''" "''client_id'' \<le> ''refresh_token''" "''grant_type'' \<le> ''refresh_token''"
  by code_simp+

lemma sort_three:
  "a \<le> b \<Longrightarrow> \<not> b \<le> a \<Longrightarrow> a \<le> c \<Longrightarrow> b \<le> c \<Longrightarrow> sort_key fst [(b, x), (a, y), (c, z)] = [(a, y), (b, x), (c, z)]"
  for a b c :: string
  by simp

text \<open>
  Credentials that a refresh accepts are usable: identity and both tokens are nonempty and free
  of control characters, the expiry is set, and an access token just received expires in the
  future. What the answer leaves out is kept from the previous credentials, so the identity
  changes only when the provider sent an identity token.
\<close>

theorem Refresh_accepts:
  assumes "Refresh env transport previous = Inr c"
  shows "\<exists>wire. requestToken env transport ''application/json''
       (JsonBody (JObj [(''client_id'', JStr clientID), (''grant_type'', JStr ''refresh_token''), (''refresh_token'', JStr (RefreshToken previous))])) = Inr wire \<and>
     validField (ChatGPTAccountID c) \<and> validField (AccessToken c) \<and> validField (RefreshToken c) \<and> ExpiresAt c \<noteq> 0 \<and>
     (tr_IDToken wire = None \<longrightarrow> ChatGPTAccountID c = ChatGPTAccountID previous) \<and>
     RefreshToken c = (case tr_RefreshToken wire of None \<Rightarrow> RefreshToken previous | Some token \<Rightarrow> token) \<and>
     (case tr_AccessToken wire of
        None \<Rightarrow> AccessToken c = AccessToken previous \<and> ExpiresAt c = ExpiresAt previous
      | Some token \<Rightarrow> AccessToken c = token \<and> te_now env < ExpiresAt c)"
proof -
  have sorted: "marshal_fields [(''grant_type'', JStr ''refresh_token''), (''client_id'', JStr clientID), (''refresh_token'', JStr (RefreshToken previous))] =
      JObj [(''client_id'', JStr clientID), (''grant_type'', JStr ''refresh_token''), (''refresh_token'', JStr (RefreshToken previous))]"
    unfolding marshal_fields_def by (rule arg_cong [OF sort_three [OF refresh_field_order]])
  from assms obtain wire where wire: "requestToken env transport ''application/json''
       (JsonBody (JObj [(''client_id'', JStr clientID), (''grant_type'', JStr ''refresh_token''), (''refresh_token'', JStr (RefreshToken previous))])) = Inr wire"
    and creds: "credentials (te_parse env) wire previous (te_now env) = Inr c"
    by (auto simp: Refresh_def bindR_Inr sorted split: if_splits)
  show ?thesis
    by (rule exI [of _ wire]) (intro conjI impI wire credentials_Inr [OF creds] credentials_Inr(1) [OF creds, THEN conjunct1]
        credentials_Inr(1) [OF creds, THEN conjunct2, THEN conjunct1] credentials_Inr(1) [OF creds, THEN conjunct2, THEN conjunct2, THEN conjunct1]
        credentials_Inr(1) [OF creds, THEN conjunct2, THEN conjunct2, THEN conjunct2])
qed

definition toy_token_env :: token_env where
  "toy_token_env =
     \<lparr>te_ctx = None, te_newRequest = None, te_ParseTime = (\<lambda>_. None), te_ParseMediaType = Some, te_parse = (\<lambda>_. None), te_now = 100\<rparr>"

definition toy_answer :: RoundTrip where
  "toy_answer _ _ =
     Inr \<lparr>rs_StatusCode = 200, rs_RetryAfter = [], rs_ContentType = ''application/json'',
          rs_Body = (70, Some (JObj [(''access_token'', JStr ''new''), (''expires_in'', JNum ''60''), (''token_type'', JStr ''bearer'')]), None)\<rparr>"

definition toy_previous :: OAuthCredentials where
  "toy_previous = \<lparr>ChatGPTAccountID = ''acct'', AccessToken = ''old'', RefreshToken = ''r1'', ExpiresAt = 50\<rparr>"

theorem Refresh_accepts_witness:
  "\<exists>c. Refresh toy_token_env toy_answer toy_previous = Inr c \<and> ChatGPTAccountID c = ''acct'' \<and> RefreshToken c = ''r1'' \<and>
     AccessToken c = ''new'' \<and> 100 < ExpiresAt c \<and> validField (AccessToken c)"
proof -
  let ?c = "\<lparr>ChatGPTAccountID = ''acct'', AccessToken = ''new'', RefreshToken = ''r1'', ExpiresAt = 60000000100\<rparr>"
  have r: "Refresh toy_token_env toy_answer toy_previous = Inr ?c" by code_simp
  from Refresh_accepts [OF r] have "validField (AccessToken ?c)" by blast
  with r show ?thesis by (intro exI [of _ ?c]) simp
qed

section \<open>Current credentials\<close>

abbreviation db_steps :: "StoreEnv \<Rightarrow> DB \<Rightarrow> DB \<Rightarrow> bool" where
  "db_steps env \<equiv> (db_step env)\<^sup>*\<^sup>*"

text \<open>Other goroutines change the store by its own statements only.\<close>

definition store_only :: "StoreEnv \<Rightarrow> (World \<Rightarrow> World) \<Rightarrow> bool" where
  "store_only env f \<longleftrightarrow> (\<forall>w. db_steps env (w_db w) (w_db (f w)))"

definition current_turn_ok :: "StoreEnv \<Rightarrow> current_turn \<Rightarrow> bool" where
  "current_turn_ok env t \<longleftrightarrow> store_only env (ct_before_read t) \<and> store_only env (ct_before_check t)"

definition account_turn_ok :: "StoreEnv \<Rightarrow> account_turn \<Rightarrow> bool" where
  "account_turn_ok env t \<longleftrightarrow>
     (\<forall>u \<in> set (at_current t). current_turn_ok env u) \<and> store_only env (at_before_decide t) \<and> store_only env (at_waiting t)"

lemma store_onlyD: "store_only env f \<Longrightarrow> db_steps env (w_db w) (w_db (f w))"
  by (simp add: store_only_def)

lemma GetAccount_io: "GetAccount env io db i = Inr r \<Longrightarrow> GetAccount env None db i = Inr r"
  by (auto simp: GetAccount_def split: option.splits)

lemma current_check_Inr:
  "current_check i before revn got m = (m', Some (Inr (r, s))) \<Longrightarrow> got = Inr r \<and> rec_Enabled r"
  by (auto simp: current_check_def Let_def split: sum.splits if_splits option.splits)

lemma current_reads:
  "current env ts w i = (w', Some (Inr (r, s))) \<Longrightarrow> (\<And>t. t \<in> set ts \<Longrightarrow> current_turn_ok env t) \<Longrightarrow>
    \<exists>db. db_steps env (w_db w) db \<and> GetAccount env None db i = Inr r \<and> rec_Enabled r \<and> db_steps env db (w_db w')"
proof (induction env ts w i rule: current.induct)
  case (2 env t ts w i)
  define w1 where "w1 = ct_before_read t w"
  define w2 where "w2 = ct_before_check t w1"
  define got where "got = GetAccount env (ct_io t) (w_db w1) i"
  from "2.prems"(2) have ok: "store_only env (ct_before_read t)" "store_only env (ct_before_check t)"
    by (auto simp: current_turn_ok_def)
  from ok have s1: "db_steps env (w_db w) (w_db w1)" and s2: "db_steps env (w_db w1) (w_db w2)"
    unfolding w1_def w2_def by (auto intro: store_onlyD)
  from "2.prems"(1) obtain before revn where read: "current_read (ct_ctx t) i (w_mgr w) = Inr (before, revn)"
    by (auto split: sum.splits)
  obtain m res where check: "current_check i before revn got (w_mgr w2) = (m, res)"
    by (cases "current_check i before revn got (w_mgr w2)")
  show ?case
  proof (cases res)
    case None
    from "2.prems"(1) have "current env ts (w2\<lparr>w_mgr := m\<rparr>) i = (w', Some (Inr (r, s)))"
      using read check None by (simp add: w1_def w2_def got_def Let_def)
    from "2.IH" [OF read refl w1_def got_def w2_def check [symmetric] refl refl None this] "2.prems"(2)
    obtain db where "db_steps env (w_db w2) db" and "GetAccount env None db i = Inr r \<and> rec_Enabled r \<and> db_steps env db (w_db w')"
      by auto
    with s1 s2 show ?thesis by (meson rtranclp_trans)
  next
    case (Some result)
    with "2.prems"(1) read check have "w' = w2\<lparr>w_mgr := m\<rparr>" and "result = Inr (r, s)"
      by (simp_all add: w1_def w2_def got_def Let_def)
    with current_check_Inr [of i before revn got "w_mgr w2" m r s] check Some GetAccount_io s1 s2 show ?thesis
      by (fastforce simp: got_def)
  qed
qed simp

lemma current_decide_Return:
  "current_decide t1 t2 t3 waited i r s m = (m', Return (Inr a)) \<Longrightarrow>
    m' = m \<and> a = rec_Account r \<and> t3 < ExpiresAt (acc_credentials a) \<and> mg_refreshes m i = Some s \<and>
    \<not> rf_needsSignIn (mg_states m ! s) \<and> rf_replacement (mg_states m ! s) = None"
  by (auto simp: current_decide_def Let_def split: if_splits)

definition persisted :: "StoreEnv \<Rightarrow> account_turn list \<Rightarrow> DB \<Rightarrow> World \<Rightarrow> string \<Rightarrow> Account \<Rightarrow> bool" where
  "persisted env ts db0 w' i a \<longleftrightarrow> (\<exists>db record t s. db_steps env db0 db \<and> db_steps env db (w_db w') \<and>
    GetAccount env None db i = Inr record \<and> rec_Enabled record \<and> rec_Account record = a \<and>
    t \<in> set ts \<and> at_t3 t < ExpiresAt (acc_credentials a) \<and>
    mg_refreshes (w_mgr w') i = Some s \<and> \<not> rf_needsSignIn (mg_states (w_mgr w') ! s) \<and> rf_replacement (mg_states (w_mgr w') ! s) = None)"

lemma persisted_later: "persisted env ts db1 w' i a \<Longrightarrow> db_steps env db0 db1 \<Longrightarrow> persisted env (t # ts) db0 w' i a"
  unfolding persisted_def by (metis list.set_intros(2) rtranclp_trans)

lemma CurrentAccount_persists:
  assumes "CurrentAccount env ts waited w i = (w', Some (Inr a))" and "\<And>t. t \<in> set ts \<Longrightarrow> account_turn_ok env t"
  shows "persisted env ts (w_db w) w' i a"
  using assms
proof (induction env ts waited w i rule: CurrentAccount.induct)
  case (2 env t ts waited w i)
  from "2.prems"(1) obtain w1 r s where cur: "current env (at_current t) w i = (w1, Some (Inr (r, s)))"
    by (auto split: prod.splits option.splits sum.splits)
  define w2 where "w2 = at_before_decide t w1"
  obtain m d where dec: "current_decide (at_t1 t) (at_t2 t) (at_t3 t) waited i r s (w_mgr w2) = (m, d)"
    by (cases "current_decide (at_t1 t) (at_t2 t) (at_t3 t) waited i r s (w_mgr w2)")
  from "2.prems"(2) have ok: "account_turn_ok env t" by simp
  from current_reads [OF cur] ok obtain db where db: "db_steps env (w_db w) db" "GetAccount env None db i = Inr r"
      "rec_Enabled r" "db_steps env db (w_db w1)"
    by (auto simp: account_turn_ok_def)
  have step: "db_steps env (w_db w1) (w_db w2)" "\<And>v. db_steps env (w_db v) (w_db (at_waiting t v))"
    using ok by (auto simp: w2_def account_turn_ok_def store_only_def)
  note run = "2.prems"(1) [unfolded CurrentAccount.simps(2) cur prod.case option.case sum.case Let_def, folded w2_def, unfolded dec prod.case]
  show ?case
  proof (cases d)
    case (Return res)
    with run have "w' = w2\<lparr>w_mgr := m\<rparr>" and res: "res = Inr a" by simp_all
    with current_decide_Return [of "at_t1 t" "at_t2 t" "at_t3 t" waited i r s "w_mgr w2" m a] dec Return db step(1)
    show ?thesis unfolding persisted_def by (intro exI [of _ db] exI [of _ r] exI [of _ t] exI [of _ s]) auto
  next
    case Again
    with run have rest: "CurrentAccount env ts waited (w2\<lparr>w_mgr := m\<rparr>) i = (w', Some (Inr a))" by simp
    from "2.IH"(1) [OF cur [symmetric] refl refl refl w2_def refl dec [symmetric] refl Again rest] "2.prems"(2)
    have "persisted env ts (w_db w2) w' i a" by simp
    then show ?thesis using db step(1) by (blast intro: persisted_later rtranclp_trans)
  next
    case (Wait s')
    with run have rest: "CurrentAccount env ts True (at_waiting t (w2\<lparr>w_mgr := m\<rparr>)) i = (w', Some (Inr a))" and "at_wait t = WaitDone"
      by (auto split: wait_outcome.splits)
    from "2.IH"(2) [OF cur [symmetric] refl refl refl w2_def refl dec [symmetric] refl Wait this(2) this(1)] "2.prems"(2)
    have "persisted env ts (w_db (at_waiting t (w2\<lparr>w_mgr := m\<rparr>))) w' i a" by simp
    moreover have "db_steps env (w_db w) (w_db (at_waiting t (w2\<lparr>w_mgr := m\<rparr>)))"
      using db step(1) step(2) [of "w2\<lparr>w_mgr := m\<rparr>"] by (auto intro: rtranclp_trans)
    ultimately show ?thesis by (rule persisted_later)
  qed
qed simp


text \<open>
  C34. \<open>CurrentAccount\<close> returns only persisted, unexpired credentials: the account it returns was
  stored, enabled, at some moment during the call, its access token had not expired when the clock
  was last read, and the manager then neither knew that the account needs a new sign-in nor held
  rotated credentials it could not save. Other goroutines may write to the store at every point.
\<close>

theorem CurrentAccount_persisted:
  assumes "CurrentAccount env ts waited w i = (w', Some (Inr a))" and "\<And>t. t \<in> set ts \<Longrightarrow> account_turn_ok env t"
  shows "\<exists>db record t s. db_steps env (w_db w) db \<and> db_steps env db (w_db w') \<and>
    GetAccount env None db i = Inr record \<and> rec_Enabled record \<and> rec_Account record = a \<and>
    t \<in> set ts \<and> at_t3 t < ExpiresAt (acc_credentials a) \<and>
    mg_refreshes (w_mgr w') i = Some s \<and> \<not> rf_needsSignIn (mg_states (w_mgr w') ! s) \<and> rf_replacement (mg_states (w_mgr w') ! s) = None"
  using CurrentAccount_persists [OF assms] unfolding persisted_def .

text \<open>A concrete store whose credentials all expire at one instant and have one refresh token.\<close>

definition day_expiry :: time where "day_expiry = 63900000000 * Second"

definition day_env :: StoreEnv where
  "day_env = \<lparr>se_cipher = plain_aead,
     se_marshal = (\<lambda>c. if ExpiresAt c = day_expiry \<and> RefreshToken c = ''r'' \<and> length (AccessToken c) < 200
       then Some (char_of (length (AccessToken c)) # AccessToken c @ ChatGPTAccountID c) else None),
     se_unmarshal = (\<lambda>b. case b of [] \<Rightarrow> None
       | n # r \<Rightarrow> Some \<lparr>ChatGPTAccountID = drop (of_char n) r, AccessToken = take (of_char n) r, RefreshToken = ''r'', ExpiresAt = day_expiry\<rparr>)\<rparr>"

definition day_credentials :: "string \<Rightarrow> OAuthCredentials" where
  "day_credentials token = \<lparr>ChatGPTAccountID = ''w'', AccessToken = token, RefreshToken = ''r'', ExpiresAt = day_expiry\<rparr>"

definition day_account :: Account where
  "day_account = \<lparr>acc_identity = \<lparr>ai_ID = ''a1'', ai_Name = ''n''\<rparr>, acc_credentials = day_credentials ''t''\<rparr>"

definition day_world :: World where
  "day_world = \<lparr>w_mgr = NewManager, w_db = fst (CreateAccount day_env toy_nonce None empty_DB day_account True)\<rparr>"

definition day_current :: current_turn where
  "day_current = \<lparr>ct_ctx = None, ct_before_read = (\<lambda>w. w), ct_io = None, ct_before_check = (\<lambda>w. w)\<rparr>"

definition day_turn :: "time \<Rightarrow> account_turn" where
  "day_turn now = \<lparr>at_current = [day_current], at_before_decide = (\<lambda>w. w), at_t1 = now, at_t2 = now, at_t3 = now,
     at_waiting = (\<lambda>w. w), at_wait = WaitDone\<rparr>"

lemma day_codec_ok: "codec_ok day_env c"
  by (cases c) (simp add: codec_ok_def day_env_def)

lemma day_cipher_ok: "aead_ok (se_cipher day_env)"
  by (simp add: day_env_def plain_aead_ok)

lemma day_turn_ok: "account_turn_ok env (day_turn now)"
  by (simp add: account_turn_ok_def day_turn_def current_turn_ok_def day_current_def store_only_def)

theorem CurrentAccount_persisted_witness:
  "snd (CurrentAccount day_env [day_turn (day_expiry - Hour)] False day_world ''a1'') = Some (Inr day_account) \<and>
   day_expiry - Hour < ExpiresAt (acc_credentials day_account)"
proof -
  let ?r = "CurrentAccount day_env [day_turn (day_expiry - Hour)] False day_world ''a1''"
  have r: "snd ?r = Some (Inr day_account)" by code_simp
  then have run: "?r = (fst ?r, Some (Inr day_account))" by (metis prod.collapse)
  have ok: "\<And>t. t \<in> set [day_turn (day_expiry - Hour)] \<Longrightarrow> account_turn_ok day_env t" by (auto intro: day_turn_ok)
  from CurrentAccount_persisted [OF run ok] r show ?thesis by (auto simp: day_turn_def)
qed

section \<open>Refresh jobs\<close>

abbreviation record_id :: "AccountRecord \<Rightarrow> string" where
  "record_id r \<equiv> ai_ID (acc_identity (rec_Account r))"

text \<open>A record as the store reads it.\<close>

definition genuine :: "StoreEnv \<Rightarrow> AccountRecord \<Rightarrow> bool" where
  "genuine env r \<longleftrightarrow> (\<exists>name en. decodeAccount env (record_id r) name en (rec_revision r) = Inr r)"

lemma decodeAccount_Inr:
  "decodeAccount env i name en e = Inr r \<Longrightarrow>
    acc_identity (rec_Account r) = \<lparr>ai_ID = i, ai_Name = name\<rparr> \<and> rec_revision r = e \<and> (rec_Enabled r \<longleftrightarrow> en = 1) \<and>
    (\<exists>p. Decrypt (se_cipher env) i e = Inr p \<and> se_unmarshal env p = Some (acc_credentials (rec_Account r)))"
  by (auto simp: decodeAccount_def Account_New_Inr split: if_splits sum.splits option.splits)

lemma GetAccount_Inr:
  "GetAccount env io db i = Inr r \<Longrightarrow>
    \<exists>row. tbl_lookup ar_id i (accounts_t db) = Some row \<and> decodeAccount env i (ar_name row) (ar_enabled row) (ar_credentials row) = Inr r"
  by (auto simp: GetAccount_def split: option.splits)

lemma GetAccount_genuine:
  assumes "GetAccount env io db i = Inr r" shows "genuine env r \<and> record_id r = i"
proof -
  from GetAccount_Inr [OF assms] obtain row :: account_row where "decodeAccount env i (ar_name row) (ar_enabled row) (ar_credentials row) = Inr r" by blast
  with decodeAccount_Inr [OF this] show ?thesis by (auto simp: genuine_def)
qed

definition mgr_inv :: "StoreEnv \<Rightarrow> Manager \<Rightarrow> bool" where
  [inv_defs]: "mgr_inv env m \<longleftrightarrow>
     (\<forall>s < length (mg_states m). genuine env (rf_previous (mg_states m ! s))) \<and>
     (\<forall>i s. mg_refreshes m i = Some s \<longrightarrow> s < length (mg_states m) \<and> record_id (rf_previous (mg_states m ! s)) = i) \<and>
     (\<forall>i s. (i, s) \<in> set (mg_jobs m) \<longrightarrow> s < length (mg_states m) \<and> record_id (rf_previous (mg_states m ! s)) = i) \<and>
     distinct (map snd (mg_jobs m)) \<and>
     (\<forall>s < length (mg_states m). rf_running (mg_states m ! s) \<longleftrightarrow> s \<in> snd ` set (mg_jobs m))"

text \<open>Updates of a state that keep its record and its job keep the invariant.\<close>

lemma mgr_inv_upd_state:
  assumes "mgr_inv env m" and "rf_previous (f (mg_states m ! s)) = rf_previous (mg_states m ! s)"
    and "rf_running (f (mg_states m ! s)) = rf_running (mg_states m ! s)"
  shows "mgr_inv env (upd_state s f m)"
proof -
  have "rf_previous ((mg_states m)[s := f (mg_states m ! s)] ! k) = rf_previous (mg_states m ! k) \<and>
      rf_running ((mg_states m)[s := f (mg_states m ! s)] ! k) = rf_running (mg_states m ! k)" for k
    using assms(2,3) by (cases "k = s \<and> s < length (mg_states m)") (auto simp: list_update_beyond)
  with assms(1) show ?thesis by (simp add: mgr_inv_def upd_state_def)
qed

lemma mgr_inv_refreshes:
  assumes "mgr_inv env m" and "\<And>i s. r i = Some s \<Longrightarrow> mg_refreshes m i = Some s"
  shows "mgr_inv env (m\<lparr>mg_refreshes := r\<rparr>)"
proof -
  have "s < length (mg_states m) \<and> record_id (rf_previous (mg_states m ! s)) = i" if "r i = Some s" for i s
    using assms(1) assms(2) [OF that] by (simp add: mgr_inv_def)
  with assms(1) show ?thesis by (simp add: mgr_inv_def)
qed

lemma mgr_inv_frame:
  assumes "mgr_inv env m"
  shows "mgr_inv env (m\<lparr>mg_revision := n\<rparr>)" "mgr_inv env (m\<lparr>mg_closed := b\<rparr>)" "mgr_inv env (m\<lparr>mg_canceled := b\<rparr>)"
    "mgr_inv env (m\<lparr>mg_logins := ls\<rparr>)" "mgr_inv env (m\<lparr>mg_login := l\<rparr>)" "mgr_inv env (upd_login p g m)"
  using assms by (simp_all add: mgr_inv_def upd_login_def)

lemma invalidateLocked_inv:
  assumes "mgr_inv env m"
  shows "mgr_inv env (invalidateLocked i m)"
proof -
  have inv: "mgr_inv env (m\<lparr>mg_revision := mg_revision m + 1\<rparr>)" using assms by (rule mgr_inv_frame)
  then have "mgr_inv env (case mg_refreshes m i of
      None \<Rightarrow> m\<lparr>mg_revision := mg_revision m + 1\<rparr>
    | Some s \<Rightarrow> if rf_job (mg_states m ! s) \<noteq> None then upd_state s (\<lambda>st. st\<lparr>rf_job := Some True\<rparr>) (m\<lparr>mg_revision := mg_revision m + 1\<rparr>)
               else m\<lparr>mg_revision := mg_revision m + 1\<rparr>)"
    by (auto split: option.splits intro: mgr_inv_upd_state)
  then show ?thesis unfolding invalidateLocked_def Let_def
    by (auto intro!: mgr_inv_refreshes split: option.splits if_splits)
qed

lemma invalidateLocked_simps [simp]:
  "mg_refreshes (invalidateLocked i m) = (mg_refreshes m)(i := None)"
  "mg_jobs (invalidateLocked i m) = mg_jobs m" "mg_logins (invalidateLocked i m) = mg_logins m"
  "mg_login (invalidateLocked i m) = mg_login m" "length (mg_states (invalidateLocked i m)) = length (mg_states m)"
  "mg_closed (invalidateLocked i m) = mg_closed m" "mg_canceled (invalidateLocked i m) = mg_canceled m"
  by (auto simp: invalidateLocked_def Let_def upd_state_def split: option.splits)

lemma mgr_inv_alloc:
  assumes "mgr_inv env m" and "genuine env r" and "record_id r = i"
  shows "mgr_inv env (m\<lparr>mg_states := mg_states m @ [\<lparr>rf_previous = r, rf_running = False, rf_job = None, rf_replacement = None,
       rf_needsSignIn = needs, rf_retryAt = 0, rf_retryBlocked = False\<rparr>], mg_refreshes := (mg_refreshes m)(i \<mapsto> length (mg_states m))\<rparr>)"
  using assms unfolding mgr_inv_def by (auto simp: nth_append less_Suc_eq) (metis less_irrefl)

lemma current_check_inv:
  assumes inv: "mgr_inv env m" and got: "\<And>r. got = Inr r \<Longrightarrow> genuine env r \<and> record_id r = i"
    and check: "current_check i before revn got m = (m', res)"
  shows "mgr_inv env m'"
proof -
  have alloc: "mgr_inv env ((invalidateLocked i m)\<lparr>mg_states := mg_states (invalidateLocked i m) @ [\<lparr>rf_previous = r, rf_running = False, rf_job = None,
      rf_replacement = None, rf_needsSignIn = needs, rf_retryAt = 0, rf_retryBlocked = False\<rparr>],
      mg_refreshes := (mg_refreshes (invalidateLocked i m))(i \<mapsto> length (mg_states (invalidateLocked i m)))\<rparr>)" if "got = Inr r" for r needs
    using got [OF that] by (intro mgr_inv_alloc invalidateLocked_inv inv) auto
  show ?thesis using check inv invalidateLocked_inv [OF inv] alloc
    by (auto simp: current_check_def Let_def split: sum.splits if_splits option.splits)
qed

lemma current_decide_inv:
  assumes inv: "mgr_inv env m" and dec: "current_decide t1 t2 t3 waited i r s m = (m', d)"
  shows "mgr_inv env m'"
proof (cases "mg_refreshes m i = Some s \<and> \<not> rf_running (mg_states m ! s) \<and> m' \<noteq> m")
  case True
  with dec have m': "m' = (upd_state s (\<lambda>st. st\<lparr>rf_job := Some False, rf_running := True\<rparr>) m)\<lparr>mg_jobs := (i, s) # mg_jobs m\<rparr>"
    by (auto simp: current_decide_def Let_def split: if_splits)
  from inv True have s: "s < length (mg_states m)" "record_id (rf_previous (mg_states m ! s)) = i"
    by (auto simp: mgr_inv_def)
  with inv True have s3: "s \<notin> snd ` set (mg_jobs m)" by (simp add: mgr_inv_def)
  from s3 have "\<And>a. (a, s) \<notin> set (mg_jobs m)" by force
  with inv s show ?thesis unfolding m' mgr_inv_def upd_state_def by (auto simp: nth_list_update)
next
  case False
  with dec have "m' = m" by (auto simp: current_decide_def Let_def split: if_splits)
  with inv show ?thesis by simp
qed

lemma failed_state_simps [simp]:
  "rf_previous (failed_state now e c st) = rf_previous st" "rf_running (failed_state now e c st) = rf_running st"
  by (auto simp: failed_state_def Let_def split: option.splits)

lemma refresh_finish_inv:
  assumes inv: "mgr_inv env m" and job: "(i, s) \<in> set (mg_jobs m)"
  shows "mgr_inv env (refresh_finish now i s err c m)"
proof -
  define n where "n = (upd_state s (\<lambda>st. st\<lparr>rf_running := False\<rparr>) m)\<lparr>mg_jobs := remove1 (i, s) (mg_jobs m)\<rparr>"
  from inv have d: "distinct (map snd (mg_jobs m))" by (simp add: mgr_inv_def)
  then have dj: "distinct (mg_jobs m)" by (simp add: distinct_map)
  then have set: "set (remove1 (i, s) (mg_jobs m)) = set (mg_jobs m) - {(i, s)}" by (rule set_remove1_eq)
  have snd: "snd ` (set (mg_jobs m) - {(i, s)}) = snd ` set (mg_jobs m) - {s}"
    using d job inj_on_image_set_diff [of snd "set (mg_jobs m)" "set (mg_jobs m)" "{(i, s)}"] by (simp add: distinct_map)
  have "distinct (map snd (remove1 (i, s) (mg_jobs m)))"
    using d by (metis distinct_map distinct_remove1 inj_on_subset notin_set_remove1 subsetI)
  moreover from inv job have s: "s < length (mg_states m)" by (auto simp: mgr_inv_def)
  have prev: "rf_previous ((mg_states m)[s := (mg_states m ! s)\<lparr>rf_running := False\<rparr>] ! k) = rf_previous (mg_states m ! k)" for k
    using s by (cases "k = s") auto
  have run: "rf_running ((mg_states m)[s := (mg_states m ! s)\<lparr>rf_running := False\<rparr>] ! k) \<longleftrightarrow> rf_running (mg_states m ! k) \<and> k \<noteq> s" for k
    using s by (cases "k = s") auto
  ultimately have n: "mgr_inv env n"
    using inv unfolding mgr_inv_def n_def upd_state_def by (simp add: set snd prev run) blast
  then show ?thesis unfolding refresh_finish_def Let_def n_def [symmetric]
    by (auto intro: invalidateLocked_inv mgr_inv_upd_state split: option.splits)
qed

lemma mgr_inv_refresh_entry:
  assumes "mgr_inv env m" and "s < length (mg_states m)" and "record_id (rf_previous (mg_states m ! s)) = i"
  shows "mgr_inv env (m\<lparr>mg_refreshes := (mg_refreshes m)(i \<mapsto> s)\<rparr>)"
proof -
  have "k < length (mg_states m) \<and> record_id (rf_previous (mg_states m ! k)) = j" if "((mg_refreshes m)(i \<mapsto> s)) j = Some k" for j k
    using assms that by (cases "j = i") (auto simp: mgr_inv_def)
  with assms(1) show ?thesis by (simp add: mgr_inv_def del: fun_upd_apply)
qed

lemma invalidate_inv: assumes "mgr_inv env m" shows "mgr_inv env (invalidate i keep m)"
proof -
  define n where "n = (case mg_refreshes m i of
      Some s \<Rightarrow> if keep \<and> rf_needsSignIn (mg_states (invalidateLocked i m) ! s)
                then (invalidateLocked i m)\<lparr>mg_refreshes := (mg_refreshes (invalidateLocked i m))(i \<mapsto> s)\<rparr> else invalidateLocked i m
    | None \<Rightarrow> invalidateLocked i m)"
  have "mgr_inv env n"
  proof (cases "mg_refreshes m i")
    case None
    then show ?thesis using invalidateLocked_inv [OF assms] by (simp add: n_def)
  next
    case (Some s)
    have "record_id (rf_previous (mg_states (invalidateLocked i m) ! s)) = i" and "s < length (mg_states m)"
      using assms Some by (auto simp: mgr_inv_def invalidateLocked_def upd_state_def Let_def)
    with invalidateLocked_inv [OF assms, of i] show ?thesis
      using mgr_inv_refresh_entry [OF invalidateLocked_inv [OF assms, of i], of s i] by (simp add: n_def Some)
  qed
  then show ?thesis unfolding invalidate_def Let_def n_def [symmetric]
    by (auto intro: mgr_inv_frame split: option.splits)
qed

section \<open>The manager as a state machine\<close>

text \<open>
  A login job is in one of five places between which other goroutines run. A finished save waits
  with its outcome until the job gets the mutex.
\<close>

datatype login_phase =
    Calling string string bool
  | Called "OAuthCredentials result"
  | Holding "OAuthCredentials result"
  | Checked "OAuthCredentials result"
  | Stored "error option"

record OSys =
  os_world :: World
  os_saved :: "(nat \<times> error option \<times> OAuthCredentials option) list"
  os_logins :: "(nat \<times> login_phase) list"

abbreviation os_mgr :: "OSys \<Rightarrow> Manager" where "os_mgr s \<equiv> w_mgr (os_world s)"
abbreviation os_db :: "OSys \<Rightarrow> DB" where "os_db s \<equiv> w_db (os_world s)"

definition with_mgr :: "OSys \<Rightarrow> Manager \<Rightarrow> OSys" where
  "with_mgr s m = s\<lparr>os_world := (os_world s)\<lparr>w_mgr := m\<rparr>\<rparr>"

definition with_db :: "OSys \<Rightarrow> DB \<Rightarrow> OSys" where
  "with_db s db = s\<lparr>os_world := (os_world s)\<lparr>w_db := db\<rparr>\<rparr>"

definition start_OSys :: "OSys \<Rightarrow> bool" where
  "start_OSys s \<longleftrightarrow> os_mgr s = NewManager \<and> os_db s = empty_DB \<and> os_saved s = [] \<and> os_logins s = []"

lemma with_simps [simp]:
  "w_mgr (os_world (with_mgr s m)) = m" "w_db (os_world (with_mgr s m)) = w_db (os_world s)"
  "w_mgr (os_world (with_db s db)) = w_mgr (os_world s)" "w_db (os_world (with_db s db)) = db"
  "os_saved (with_mgr s m) = os_saved s" "os_logins (with_mgr s m) = os_logins s"
  "os_saved (with_db s db) = os_saved s" "os_logins (with_db s db) = os_logins s"
  by (simp_all add: with_mgr_def with_db_def)

definition move_login :: "nat \<times> login_phase \<Rightarrow> (nat \<times> login_phase) option \<Rightarrow> (nat \<times> login_phase) list \<Rightarrow> (nat \<times> login_phase) list" where
  "move_login j j' js = (case j' of None \<Rightarrow> remove1 j js | Some k \<Rightarrow> k # remove1 j js)"

text \<open>
  The steps: one per locked section or store call of the manager, plus any statement of other
  users of the store. A store read is of the database at some moment, so \<open>got\<close> may be stale.
\<close>

inductive oauth_step :: "StoreEnv \<Rightarrow> OSys \<Rightarrow> OSys \<Rightarrow> bool" for env where
  store: "db_step env (os_db s) db' \<Longrightarrow> oauth_step env s (with_db s db')"
| check: "got = GetAccount env io db i \<Longrightarrow> current_check i before revn got (os_mgr s) = (m', r) \<Longrightarrow> oauth_step env s (with_mgr s m')"
| decide: "current_decide t1 t2 t3 waited i record k (os_mgr s) = (m', d) \<Longrightarrow> oauth_step env s (with_mgr s m')"
| save: "(i, k) \<in> set (mg_jobs (os_mgr s)) \<Longrightarrow> length nonce = 12 \<Longrightarrow>
    (\<And>c. refresh_fetch now answer (mg_states (os_mgr s) ! k) = Inr c \<Longrightarrow> codec_ok env c) \<Longrightarrow>
    refresh_save env nonce io (mg_states (os_mgr s) ! k) (refresh_fetch now answer (mg_states (os_mgr s) ! k)) (os_db s) = (db', err, c) \<Longrightarrow>
    oauth_step env s ((with_db s db')\<lparr>os_saved := (k, err, c) # os_saved s\<rparr>)"
| finish: "(i, k) \<in> set (mg_jobs (os_mgr s)) \<Longrightarrow> (k, err, c) \<in> set (os_saved s) \<Longrightarrow>
    oauth_step env s ((with_mgr s (refresh_finish now i k err c (os_mgr s)))\<lparr>os_saved := remove1 (k, err, c) (os_saved s)\<rparr>)"
| invalidated: "oauth_step env s (with_mgr s (invalidate i keep (os_mgr s)))"
| start: "startLogin ctx t1 t2 auth loginID identity previous (os_mgr s) = (m', r) \<Longrightarrow> oauth_step env s (with_mgr s m')"
| look: "Manager_LoginStatus now (os_mgr s) = (m', r) \<Longrightarrow> oauth_step env s (with_mgr s m')"
| cancel: "cancel_begin ctx now loginID (os_mgr s) = (m', r) \<Longrightarrow> oauth_step env s (with_mgr s m')"
| canceled: "\<not> lg_commit (mg_logins (os_mgr s) ! p) \<Longrightarrow> cancel_commit ctx now p (os_mgr s) = (m', r) \<Longrightarrow> oauth_step env s (with_mgr s m')"
| refused: "callback_claim path verb n query now (os_mgr s) = (m', Inl status) \<Longrightarrow> oauth_step env s (with_mgr s m')"
| claim: "callback_claim path verb n query now (os_mgr s) = (m', Inr (p, code, verifier, denied)) \<Longrightarrow>
    oauth_step env s ((with_mgr s m')\<lparr>os_logins := (p, Calling code verifier denied) # os_logins s\<rparr>)"
| call: "(p, Calling code verifier denied) \<in> set (os_logins s) \<Longrightarrow>
    oauth_step env s (s\<lparr>os_logins := move_login (p, Calling code verifier denied) (Some (p, Called (finish_exchange exchange code verifier denied))) (os_logins s)\<rparr>)"
| hold: "(p, Called r) \<in> set (os_logins s) \<Longrightarrow> \<not> lg_commit (mg_logins (os_mgr s) ! p) \<Longrightarrow>
    oauth_step env s ((with_mgr s (upd_login p (\<lambda>l. l\<lparr>lg_commit := True\<rparr>) (os_mgr s)))
      \<lparr>os_logins := move_login (p, Called r) (Some (p, Holding (finish_hold ctx r))) (os_logins s)\<rparr>)"
| active: "(p, Holding r) \<in> set (os_logins s) \<Longrightarrow> finish_active (os_mgr s) p \<Longrightarrow>
    oauth_step env s (s\<lparr>os_logins := move_login (p, Holding r) (Some (p, Checked r)) (os_logins s)\<rparr>)"
| inactive: "(p, Holding r) \<in> set (os_logins s) \<Longrightarrow> \<not> finish_active (os_mgr s) p \<Longrightarrow>
    oauth_step env s ((with_mgr s (finish_end p (os_mgr s)))\<lparr>os_logins := move_login (p, Holding r) None (os_logins s)\<rparr>)"
| login_save: "(p, Checked r) \<in> set (os_logins s) \<Longrightarrow> length nonce = 12 \<Longrightarrow> (\<And>c. r = Inr c \<Longrightarrow> codec_ok env c) \<Longrightarrow>
    finish_store env nonce io (mg_logins (os_mgr s) ! p) r (os_db s) = (db', err) \<Longrightarrow>
    oauth_step env s ((with_db s db')\<lparr>os_logins := move_login (p, Checked r) (Some (p, Stored err)) (os_logins s)\<rparr>)"
| login_end: "(p, Stored err) \<in> set (os_logins s) \<Longrightarrow>
    oauth_step env s ((with_mgr s (finish_end p (finish_status p err (os_mgr s))))\<lparr>os_logins := move_login (p, Stored err) None (os_logins s)\<rparr>)"
| stopping: "oauth_step env s (with_mgr s (stop_begin (os_mgr s)))"
| canceling: "oauth_step env s (with_mgr s ((os_mgr s)\<lparr>mg_canceled := True\<rparr>))"
| stopped: "mg_closed (os_mgr s) \<Longrightarrow> mg_jobs (os_mgr s) = [] \<Longrightarrow> os_logins s = [] \<Longrightarrow> oauth_step env s (with_mgr s (stop_end (os_mgr s)))"

lemma login_ops_inv:
  assumes "mgr_inv env m"
  shows "mgr_inv env (expireLoginLocked now m)" "mgr_inv env (finish_end p m)" "mgr_inv env (finish_status p err m)"
    "mgr_inv env (stop_begin m)" "mgr_inv env (stop_end m)"
  using assms mgr_inv_refreshes [of env m Map.empty]
  by (auto simp: expireLoginLocked_def finish_end_def finish_status_def stop_begin_def stop_end_def Let_def
      intro!: mgr_inv_frame invalidateLocked_inv split: option.splits)

lemma login_calls_inv:
  assumes "mgr_inv env m"
  shows "startLogin ctx t1 t2 auth loginID identity previous m = (m', r1) \<Longrightarrow> mgr_inv env m'"
    "Manager_LoginStatus now m = (m', r2) \<Longrightarrow> mgr_inv env m'"
    "cancel_begin ctx now loginID m = (m', r3) \<Longrightarrow> mgr_inv env m'"
    "cancel_commit ctx now p m = (m', r4) \<Longrightarrow> mgr_inv env m'"
    "callback_claim path verb n query now m = (m', r5) \<Longrightarrow> mgr_inv env m'"
  using assms login_ops_inv [OF assms]
  by (auto simp: startLogin_def Manager_LoginStatus_def cancel_begin_def cancel_commit_def callback_claim_def Let_def
      intro: mgr_inv_frame split: if_splits option.splits)

lemma oauth_step_mgr_inv: "oauth_step env s t \<Longrightarrow> mgr_inv env (os_mgr s) \<Longrightarrow> mgr_inv env (os_mgr t)"
proof (induction rule: oauth_step.induct)
  case (check got io db i before revn s m' r)
  have "genuine env r \<and> record_id r = i" if "got = Inr r" for r
    by (rule GetAccount_genuine [of env io db]) (use check(1) that in simp)
  from current_check_inv [OF check(3) this check(2)] show ?case by simp
qed (auto intro: current_decide_inv refresh_finish_inv invalidate_inv login_calls_inv login_ops_inv mgr_inv_frame)

text \<open>The store sees only its own statements.\<close>

lemma refresh_save_db:
  assumes "refresh_save env nonce io st fetched db = (db', err, c)" and "length nonce = 12" and "\<And>c. fetched = Inr c \<Longrightarrow> codec_ok env c"
  shows "db_steps env db db'"
proof (cases fetched)
  case (Inl e)
  with assms(1) show ?thesis by (simp add: refresh_save_def)
next
  case (Inr creds)
  with assms(1) have "ReplaceAccountCredentialsIfUnchanged env nonce io db (rf_previous st) creds = (db', err)"
    by (auto simp: refresh_save_def split: prod.splits)
  from db_step.replace [OF this assms(2) assms(3) [OF Inr]] show ?thesis by blast
qed

lemma finish_store_db:
  assumes "finish_store env nonce io l r db = (db', err)" and "length nonce = 12" and "\<And>c. r = Inr c \<Longrightarrow> codec_ok env c"
  shows "db_steps env db db'"
proof (cases r)
  case (Inl e)
  with assms(1) show ?thesis by (simp add: finish_store_def)
next
  case (Inr creds)
  note codec = assms(3) [OF Inr]
  show ?thesis
  proof (cases "lg_previous l")
    case None
    show ?thesis
    proof (cases "Account_New (lg_identity l) creds")
      case (Inr v)
      then have "acc_credentials v = creds" by (simp add: Account_New_Inr)
      moreover have "CreateAccount env nonce io db v True = (db', err)"
        using assms(1) None Inr \<open>r = Inr creds\<close> by (simp add: finish_store_def)
      ultimately show ?thesis using db_step.create_account [of env nonce io db v True db' err] assms(2) codec by blast
    qed (use assms(1) None \<open>r = Inr creds\<close> in \<open>simp add: finish_store_def\<close>)
  next
    case (Some prev)
    then have "ReplaceAccountCredentialsIfUnchanged env nonce io db prev creds = (db', err)"
      using assms(1) Inr by (simp add: finish_store_def)
    from db_step.replace [OF this assms(2) codec] show ?thesis by blast
  qed
qed

lemma oauth_step_db: "oauth_step env s t \<Longrightarrow> db_steps env (os_db s) (os_db t)"
  by (induction rule: oauth_step.induct) (auto dest: refresh_save_db finish_store_db)

definition os_inv :: "StoreEnv \<Rightarrow> OSys \<Rightarrow> bool" where
  [inv_defs]: "os_inv env s \<longleftrightarrow> mgr_inv env (os_mgr s) \<and> (aead_ok (se_cipher env) \<longrightarrow> db_wf env (os_db s))"

interpretation oauth_sys: invariant_system start_OSys "oauth_step env" "os_inv env" for env
proof
  show "os_inv env s" if "start_OSys s" for s
    using that db_wf_empty by (simp add: os_inv_def start_OSys_def NewManager_def mgr_inv_def)
next
  fix s t assume "os_inv env s" "oauth_step env s t"
  then show "os_inv env t"
    using oauth_step_mgr_inv db_sys.inv_steps [OF oauth_step_db] by (simp add: os_inv_def)
qed

lemma filter_key_once: "distinct (map snd xs) \<Longrightarrow> length (filter (\<lambda>j. snd j = k) xs) \<le> 1"
proof (induction xs)
  case (Cons x xs)
  then show ?case
  proof (cases "snd x = k")
    case True
    with Cons.prems have "filter (\<lambda>j. snd j = k) xs = []" by (simp add: filter_empty_conv) (metis image_eqI)
    then show ?thesis by simp
  qed simp
qed simp

text \<open>
  C36. Single flight: at every moment each refresh state has at most one job, and the state an
  account has now is marked as running exactly when its job exists, so a refresh token is never
  presented twice at the same time on behalf of one state.
\<close>

theorem refresh_single_flight:
  assumes "reachable start_OSys (oauth_step env) s"
  shows "length (filter (\<lambda>j. snd j = k) (mg_jobs (os_mgr s))) \<le> 1 \<and>
    (mg_refreshes (os_mgr s) i = Some k \<longrightarrow> (rf_running (mg_states (os_mgr s) ! k) \<longleftrightarrow> (i, k) \<in> set (mg_jobs (os_mgr s))))"
proof -
  from oauth_sys.inv_reachable [OF assms] have inv: "mgr_inv env (os_mgr s)" by (simp add: os_inv_def)
  then have d: "distinct (map snd (mg_jobs (os_mgr s)))" by (simp add: mgr_inv_def)
  then have "length (filter (\<lambda>j. snd j = k) (mg_jobs (os_mgr s))) \<le> 1" by (rule filter_key_once)
  moreover have "rf_running (mg_states (os_mgr s) ! k) \<longleftrightarrow> (i, k) \<in> set (mg_jobs (os_mgr s))" if "mg_refreshes (os_mgr s) i = Some k"
  proof -
    from inv that have k: "k < length (mg_states (os_mgr s))" and i: "record_id (rf_previous (mg_states (os_mgr s) ! k)) = i"
      by (auto simp: mgr_inv_def)
    have "j = i" if "(j, k) \<in> set (mg_jobs (os_mgr s))" for j using inv that i by (simp add: mgr_inv_def)
    moreover have "rf_running (mg_states (os_mgr s) ! k) \<longleftrightarrow> k \<in> snd ` set (mg_jobs (os_mgr s))" using inv k by (simp add: mgr_inv_def)
    ultimately show ?thesis by force
  qed
  ultimately show ?thesis by blast
qed

definition day_sys :: OSys where
  "day_sys = \<lparr>os_world = day_world, os_saved = [], os_logins = []\<rparr>"

definition day_record :: AccountRecord where
  "day_record = projr (GetAccount day_env None (w_db day_world) ''a1'')"

definition day_checked :: OSys where
  "day_checked = with_mgr day_sys (fst (current_check ''a1'' None 0 (GetAccount day_env None (w_db day_world) ''a1'') (os_mgr day_sys)))"

definition day_refreshing :: OSys where
  "day_refreshing = with_mgr day_checked (fst (current_decide day_expiry day_expiry day_expiry False ''a1'' day_record 0 (os_mgr day_checked)))"

lemma day_sys_reachable: "reachable start_OSys (oauth_step day_env) day_sys"
proof -
  let ?s = "\<lparr>os_world = \<lparr>w_mgr = NewManager, w_db = empty_DB\<rparr>, os_saved = [], os_logins = []\<rparr>"
  have "reachable start_OSys (oauth_step day_env) ?s" by (rule reach_start) (simp add: start_OSys_def)
  moreover have "db_step day_env empty_DB (fst (CreateAccount day_env toy_nonce None empty_DB day_account True))"
    by (rule db_step.create_account [of day_env toy_nonce None _ day_account True _
          "snd (CreateAccount day_env toy_nonce None empty_DB day_account True)"])
       (simp_all add: day_codec_ok toy_nonce_def)
  then have "oauth_step day_env ?s (with_db ?s (w_db day_world))"
    by (intro oauth_step.store) (simp add: day_world_def)
  moreover have "with_db ?s (w_db day_world) = day_sys" by (simp add: with_db_def day_sys_def day_world_def)
  ultimately show ?thesis by (metis reach_step)
qed

lemma day_refreshing_reachable: "reachable start_OSys (oauth_step day_env) day_refreshing"
proof -
  have "oauth_step day_env day_sys day_checked"
    unfolding day_checked_def
    by (rule oauth_step.check [OF refl, where io = None and db = "w_db day_world" and i = "''a1''" and before = None and revn = 0])
       (rule prod.collapse [symmetric])
  then have "reachable start_OSys (oauth_step day_env) day_checked" by (rule reach_step [OF day_sys_reachable])
  moreover have "oauth_step day_env day_checked day_refreshing"
    unfolding day_refreshing_def by (rule oauth_step.decide) (rule prod.collapse [symmetric])
  ultimately show ?thesis by (rule reach_step)
qed

theorem refresh_single_flight_witness:
  "mg_refreshes (os_mgr day_refreshing) ''a1'' = Some 0 \<and> rf_running (mg_states (os_mgr day_refreshing) ! 0) \<and>
   (''a1'', 0) \<in> set (mg_jobs (os_mgr day_refreshing))"
proof -
  have "mg_refreshes (os_mgr day_refreshing) ''a1'' = Some 0" and "rf_running (mg_states (os_mgr day_refreshing) ! 0)"
    by code_simp+
  with refresh_single_flight [OF day_refreshing_reachable, of 0 "''a1''"] show ?thesis by simp
qed

end
