(* ===== verification/OAuthRefresh.thy ===== *)
theory OAuthRefresh
  imports OAuthLaws
begin

text \<open>What a refresh job writes: new tokens for the same ChatGPT account, for one stored account, or nothing.\<close>

lemma Replace_effect:
  assumes wf: "db_wf env db" and aead: "aead_ok (se_cipher env)" and nonce: "length nonce = 12" and codec: "codec_ok env c"
    and gen: "genuine env prev" and rep: "ReplaceAccountCredentialsIfUnchanged env nonce io db prev c = (db', None)"
  shows "\<exists>r r'. GetAccount env None db (record_id prev) = Inr r \<and> rec_Enabled r \<and>
      acc_credentials (rec_Account r) = acc_credentials (rec_Account prev) \<and>
      GetAccount env None db' (record_id prev) = Inr r' \<and> rec_Enabled r' \<and>
      rec_Account r' = (rec_Account r)\<lparr>acc_credentials := c\<rparr> \<and>
      (\<forall>j. j \<noteq> record_id prev \<longrightarrow> GetAccount env None db' j = GetAccount env None db j)"
proof -
  let ?i = "record_id prev"
  let ?hit = "\<lambda>row. ar_id row = ?i \<and> ar_credentials row = rec_revision prev \<and> ar_enabled row = 1"
  from Replace_tables [OF rep] obtain row e where row: "row \<in> set (accounts_t db)" "?hit row"
    and c: "wf_credentials c" and e: "encryptCredentials env nonce ?i c = Inr e"
    and db': "db' = db\<lparr>accounts_t := tbl_update ?hit (\<lambda>row. row\<lparr>ar_credentials := e\<rparr>) (accounts_t db)\<rparr>"
    by auto
  from wf row have look: "tbl_lookup ar_id ?i (accounts_t db) = Some row" by (auto simp: db_wf_def intro: tbl_lookup_hit)
  from wf row obtain c0 where ids: "\<not> blank ?i" "\<not> blank (ar_name row)"
    and dec: "decodeAccount env ?i (ar_name row) 1 (rec_revision prev) =
      Inr \<lparr>rec_Account = \<lparr>acc_identity = \<lparr>ai_ID = ?i, ai_Name = ar_name row\<rparr>, acc_credentials = c0\<rparr>, rec_Enabled = True, rec_revision = rec_revision prev\<rparr>"
    by (auto simp: db_wf_def list_all_iff wf_account_row_def)
  from gen obtain name en where "decodeAccount env ?i name en (rec_revision prev) = Inr prev" by (auto simp: genuine_def)
  from decodeAccount_Inr [OF this] decodeAccount_Inr [OF dec] have "c0 = acc_credentials (rec_Account prev)" by auto
  moreover have get: "GetAccount env None db ?i = decodeAccount env ?i (ar_name row) 1 (rec_revision prev)"
    using look row(2) ids(1) by (simp add: GetAccount_def validateAccountID_def)
  moreover have "GetAccount env None db' ?i = decodeAccount env ?i (ar_name row) 1 e"
    using look row(2) ids(1) by (simp add: GetAccount_def validateAccountID_def db' upd_cred.lookup_update)
  moreover have "decodeAccount env ?i (ar_name row) 1 e =
      Inr \<lparr>rec_Account = \<lparr>acc_identity = \<lparr>ai_ID = ?i, ai_Name = ar_name row\<rparr>, acc_credentials = c\<rparr>, rec_Enabled = True, rec_revision = e\<rparr>"
    using decode_encrypted [OF aead nonce codec e c ids(2), of 1] by simp
  moreover have "GetAccount env None db' j = GetAccount env None db j" if "j \<noteq> ?i" for j
  proof -
    have "tbl_lookup ar_id j (accounts_t db') = tbl_lookup ar_id j (accounts_t db)"
      using that by (cases "tbl_lookup ar_id j (accounts_t db)") (auto simp: db' upd_cred.lookup_update dest: tbl_lookup_Some)
    then show ?thesis by (auto simp: GetAccount_def split: option.splits)
  qed
  ultimately show ?thesis using dec by simp
qed

text \<open>
  C35. A refresh never rebinds an account. When the store accepts what a job saves, the account was
  still enabled with the credentials the job started from, it now has the job's credentials for the
  same ChatGPT account, still enabled under the same name, and no other account reads differently.
  Otherwise the store is as before.
\<close>

theorem refresh_keeps_identity:
  assumes aead: "aead_ok (se_cipher env)" and reach: "reachable start_OSys (oauth_step env) s"
    and job: "(i, k) \<in> set (mg_jobs (os_mgr s))" and nonce: "length nonce = 12"
    and codec: "\<And>c. refresh_fetch now answer (mg_states (os_mgr s) ! k) = Inr c \<Longrightarrow> codec_ok env c"
    and save: "refresh_save env nonce io (mg_states (os_mgr s) ! k) (refresh_fetch now answer (mg_states (os_mgr s) ! k)) (os_db s) = (db', err, left)"
  shows "(case err of
      Some _ \<Rightarrow> db' = os_db s
    | None \<Rightarrow> (\<exists>r r'. GetAccount env None (os_db s) i = Inr r \<and> GetAccount env None db' i = Inr r' \<and> rec_Enabled r \<and> rec_Enabled r' \<and>
        acc_credentials (rec_Account r) = acc_credentials (rec_Account (rf_previous (mg_states (os_mgr s) ! k))) \<and>
        refresh_fetch now answer (mg_states (os_mgr s) ! k) = Inr (acc_credentials (rec_Account r')) \<and>
        ChatGPTAccountID (acc_credentials (rec_Account r')) = ChatGPTAccountID (acc_credentials (rec_Account r)) \<and>
        acc_identity (rec_Account r') = acc_identity (rec_Account r) \<and>
        (\<forall>j. j \<noteq> i \<longrightarrow> GetAccount env None db' j = GetAccount env None (os_db s) j)))"
proof -
  let ?st = "mg_states (os_mgr s) ! k"
  from oauth_sys.inv_reachable [OF reach] aead have inv: "mgr_inv env (os_mgr s)" and wf: "db_wf env (os_db s)"
    by (auto simp: os_inv_def)
  from inv job have gen: "genuine env (rf_previous ?st)" and i: "record_id (rf_previous ?st) = i" by (auto simp: mgr_inv_def)
  show ?thesis
  proof (cases "refresh_fetch now answer ?st")
    case (Inl e)
    with save show ?thesis by (auto simp: refresh_save_def)
  next
    case (Inr c)
    then have same: "ChatGPTAccountID c = ChatGPTAccountID (acc_credentials (rec_Account (rf_previous ?st)))"
      by (auto simp: refresh_fetch_def bindR_Inr split: if_splits)
    from save Inr have rep: "ReplaceAccountCredentialsIfUnchanged env nonce io (os_db s) (rf_previous ?st) c = (db', err)"
      by (auto simp: refresh_save_def split: prod.splits)
    show ?thesis
    proof (cases err)
      case None
      from Replace_effect [OF wf aead nonce codec [OF Inr] gen rep [unfolded None]] obtain r r' where
        "GetAccount env None (os_db s) i = Inr r" "GetAccount env None db' i = Inr r'" "rec_Enabled r" "rec_Enabled r'"
        "acc_credentials (rec_Account r) = acc_credentials (rec_Account (rf_previous ?st))"
        "rec_Account r' = (rec_Account r)\<lparr>acc_credentials := c\<rparr>"
        "\<forall>j. j \<noteq> i \<longrightarrow> GetAccount env None db' j = GetAccount env None (os_db s) j"
        unfolding i by blast
      then show ?thesis using Inr same by (simp add: None)
    next
      case (Some e)
      with Replace_tables [OF rep] show ?thesis by auto
    qed
  qed
qed

definition day_answer :: "OAuthCredentials \<Rightarrow> OAuthCredentials result" where
  "day_answer _ = Inr (day_credentials ''t2'')"

definition day_save :: "DB \<times> error option \<times> OAuthCredentials option" where
  "day_save = refresh_save day_env toy_nonce None (mg_states (os_mgr day_refreshing) ! 0)
     (refresh_fetch day_expiry day_answer (mg_states (os_mgr day_refreshing) ! 0)) (os_db day_refreshing)"

theorem refresh_keeps_identity_witness:
  "fst (snd day_save) = None \<and>
   (\<exists>r'. GetAccount day_env None (fst day_save) ''a1'' = Inr r' \<and> ChatGPTAccountID (acc_credentials (rec_Account r')) = ''w'' \<and>
     Inr (acc_credentials (rec_Account r')) = day_answer (day_credentials ''t''))"
proof -
  have ok: "fst (snd day_save) = None" by code_simp
  have job: "(''a1'', 0) \<in> set (mg_jobs (os_mgr day_refreshing))" by code_simp
  have fetch: "refresh_fetch day_expiry day_answer (mg_states (os_mgr day_refreshing) ! 0) = Inr (day_credentials ''t2'')" by code_simp
  have save: "refresh_save day_env toy_nonce None (mg_states (os_mgr day_refreshing) ! 0)
     (refresh_fetch day_expiry day_answer (mg_states (os_mgr day_refreshing) ! 0)) (os_db day_refreshing) = (fst day_save, None, snd (snd day_save))"
    unfolding day_save_def [symmetric] using ok by (metis prod.collapse)
  from refresh_keeps_identity [OF day_cipher_ok day_refreshing_reachable job _ _ save] fetch
  obtain r' where "GetAccount day_env None (fst day_save) ''a1'' = Inr r'" and "acc_credentials (rec_Account r') = day_credentials ''t2''"
    by (auto simp: toy_nonce_def day_codec_ok)
  with ok show ?thesis by (intro conjI exI [of _ r']) (simp_all add: day_answer_def, simp add: day_credentials_def)
qed

end
