(* ===== verification/OAuthLogin.thy ===== *)
theory OAuthLogin
  imports OAuthLaws
begin

text \<open>
  The life of a browser login: the moves of its state, that its code is exchanged at most once, and
  that a canceled login saves nothing.
\<close>

section \<open>Moves\<close>

definition allowed_move :: "LoginState \<Rightarrow> LoginState \<Rightarrow> bool" where
  "allowed_move a b \<longleftrightarrow> a = b \<or> (a = LoginWaiting \<and> b \<in> {LoginExchanging, LoginCanceled, LoginExpired}) \<or>
     (a = LoginExchanging \<and> b \<in> {LoginSucceeded, LoginFailed, LoginCanceled})"

definition commit_held :: "Manager \<Rightarrow> nat \<Rightarrow> bool" where
  "commit_held m p = lg_commit (mg_logins m ! p)"

definition latest :: "Manager \<Rightarrow> nat \<Rightarrow> bool" where
  "latest m p \<longleftrightarrow> mg_login m = Some p"

text \<open>What an operation that does not touch commit tokens may do to the logins there are.\<close>

definition login_moves :: "Manager \<Rightarrow> Manager \<Rightarrow> bool" where
  "login_moves m m' \<longleftrightarrow> mg_login m' = mg_login m \<and> length (mg_logins m') = length (mg_logins m) \<and>
     (\<forall>p < length (mg_logins m). allowed_move (login_state m p) (login_state m' p) \<and> commit_held m' p = commit_held m p)"

lemma allowed_refl [simp]: "allowed_move a a"
  by (simp add: allowed_move_def)

lemma login_moves_same: "mg_logins m' = mg_logins m \<Longrightarrow> mg_login m' = mg_login m \<Longrightarrow> login_moves m m'"
  by (simp add: login_moves_def login_state_def commit_held_def)

lemma login_moves_upd:
  assumes "p < length (mg_logins m) \<Longrightarrow> allowed_move (login_state m p) (ls_State (lg_status (f (mg_logins m ! p))))"
    and "\<And>l. lg_commit (f l) = lg_commit l"
  shows "login_moves m (upd_login p f m)"
  using assms by (cases "p < length (mg_logins m)")
    (auto simp: login_moves_def upd_login_def login_state_def commit_held_def nth_update_if)

lemma set_login_state_simps [simp]:
  "ls_State (lg_status (set_login_state st l)) = st" "lg_commit (set_login_state st l) = lg_commit l"
  "lg_status (clearSensitive l) = lg_status l" "lg_commit (clearSensitive l) = lg_commit l"
  by (simp_all add: set_login_state_def clearSensitive_def)

lemma expire_moves: "login_moves m (expireLoginLocked now m)"
  by (auto simp: expireLoginLocked_def intro!: login_moves_same login_moves_upd split: option.splits)
    (simp add: allowed_move_def)

lemma expire_state:
  "login_state (expireLoginLocked now m) p = login_state m p \<or>
   (login_state m p = LoginWaiting \<and> login_state (expireLoginLocked now m) p = LoginExpired)"
  by (cases "p < length (mg_logins m)")
    (auto simp: expireLoginLocked_def upd_login_def login_state_def nth_update_if split: option.splits)

lemma expire_simps [simp]:
  "mg_login (expireLoginLocked now m) = mg_login m" "length (mg_logins (expireLoginLocked now m)) = length (mg_logins m)"
  "commit_held (expireLoginLocked now m) p = commit_held m p"
proof -
  show "mg_login (expireLoginLocked now m) = mg_login m" "length (mg_logins (expireLoginLocked now m)) = length (mg_logins m)"
    using expire_moves [of m now] by (auto simp: login_moves_def)
  show "commit_held (expireLoginLocked now m) p = commit_held m p"
    by (cases "p < length (mg_logins m)")
      (auto simp: expireLoginLocked_def upd_login_def commit_held_def nth_update_if split: option.splits)
qed

text \<open>An expiry followed by a change of an open login is one move of it.\<close>

lemma expire_then:
  assumes "login_state (expireLoginLocked now m) p = LoginWaiting \<or> login_state (expireLoginLocked now m) p = LoginExchanging"
    and "allowed_move (login_state (expireLoginLocked now m) p) (ls_State (lg_status (f (mg_logins (expireLoginLocked now m) ! p))))"
    and "\<And>l. lg_commit (f l) = lg_commit l"
  shows "login_moves m (upd_login p f (expireLoginLocked now m))"
proof -
  let ?e = "expireLoginLocked now m"
  have "login_state m p = login_state ?e p" using expire_state [of now m p] assms(1) by auto
  moreover have "allowed_move (login_state m q) (login_state ?e q)" if "q < length (mg_logins m)" for q
    using expire_moves [of m now] that by (simp add: login_moves_def)
  ultimately show ?thesis using assms(2,3) expire_simps(3) [of now m]
    by (cases "p < length (mg_logins m)")
      (auto simp: login_moves_def upd_login_def login_state_def commit_held_def nth_update_if)
qed

lemma LoginStatus_moves: "Manager_LoginStatus now m = (m', r) \<Longrightarrow> login_moves m m'"
  by (auto simp: Manager_LoginStatus_def Let_def intro: expire_moves)

lemma cancel_begin_moves: "cancel_begin ctx now loginID m = (m', r) \<Longrightarrow> login_moves m m'"
  by (auto simp: cancel_begin_def Let_def intro: expire_moves login_moves_same split: option.splits if_splits)

lemma cancel_commit_moves:
  assumes "cancel_commit ctx now p m = (m', r)"
  shows "login_moves m m'"
proof -
  have open_: "login_moves m (upd_login p (\<lambda>l. (clearSensitive (set_login_state LoginCanceled l))\<lparr>lg_canceled := True\<rparr>) (expireLoginLocked now m))"
    if "login_open (login_state (expireLoginLocked now m) p)"
    by (rule expire_then) (use that in \<open>auto simp: allowed_move_def\<close>)
  with assms login_moves_same [of m m] expire_moves [of m now] show ?thesis
    by (auto simp: cancel_commit_def Let_def split: option.splits if_splits)
qed

lemma claim_refused_moves: "callback_claim path verb n query now m = (m', Inl st) \<Longrightarrow> login_moves m m'"
  by (auto simp: callback_claim_def Let_def intro: expire_moves login_moves_same split: option.splits if_splits)

lemma claim_moves:
  assumes "callback_claim path verb n query now m = (m', Inr (p, code, verifier, denied))"
  shows "login_moves m m' \<and> mg_login m = Some p \<and> login_state m p = LoginWaiting \<and>
    (p < length (mg_logins m) \<longrightarrow> login_state m' p = LoginExchanging)"
proof -
  let ?e = "expireLoginLocked now m"
  from assms have m': "m' = upd_login p (\<lambda>l. set_login_state LoginExchanging (l\<lparr>lg_authorization := zero_Authorization\<rparr>)) ?e"
    and p: "mg_login m = Some p" and w: "login_state ?e p = LoginWaiting"
    by (auto simp: callback_claim_def Let_def split: option.splits if_splits)
  have "login_moves m m'" unfolding m' by (rule expire_then) (simp_all add: w allowed_move_def)
  moreover have "login_state m' p = LoginExchanging" if "p < length (mg_logins m)"
    using that by (simp add: m' upd_login_def login_state_def)
  ultimately show ?thesis using p expire_state [of now m p] w by auto
qed

lemma invalidate_moves: "login_moves m (invalidate i keep m)"
proof -
  have mv: "login_moves n (upd_login p (\<lambda>l. if login_open (ls_State (lg_status l))
      then (set_login_state LoginCanceled (l\<lparr>lg_canceled := True\<rparr>))\<lparr>lg_authorization := zero_Authorization\<rparr> else l\<lparr>lg_canceled := True\<rparr>) n)" for n p
    by (rule login_moves_upd) (auto simp: allowed_move_def login_state_def)
  have key: "login_moves m (upd_login p (\<lambda>l. if login_open (ls_State (lg_status l))
      then (set_login_state LoginCanceled (l\<lparr>lg_canceled := True\<rparr>))\<lparr>lg_authorization := zero_Authorization\<rparr> else l\<lparr>lg_canceled := True\<rparr>) n)"
    if "mg_logins n = mg_logins m" "mg_login n = mg_login m" for n p
    using mv [of n p] that by (simp add: login_moves_def login_state_def commit_held_def)
  show ?thesis unfolding invalidate_def Let_def
    by (auto simp: key login_moves_same split: option.splits)
qed

lemma finish_status_moves: "login_moves m (finish_status p err m)"
proof -
  have "login_moves m (upd_login p (set_login_state st) m)" if "login_state m p = LoginExchanging" "st \<in> {LoginFailed, LoginSucceeded}" for st
    by (rule login_moves_upd) (use that in \<open>auto simp: allowed_move_def\<close>)
  then show ?thesis
    by (auto simp: finish_status_def Let_def login_moves_def login_state_def commit_held_def split: option.splits)
qed

lemma stop_end_moves: "login_moves m (stop_end m)"
proof -
  let ?n = "m\<lparr>mg_refreshes := Map.empty, mg_canceled := True\<rparr>"
  have "login_moves ?n (upd_login p (\<lambda>l. let l = clearSensitive l in if login_open (ls_State (lg_status l)) then set_login_state LoginCanceled l else l) ?n)" for p
    by (rule login_moves_upd) (auto simp: allowed_move_def login_state_def Let_def)
  then show ?thesis unfolding stop_end_def Let_def
    by (auto simp: login_moves_def login_state_def commit_held_def split: option.splits)
qed

section \<open>Invariant\<close>

fun holding :: "login_phase \<Rightarrow> bool" where
  "holding (Calling _ _ _) = False"
| "holding (Called _) = False"
| "holding (Holding _) = True"
| "holding (Checked _) = True"
| "holding (Stored _) = True"

definition login_inv :: "OSys \<Rightarrow> bool" where
  [inv_defs]: "login_inv s \<longleftrightarrow>
     (\<forall>p. latest (os_mgr s) p \<longrightarrow> p < length (mg_logins (os_mgr s))) \<and>
     (\<forall>p ph. (p, ph) \<in> set (os_logins s) \<longrightarrow> p < length (mg_logins (os_mgr s)) \<and> login_state (os_mgr s) p \<noteq> LoginWaiting) \<and>
     distinct (map fst (os_logins s)) \<and>
     (\<forall>p < length (mg_logins (os_mgr s)). login_open (login_state (os_mgr s) p) \<longrightarrow> latest (os_mgr s) p) \<and>
     (\<forall>p < length (mg_logins (os_mgr s)). commit_held (os_mgr s) p \<longleftrightarrow> (\<exists>ph. (p, ph) \<in> set (os_logins s) \<and> holding ph))"

lemma login_invI:
  assumes "\<And>p. latest (os_mgr s) p \<Longrightarrow> p < length (mg_logins (os_mgr s))"
    and "\<And>p ph. (p, ph) \<in> set (os_logins s) \<Longrightarrow> p < length (mg_logins (os_mgr s)) \<and> login_state (os_mgr s) p \<noteq> LoginWaiting"
    and "distinct (map fst (os_logins s))"
    and "\<And>p. p < length (mg_logins (os_mgr s)) \<Longrightarrow> login_open (login_state (os_mgr s) p) \<Longrightarrow> latest (os_mgr s) p"
    and "\<And>p. p < length (mg_logins (os_mgr s)) \<Longrightarrow> commit_held (os_mgr s) p \<longleftrightarrow> (\<exists>ph. (p, ph) \<in> set (os_logins s) \<and> holding ph)"
  shows "login_inv s"
  unfolding login_inv_def using assms by (intro conjI allI impI) blast+

lemma login_invD:
  assumes "login_inv s"
  shows "latest (os_mgr s) p \<Longrightarrow> p < length (mg_logins (os_mgr s))"
    and "(p, ph) \<in> set (os_logins s) \<Longrightarrow> p < length (mg_logins (os_mgr s)) \<and> login_state (os_mgr s) p \<noteq> LoginWaiting"
    and "distinct (map fst (os_logins s))"
    and "p < length (mg_logins (os_mgr s)) \<Longrightarrow> login_open (login_state (os_mgr s) p) \<Longrightarrow> latest (os_mgr s) p"
    and "p < length (mg_logins (os_mgr s)) \<Longrightarrow> commit_held (os_mgr s) p \<longleftrightarrow> (\<exists>ph. (p, ph) \<in> set (os_logins s) \<and> holding ph)"
  using assms unfolding login_inv_def by blast+

lemma allowed_open: "allowed_move a b \<Longrightarrow> login_open b \<Longrightarrow> login_open a"
  by (auto simp: allowed_move_def)

lemma allowed_waiting: "allowed_move a b \<Longrightarrow> b = LoginWaiting \<Longrightarrow> a = LoginWaiting"
  by (auto simp: allowed_move_def)

lemma login_inv_moves:
  assumes inv: "login_inv s" and moves: "login_moves (os_mgr s) (os_mgr t)" and jobs: "os_logins t = os_logins s"
  shows "login_inv t"
proof -
  from moves have same: "\<And>p. latest (os_mgr t) p = latest (os_mgr s) p" "length (mg_logins (os_mgr t)) = length (mg_logins (os_mgr s))"
    and mv: "\<And>p. p < length (mg_logins (os_mgr s)) \<Longrightarrow> allowed_move (login_state (os_mgr s) p) (login_state (os_mgr t) p)"
    and cm: "\<And>p. p < length (mg_logins (os_mgr s)) \<Longrightarrow> commit_held (os_mgr t) p = commit_held (os_mgr s) p"
    by (auto simp: login_moves_def latest_def)
  show ?thesis
  proof (rule login_invI, unfold same jobs)
    show "latest (os_mgr s) p \<Longrightarrow> p < length (mg_logins (os_mgr s))" for p by (rule login_invD [OF inv])
    show "p < length (mg_logins (os_mgr s)) \<and> login_state (os_mgr t) p \<noteq> LoginWaiting" if "(p, ph) \<in> set (os_logins s)" for p ph
      using login_invD(2) [OF inv that] mv [of p] allowed_waiting by blast
    show "distinct (map fst (os_logins s))" by (rule login_invD [OF inv])
    show "latest (os_mgr s) p" if "p < length (mg_logins (os_mgr s))" "login_open (login_state (os_mgr t) p)" for p
      by (rule login_invD(4) [OF inv that(1) allowed_open [OF mv [OF that(1)] that(2)]])
    show "commit_held (os_mgr t) p \<longleftrightarrow> (\<exists>ph. (p, ph) \<in> set (os_logins s) \<and> holding ph)" if "p < length (mg_logins (os_mgr s))" for p
      unfolding cm [OF that] by (rule login_invD(5) [OF inv that])
  qed
qed

lemma login_inv_mgr: "login_inv s \<Longrightarrow> login_moves (os_mgr s) m' \<Longrightarrow> login_inv (with_mgr s m')"
  by (rule login_inv_moves) simp_all

text \<open>Moving one job, given that the states stay and the commit token of its login follows it.\<close>

lemma set_move_None:
  assumes "distinct (map fst js)" and "(p, a) \<in> set js"
  shows "(q, ph) \<in> set (move_login (p, a) None js) \<longleftrightarrow> q \<noteq> p \<and> (q, ph) \<in> set js"
    and "distinct (map fst (move_login (p, a) None js))"
proof -
  have set: "set (remove1 (p, a) js) = set js - {(p, a)}" using assms(1) by (intro set_remove1_eq) (simp add: distinct_map)
  have "ph = a" if "(p, ph) \<in> set js" for ph using assms that by (metis eq_key_imp_eq_value)
  then show "(q, ph) \<in> set (move_login (p, a) None js) \<longleftrightarrow> q \<noteq> p \<and> (q, ph) \<in> set js"
    unfolding move_login_def option.case set by blast
  show "distinct (map fst (move_login (p, a) None js))"
    using assms(1) by (simp add: move_login_def) (metis distinct_map distinct_remove1 inj_on_subset notin_set_remove1 subsetI)
qed

lemma set_move_Some:
  assumes "distinct (map fst js)" and "(p, a) \<in> set js"
  shows "(q, ph) \<in> set (move_login (p, a) (Some (p, b)) js) \<longleftrightarrow> (if q = p then ph = b else (q, ph) \<in> set js)"
    and "distinct (map fst (move_login (p, a) (Some (p, b)) js))"
proof -
  have cons: "move_login (p, a) (Some (p, b)) js = (p, b) # move_login (p, a) None js" by (simp add: move_login_def)
  note none = set_move_None [OF assms]
  show "(q, ph) \<in> set (move_login (p, a) (Some (p, b)) js) \<longleftrightarrow> (if q = p then ph = b else (q, ph) \<in> set js)"
    unfolding cons list.set insert_iff none(1) by auto
  have "p \<notin> fst ` set (move_login (p, a) None js)" using none(1) [of p] by (metis imageE prod.collapse)
  then show "distinct (map fst (move_login (p, a) (Some (p, b)) js))" using none(2) by (simp add: cons)
qed

lemma login_inv_job:
  assumes inv: "login_inv s" and job: "(p, a) \<in> set (os_logins s)"
    and len: "length (mg_logins (os_mgr t)) = length (mg_logins (os_mgr s))" "\<And>q. latest (os_mgr t) q = latest (os_mgr s) q"
    and st: "\<And>q. login_state (os_mgr t) q = login_state (os_mgr s) q"
    and cm: "\<And>q. q \<noteq> p \<Longrightarrow> commit_held (os_mgr t) q = commit_held (os_mgr s) q"
    and jobs: "os_logins t = move_login (p, a) (map_option (Pair p) b) (os_logins s)"
    and cp: "commit_held (os_mgr t) p \<longleftrightarrow> (case b of None \<Rightarrow> False | Some ph \<Rightarrow> holding ph)"
  shows "login_inv t"
proof -
  note d = login_invD(3) [OF inv]
  have in_t: "(q, ph) \<in> set (os_logins t) \<longleftrightarrow> (if q = p then b = Some ph else (q, ph) \<in> set (os_logins s))" for q ph
    by (cases b) (auto simp: jobs set_move_None [OF d job] set_move_Some [OF d job])
  show ?thesis
  proof (rule login_invI, unfold len st)
    show "latest (os_mgr s) q \<Longrightarrow> q < length (mg_logins (os_mgr s))" for q by (rule login_invD [OF inv])
    show "q < length (mg_logins (os_mgr s)) \<and> login_state (os_mgr s) q \<noteq> LoginWaiting" if "(q, ph) \<in> set (os_logins t)" for q ph
      using that in_t [of q ph] login_invD(2) [OF inv job] login_invD(2) [OF inv, of q ph] by metis
    show "distinct (map fst (os_logins t))"
      by (cases b) (simp_all add: jobs set_move_None [OF d job] set_move_Some [OF d job])
    show "latest (os_mgr s) q" if "q < length (mg_logins (os_mgr s))" "login_open (login_state (os_mgr s) q)" for q
      by (rule login_invD(4) [OF inv that])
    show "commit_held (os_mgr t) q \<longleftrightarrow> (\<exists>ph. (q, ph) \<in> set (os_logins t) \<and> holding ph)" if "q < length (mg_logins (os_mgr s))" for q
    proof (cases "q = p")
      case True
      then show ?thesis unfolding in_t by (cases b) (simp_all add: cp)
    next
      case False
      then show ?thesis unfolding in_t cm [OF False] using login_invD(5) [OF inv that] by simp
    qed
  qed
qed

lemma start_spec:
  assumes "startLogin ctx t1 t2 auth loginID identity previous m = (m', r)"
  shows "login_moves m m' \<or>
    (\<exists>l. m' = (expireLoginLocked t1 m)\<lparr>mg_logins := mg_logins (expireLoginLocked t1 m) @ [l], mg_login := Some (length (mg_logins m))\<rparr> \<and>
       ls_State (lg_status l) = LoginWaiting \<and> \<not> lg_commit l \<and>
       (\<forall>p. latest m p \<longrightarrow> \<not> login_open (login_state (expireLoginLocked t1 m) p)))"
  unfolding latest_def using assms expire_moves [of m t1] login_moves_same [of m m]
  by (auto simp: startLogin_def Let_def split: if_splits option.splits)

lemma expire_latest: "latest (expireLoginLocked now m) p = latest m p"
  by (simp add: latest_def)

lemma login_inv_fresh:
  assumes e: "login_inv (with_mgr s e)" and n: "n = length (mg_logins e)"
    and old: "\<And>p. p < n \<Longrightarrow> login_state m' p = login_state e p \<and> commit_held m' p = commit_held e p \<and> \<not> login_open (login_state e p)"
    and new: "\<And>q. latest m' q \<longleftrightarrow> q = n" "length (mg_logins m') = Suc n" "\<not> commit_held m' n"
  shows "login_inv (with_mgr s m')"
proof (rule login_invI, unfold with_simps new)
  have jobs: "p < n \<and> login_state e p \<noteq> LoginWaiting" if "(p, ph) \<in> set (os_logins s)" for p ph
    using login_invD(2) [OF e, of p ph] that by (simp add: n)
  show "q = n \<Longrightarrow> q < Suc n" for q by simp
  show "p < Suc n \<and> login_state m' p \<noteq> LoginWaiting" if "(p, ph) \<in> set (os_logins s)" for p ph
    using jobs [OF that] old [of p] by simp
  show "distinct (map fst (os_logins s))" using login_invD(3) [OF e] by simp
  show "p = n" if "p < Suc n" "login_open (login_state m' p)" for p
    using that old [of p] by (metis less_antisym)
  show "commit_held m' p \<longleftrightarrow> (\<exists>ph. (p, ph) \<in> set (os_logins s) \<and> holding ph)" if "p < Suc n" for p
  proof (cases "p = n")
    case True
    with jobs [of n] new(3) show ?thesis by (metis less_irrefl)
  next
    case False
    with that have "p < n" by simp
    with login_invD(5) [OF e, of p] old [of p] show ?thesis by (simp add: n)
  qed
qed

lemma login_inv_start:
  assumes inv: "login_inv s" and start: "startLogin ctx t1 t2 auth loginID identity previous (os_mgr s) = (m', r)"
  shows "login_inv (with_mgr s m')"
  using start_spec [OF start]
proof (elim disjE exE conjE)
  assume "login_moves (os_mgr s) m'"
  with inv show ?thesis by (intro login_inv_moves [OF inv]) simp_all
next
  fix l
  let ?e = "expireLoginLocked t1 (os_mgr s)"
  assume m': "m' = ?e\<lparr>mg_logins := mg_logins ?e @ [l], mg_login := Some (length (mg_logins (os_mgr s)))\<rparr>"
    and l: "ls_State (lg_status l) = LoginWaiting" "\<not> lg_commit l"
    and closed: "\<forall>p. latest (os_mgr s) p \<longrightarrow> \<not> login_open (login_state ?e p)"
  have e: "login_inv (with_mgr s ?e)" using login_inv_moves [OF inv] expire_moves by simp
  have old: "login_state m' p = login_state ?e p" "commit_held m' p = commit_held ?e p" if "p < length (mg_logins (os_mgr s))" for p
    using that by (simp_all add: m' login_state_def commit_held_def nth_append)
  have not_open: "\<not> login_open (login_state ?e p)" if "p < length (mg_logins (os_mgr s))" for p
    using login_invD(4) [OF e, of p, unfolded with_simps expire_latest expire_simps] that closed by blast
  show ?thesis
  proof (rule login_inv_fresh [OF e])
    show "length (mg_logins (os_mgr s)) = length (mg_logins ?e)" by simp
    show "login_state m' p = login_state ?e p \<and> commit_held m' p = commit_held ?e p \<and> \<not> login_open (login_state ?e p)"
      if "p < length (mg_logins (os_mgr s))" for p
      using old [OF that] not_open [OF that] by blast
    show "latest m' q \<longleftrightarrow> q = length (mg_logins (os_mgr s))" for q by (auto simp: latest_def m')
    show "length (mg_logins m') = Suc (length (mg_logins (os_mgr s)))" by (simp add: m')
    show "\<not> commit_held m' (length (mg_logins (os_mgr s)))" using l by (simp add: m' commit_held_def nth_append)
  qed
qed

lemma login_inv_claim:
  assumes inv: "login_inv s" and claim: "callback_claim path verb n query now (os_mgr s) = (m', Inr (p, code, verifier, denied))"
  shows "login_inv ((with_mgr s m')\<lparr>os_logins := (p, Calling code verifier denied) # os_logins s\<rparr>)"
proof -
  from claim_moves [OF claim] have mv: "login_moves (os_mgr s) m'" and lat: "latest (os_mgr s) p"
    and w: "login_state (os_mgr s) p = LoginWaiting" and e: "p < length (mg_logins (os_mgr s)) \<Longrightarrow> login_state m' p = LoginExchanging"
    by (auto simp: latest_def)
  have p: "p < length (mg_logins (os_mgr s))" by (rule login_invD(1) [OF inv lat])
  have new: "(p, ph) \<notin> set (os_logins s)" for ph using login_invD(2) [OF inv, of p ph] w by blast
  have inv': "login_inv (with_mgr s m')" by (rule login_inv_moves [OF inv]) (simp_all add: mv)
  have len: "length (mg_logins m') = length (mg_logins (os_mgr s))" using mv by (simp add: login_moves_def)
  have t: "os_mgr ((with_mgr s m')\<lparr>os_logins := (p, Calling code verifier denied) # os_logins s\<rparr>) = m'"
      "os_logins ((with_mgr s m')\<lparr>os_logins := (p, Calling code verifier denied) # os_logins s\<rparr>) = (p, Calling code verifier denied) # os_logins s"
    by simp_all
  show ?thesis
  proof (rule login_invI, unfold t)
    show "latest m' q \<Longrightarrow> q < length (mg_logins m')" for q using login_invD(1) [OF inv', of q] by simp
    show "q < length (mg_logins m') \<and> login_state m' q \<noteq> LoginWaiting" if "(q, ph) \<in> set ((p, Calling code verifier denied) # os_logins s)" for q ph
      using login_invD(2) [OF inv', of q ph] that e [OF p] p len by auto
    show "distinct (map fst ((p, Calling code verifier denied) # os_logins s))"
      using login_invD(3) [OF inv] new by force
    show "latest m' q" if "q < length (mg_logins m')" "login_open (login_state m' q)" for q
      using login_invD(4) [OF inv', of q] that by simp
    show "commit_held m' q \<longleftrightarrow> (\<exists>ph. (q, ph) \<in> set ((p, Calling code verifier denied) # os_logins s) \<and> holding ph)"
      if "q < length (mg_logins m')" for q
      using login_invD(5) [OF inv', of q] that by auto
  qed
qed

lemma upd_commit_simps:
  "login_state (upd_login p (\<lambda>l. l\<lparr>lg_commit := b\<rparr>) m) q = login_state m q"
  "q \<noteq> p \<Longrightarrow> commit_held (upd_login p (\<lambda>l. l\<lparr>lg_commit := b\<rparr>) m) q = commit_held m q"
  "p < length (mg_logins m) \<Longrightarrow> commit_held (upd_login p (\<lambda>l. l\<lparr>lg_commit := b\<rparr>) m) p = b"
  "latest (upd_login p f m) q = latest m q" "length (mg_logins (upd_login p f m)) = length (mg_logins m)"
  by (auto simp: upd_login_def login_state_def commit_held_def latest_def nth_update_if)

lemma finish_end_simps:
  "login_state (finish_end p m) q = login_state m q" "q \<noteq> p \<Longrightarrow> commit_held (finish_end p m) q = commit_held m q"
  "p < length (mg_logins m) \<Longrightarrow> \<not> commit_held (finish_end p m) p"
  "latest (finish_end p m) q = latest m q" "length (mg_logins (finish_end p m)) = length (mg_logins m)"
  by (auto simp: finish_end_def upd_login_def login_state_def commit_held_def latest_def nth_update_if)

lemma login_inv_step: "oauth_step env s t \<Longrightarrow> login_inv s \<Longrightarrow> login_inv t"
proof (induction rule: oauth_step.induct)
  case (check got io db i before revn s m' r)
  then have "login_moves (os_mgr s) m'"
    by (intro login_moves_same) (auto simp: current_check_def Let_def split: sum.splits option.splits if_splits)
  with check show ?case by (intro login_inv_moves [OF check(3)]) simp_all
next
  case (decide t1 t2 t3 waited i r k s m' d)
  then have "login_moves (os_mgr s) m'"
    by (intro login_moves_same) (auto simp: current_decide_def Let_def upd_state_def split: if_splits)
  with decide show ?case by (intro login_inv_moves [OF decide(2)]) simp_all
next
  case (finish i k s err c now)
  have "login_moves (os_mgr s) (refresh_finish now i k err c (os_mgr s))"
    by (intro login_moves_same) (auto simp: refresh_finish_def Let_def upd_state_def split: option.splits)
  with finish show ?case by (intro login_inv_moves [OF finish(3)]) simp_all
next
  case (hold p r s ctx)
  note p = login_invD(2) [OF hold(3,1), THEN conjunct1]
  show ?case
    by (rule login_inv_job [OF hold(3,1), where b = "Some (Holding (finish_hold ctx r))"])
      (simp_all add: upd_commit_simps p)
next
  case (call p code verifier denied s exchange)
  note p = login_invD(2) [OF call(2,1), THEN conjunct1]
  have "\<not> commit_held (os_mgr s) p"
    using login_invD(5) [OF call(2) p] login_invD(3) [OF call(2)] call(1) by (metis eq_key_imp_eq_value holding.simps(1))
  then show ?case
    by (intro login_inv_job [OF call(2,1), where b = "Some (Called (finish_exchange exchange code verifier denied))"]) simp_all
next
  case (active p r s)
  note p = login_invD(2) [OF active(3,1), THEN conjunct1]
  have "commit_held (os_mgr s) p" using login_invD(5) [OF active(3) p] active(1) holding.simps(3) by blast
  then show ?case by (intro login_inv_job [OF active(3,1), where b = "Some (Checked r)"]) simp_all
next
  case (inactive p r s)
  note p = login_invD(2) [OF inactive(3,1), THEN conjunct1]
  show ?case by (rule login_inv_job [OF inactive(3,1), where b = None]) (simp_all add: finish_end_simps p)
next
  case (login_save p r s nonce io db' err)
  note p = login_invD(2) [OF login_save(5,1), THEN conjunct1]
  have "commit_held (os_mgr s) p" using login_invD(5) [OF login_save(5) p] login_save(1) holding.simps(4) by blast
  then show ?case by (intro login_inv_job [OF login_save(5,1), where b = "Some (Stored err)"]) simp_all
next
  case (login_end p err s)
  let ?s = "with_mgr s (finish_status p err (os_mgr s))"
  have inv: "login_inv ?s" by (rule login_inv_moves [OF login_end(2)]) (simp_all add: finish_status_moves)
  have job: "(p, Stored err) \<in> set (os_logins ?s)" using login_end(1) by simp
  note p = login_invD(2) [OF inv job, THEN conjunct1]
  show ?case by (rule login_inv_job [OF inv job, where b = None]) (use p in \<open>simp_all add: finish_end_simps\<close>)
next
  case (start ctx t1 t2 auth loginID identity previous s m' r)
  then show ?case by (intro login_inv_start)
next
  case (claim path verb n query now s m' p code verifier denied)
  then show ?case by (intro login_inv_claim)
next
  case (store s db')
  then show ?case by (intro login_inv_moves [OF store(2)] login_moves_same) simp_all
next
  case (save i k s nonce now answer io db' err c)
  then show ?case by (intro login_inv_moves [OF save(5)] login_moves_same) simp_all
next
  case (stopping s)
  then show ?case by (intro login_inv_moves [OF stopping] login_moves_same) (simp_all add: stop_begin_def)
next
  case (canceling s)
  then show ?case by (intro login_inv_moves [OF canceling] login_moves_same) simp_all
qed (blast intro: login_inv_mgr invalidate_moves LoginStatus_moves cancel_begin_moves cancel_commit_moves
      claim_refused_moves stop_end_moves)+

interpretation login_sys: invariant_system start_OSys "oauth_step env" login_inv for env
proof
  show "login_inv s" if "start_OSys s" for s
    using that by (intro login_invI) (auto simp: start_OSys_def NewManager_def latest_def)
qed (rule login_inv_step)

section \<open>The life of a login\<close>

definition login_jobs :: "OSys \<Rightarrow> nat \<Rightarrow> nat" where
  "login_jobs s p = length (filter (\<lambda>j. fst j = p) (os_logins s))"

lemma moves_at: "login_moves m m' \<Longrightarrow> p < length (mg_logins m) \<Longrightarrow>
    p < length (mg_logins m') \<and> allowed_move (login_state m p) (login_state m' p)"
  by (simp add: login_moves_def)

lemma step_moves:
  assumes "oauth_step env s t" and "p < length (mg_logins (os_mgr s))"
  shows "p < length (mg_logins (os_mgr t)) \<and> allowed_move (login_state (os_mgr s) p) (login_state (os_mgr t) p)"
  using assms
proof (induction rule: oauth_step.induct)
  case (start ctx t1 t2 auth loginID identity previous s m' r)
  from start_spec [OF start(1)] start(2) expire_moves [of "os_mgr s" t1] show ?case
    by (auto simp: login_moves_def login_state_def nth_append)
next
  case (claim path verb n query now s m' q code verifier denied)
  from claim_moves [OF claim(1)] claim(2) show ?case by (simp add: login_moves_def)
next
  case (login_end q err s)
  from finish_status_moves [of "os_mgr s" q err] login_end(2) show ?case by (simp add: login_moves_def finish_end_simps)
next
  case (check got io db i before revn s m' r)
  then have "mg_logins m' = mg_logins (os_mgr s)"
    by (auto simp: current_check_def Let_def split: sum.splits option.splits if_splits)
  with check show ?case by (simp add: login_state_def)
next
  case (decide t1 t2 t3 waited i r k s m' d)
  then have "mg_logins m' = mg_logins (os_mgr s)" by (auto simp: current_decide_def Let_def upd_state_def split: if_splits)
  with decide show ?case by (simp add: login_state_def)
next
  case (finish i k s err c now)
  have "mg_logins (refresh_finish now i k err c (os_mgr s)) = mg_logins (os_mgr s)"
    by (auto simp: refresh_finish_def Let_def upd_state_def split: option.splits)
  with finish show ?case by (simp add: login_state_def)
next
  case (stopping s)
  then show ?case by (simp add: stop_begin_def login_state_def)
next
  case (canceling s)
  then show ?case by (simp add: login_state_def)
qed (auto simp: moves_at [OF invalidate_moves] moves_at [OF stop_end_moves] finish_end_simps upd_commit_simps
      dest: moves_at [OF LoginStatus_moves] moves_at [OF cancel_begin_moves] moves_at [OF cancel_commit_moves] moves_at [OF claim_refused_moves])

lemma jobs_at_most_one: "login_inv s \<Longrightarrow> login_jobs s p \<le> 1"
proof -
  assume "login_inv s"
  then have "distinct (map snd (map prod.swap (os_logins s)))" by (simp add: login_invD(3) comp_def)
  from filter_key_once [OF this, of p] show ?thesis by (simp add: login_jobs_def filter_map comp_def)
qed

lemma login_jobs_zero: "login_jobs s p = 0 \<longleftrightarrow> (\<forall>ph. (p, ph) \<notin> set (os_logins s))"
  by (auto simp: login_jobs_def filter_empty_conv)

text \<open>A job for a login appears only when the login is claimed.\<close>

lemma new_job_claims:
  assumes "oauth_step env s t" and "(p, ph) \<in> set (os_logins t)" and "\<And>ph. (p, ph) \<notin> set (os_logins s)"
  shows "login_state (os_mgr s) p = LoginWaiting"
  using assms
proof (induction rule: oauth_step.induct)
  case (claim path verb n query now s m' q code verifier denied)
  with claim_moves [OF claim(1)] show ?case by auto
qed (auto simp: move_login_def dest: notin_set_remove1)

text \<open>
  C38. A login moves only forward: from waiting to exchanging, canceled or expired, and from
  exchanging to succeeded, failed or canceled; a finished login keeps its state. Its exchange job is
  unique and can start only when it leaves the waiting state, so an authorization code is sent to
  the provider at most once per login.
\<close>

theorem login_forward_once:
  assumes "reachable start_OSys (oauth_step env) s" and "oauth_step env s t" and "p < length (mg_logins (os_mgr s))"
  shows "allowed_move (login_state (os_mgr s) p) (login_state (os_mgr t) p) \<and> login_jobs t p \<le> 1 \<and>
    (login_jobs s p < login_jobs t p \<longrightarrow> login_state (os_mgr s) p = LoginWaiting \<and> login_state (os_mgr t) p \<noteq> LoginWaiting)"
proof -
  from login_sys.inv_reachable [OF assms(1)] have inv: "login_inv s" .
  then have inv': "login_inv t" using login_inv_step [OF assms(2)] by blast
  have "login_state (os_mgr s) p = LoginWaiting \<and> login_state (os_mgr t) p \<noteq> LoginWaiting" if less: "login_jobs s p < login_jobs t p"
  proof -
    from less jobs_at_most_one [OF inv', of p] have "login_jobs s p = 0" and "login_jobs t p \<noteq> 0" by auto
    then obtain ph where "(p, ph) \<in> set (os_logins t)" and "\<And>ph. (p, ph) \<notin> set (os_logins s)" by (auto simp: login_jobs_zero)
    with new_job_claims [OF assms(2)] login_invD(2) [OF inv'] show ?thesis by blast
  qed
  with step_moves [OF assms(2,3)] jobs_at_most_one [OF inv', of p] show ?thesis by blast
qed

definition demo_auth :: Authorization where
  "demo_auth = \<lparr>au_URL = ''u'', au_State = ''st'', au_Verifier = ''v''\<rparr>"

definition demo_query :: "string \<Rightarrow> string list" where
  "demo_query k = (if k = ''state'' then [''st''] else if k = ''code'' then [''c''] else [])"

definition demo_waiting :: OSys where
  "demo_waiting = with_mgr day_sys (fst (startLogin None 0 0 demo_auth ''L'' \<lparr>ai_ID = ''a2'', ai_Name = ''n''\<rparr> None (os_mgr day_sys)))"

definition demo_claimed :: OSys where
  "demo_claimed = (with_mgr demo_waiting (fst (callback_claim ''/auth/callback'' ''GET'' 14 (Some demo_query) 5 (os_mgr demo_waiting))))
     \<lparr>os_logins := (0, Calling ''c'' ''v'' False) # os_logins demo_waiting\<rparr>"

lemma demo_waiting_reachable: "reachable start_OSys (oauth_step day_env) demo_waiting"
  unfolding demo_waiting_def by (rule reach_step [OF day_sys_reachable oauth_step.start]) (rule prod.collapse [symmetric])

lemma demo_claim_step: "oauth_step day_env demo_waiting demo_claimed"
proof -
  let ?r = "callback_claim ''/auth/callback'' ''GET'' 14 (Some demo_query) 5 (os_mgr demo_waiting)"
  have "snd ?r = Inr (0, ''c'', ''v'', False)" by code_simp
  then have "?r = (fst ?r, Inr (0, ''c'', ''v'', False))" by (metis prod.collapse)
  then show ?thesis unfolding demo_claimed_def by (rule oauth_step.claim)
qed

theorem login_forward_once_witness:
  "login_jobs demo_waiting 0 < login_jobs demo_claimed 0 \<and> login_state (os_mgr demo_waiting) 0 = LoginWaiting \<and>
   login_state (os_mgr demo_claimed) 0 \<noteq> LoginWaiting"
proof -
  have "0 < length (mg_logins (os_mgr demo_waiting))" and "login_jobs demo_waiting 0 < login_jobs demo_claimed 0" by code_simp+
  with login_forward_once [OF demo_waiting_reachable demo_claim_step] show ?thesis by blast
qed

definition saving :: "OSys \<Rightarrow> nat \<Rightarrow> bool" where
  "saving s p \<longleftrightarrow> (\<exists>r. (p, Checked r) \<in> set (os_logins s)) \<or> (\<exists>err. (p, Stored err) \<in> set (os_logins s))"

definition canceled_for_good :: "nat \<Rightarrow> OSys \<Rightarrow> bool" where
  "canceled_for_good p s \<longleftrightarrow> login_inv s \<and> p < length (mg_logins (os_mgr s)) \<and> login_state (os_mgr s) p = LoginCanceled \<and> \<not> saving s p"

lemma saving_starts:
  assumes "oauth_step env s t" and "saving t p" and "\<not> saving s p"
  shows "login_state (os_mgr s) p = LoginExchanging"
  using assms
proof (induction rule: oauth_step.induct)
  case (active q r s)
  then show ?case by (auto simp: saving_def move_login_def finish_active_def dest: notin_set_remove1)
qed (auto simp: saving_def move_login_def dest: notin_set_remove1)

interpretation canceled_sys: invariant_system "canceled_for_good p" "oauth_step env" "canceled_for_good p" for p env
proof
  fix s t assume c: "canceled_for_good p s" and step: "oauth_step env s t"
  then have "login_inv t" and "p < length (mg_logins (os_mgr t))" and "login_state (os_mgr t) p = LoginCanceled"
    using login_inv_step [OF step] step_moves [OF step, of p] by (auto simp: canceled_for_good_def allowed_move_def)
  moreover have "\<not> saving t p" using saving_starts [OF step, of p] c by (auto simp: canceled_for_good_def)
  ultimately show "canceled_for_good p t" by (simp add: canceled_for_good_def)
qed

text \<open>
  C37. Cancellation wins: when \<open>CancelLogin\<close>, holding the commit token, has marked a login as
  canceled, its job is not saving and never will be, whatever the manager does afterwards, and the
  login stays canceled.
\<close>

theorem canceled_login_saves_nothing:
  assumes "reachable start_OSys (oauth_step env) s" and "\<not> lg_commit (mg_logins (os_mgr s) ! p)"
    and "cancel_commit None now p (os_mgr s) = (m', None)" and "login_state m' p = LoginCanceled"
    and "(oauth_step env)\<^sup>*\<^sup>* (with_mgr s m') t"
  shows "login_state (os_mgr t) p = LoginCanceled \<and> \<not> saving t p"
proof -
  from login_sys.inv_reachable [OF assms(1)] have inv: "login_inv s" .
  from assms(3) have "latest (os_mgr s) p" by (auto simp: cancel_commit_def latest_def split: if_splits)
  then have p: "p < length (mg_logins (os_mgr s))" by (rule login_invD(1) [OF inv])
  have "\<not> saving s p"
    using login_invD(5) [OF inv p] assms(2) unfolding saving_def commit_held_def by (metis holding.simps(4,5))
  then have free: "\<not> saving (with_mgr s m') p" by (simp add: saving_def)
  have "login_inv (with_mgr s m')" by (rule login_inv_mgr [OF inv cancel_commit_moves [OF assms(3)]])
  with free assms(4) p moves_at [OF cancel_commit_moves [OF assms(3)] p] have "canceled_for_good p (with_mgr s m')"
    by (simp add: canceled_for_good_def)
  from canceled_sys.inv_steps [OF assms(5) this] show ?thesis by (simp add: canceled_for_good_def)
qed

definition demo_canceled :: OSys where
  "demo_canceled = with_mgr demo_claimed (fst (cancel_commit None 6 0 (os_mgr demo_claimed)))"

definition demo_called :: OSys where
  "demo_called = demo_canceled\<lparr>os_logins := move_login (0, Calling ''c'' ''v'' False)
     (Some (0, Called (finish_exchange (\<lambda>_ _. Inr (day_credentials ''t'')) ''c'' ''v'' False))) (os_logins demo_canceled)\<rparr>"

theorem canceled_login_saves_nothing_witness:
  "(oauth_step day_env)\<^sup>*\<^sup>* demo_canceled demo_called \<and> login_jobs demo_called 0 = 1 \<and> \<not> saving demo_called 0"
proof -
  have free: "\<not> lg_commit (mg_logins (os_mgr demo_claimed) ! 0)" and jobs: "login_jobs demo_called 0 = 1" by code_simp+
  have "snd (cancel_commit None 6 0 (os_mgr demo_claimed)) = None" by code_simp
  then have cancel: "cancel_commit None 6 0 (os_mgr demo_claimed) = (fst (cancel_commit None 6 0 (os_mgr demo_claimed)), None)"
    by (metis prod.collapse)
  have canceled: "login_state (fst (cancel_commit None 6 0 (os_mgr demo_claimed))) 0 = LoginCanceled" by code_simp
  have "(0, Calling ''c'' ''v'' False) \<in> set (os_logins demo_canceled)" by (simp add: demo_canceled_def demo_claimed_def)
  then have step: "(oauth_step day_env)\<^sup>*\<^sup>* demo_canceled demo_called"
    unfolding demo_called_def by (intro r_into_rtranclp oauth_step.call)
  from canceled_login_saves_nothing [OF reach_step [OF demo_waiting_reachable demo_claim_step] free cancel canceled] step jobs
  show ?thesis by (simp add: demo_canceled_def [symmetric])
qed

end
