(* ===== verification/Execution.thy ===== *)
theory Execution
  imports RoundRobin Limiter Catalog OAuthManager CodexStream
begin

text \<open>
  \<open>internal/execution\<close>: admission of requests, account selection and retry, management changes and
  cleanup. The executor's state includes the parts it coordinates: the store and the OAuth manager
  (\<open>ex_world\<close>), the catalog, the limiter and the selector. Requests are Go pointers, so they live in
  an append-only list and the active set is a list of indices.

  The gate is a read-write lock: \<open>admit\<close>, \<open>CheckKey\<close> and \<open>registerAccount\<close> hold it shared for their
  whole body and \<open>change\<close>, \<open>snapshot\<close> and \<open>Close\<close> exclusively, so each body is one step with respect to
  management. A context is its error at the moment it is read. Log lines are not modelled.
\<close>

section \<open>State\<close>

record requestState =
  re_ctx :: "ctx_error option"
  re_done :: bool
  re_keyID :: string
  re_accountID :: string
  re_lastAttempt :: string
  re_id :: string
  re_model :: string
  re_started :: time
  re_slot :: Slot
  re_responseStarted :: bool

record Executor =
  ex_world :: World
  ex_catalog :: Catalog
  ex_limiter :: Limiter
  ex_selector :: RoundRobin
  ex_closed :: bool
  ex_requests :: "requestState list"
  ex_active :: "nat list"
  ex_cooldowns :: "string \<rightharpoonup> time"

abbreviation ex_db :: "Executor \<Rightarrow> DB" where "ex_db e \<equiv> w_db (ex_world e)"
abbreviation ex_mgr :: "Executor \<Rightarrow> Manager" where "ex_mgr e \<equiv> w_mgr (ex_world e)"

definition New_Executor :: "World \<Rightarrow> Executor" where
  "New_Executor w =
     \<lparr>ex_world = w, ex_catalog = NewCatalog, ex_limiter = New_Limiter, ex_selector = NewRoundRobin, ex_closed = False,
      ex_requests = [], ex_active = [], ex_cooldowns = Map.empty\<rparr>"

record RequestInfo =
  ri_ID :: string
  ri_Started :: time

definition upd_request :: "nat \<Rightarrow> (requestState \<Rightarrow> requestState) \<Rightarrow> Executor \<Rightarrow> Executor" where
  "upd_request r f e = e\<lparr>ex_requests := (ex_requests e)[r := f (ex_requests e ! r)]\<rparr>"

definition set_db :: "DB \<Rightarrow> Executor \<Rightarrow> Executor" where
  "set_db db e = e\<lparr>ex_world := (ex_world e)\<lparr>w_db := db\<rparr>\<rparr>"

text \<open>\<open>cancel()\<close>, or the parent's cancellation: the first one decides.\<close>

definition cancel_request :: "ctx_error \<Rightarrow> requestState \<Rightarrow> requestState" where
  "cancel_request c r = (if re_ctx r = None then r\<lparr>re_ctx := Some c\<rparr> else r)"

section \<open>Admission\<close>

definition operationError :: "ctx_error option \<Rightarrow> error \<Rightarrow> error" where
  "operationError ctx err =
     (case ctx of
        Some e \<Rightarrow> CtxErr e
      | None \<Rightarrow>
          if is_ctx err DeadlineExceeded then CtxErr DeadlineExceeded
          else if is_ctx err Canceled then CtxErr Canceled
          else Sentinel ErrUnavailable)"

definition authenticate ::
  "(bytes \<Rightarrow> VerificationHash) \<Rightarrow> error option \<Rightarrow> ctx_error option \<Rightarrow> DB \<Rightarrow> string \<Rightarrow> AccessKeyRecord result" where
  "authenticate sha io ctx db rawKey =
     (case Hash sha rawKey of
        None \<Rightarrow> Inl (Sentinel ErrUnauthorized)
      | Some hash \<Rightarrow>
          (case FindAccessKeyByHash io db hash of
             Inl err \<Rightarrow> if errors_Is err ErrNotFound then Inl (Sentinel ErrUnauthorized) else Inl (operationError ctx err)
           | Inr record \<Rightarrow> if \<not> ak_enabled (akr_Key record) then Inl (Sentinel ErrUnauthorized) else Inr record))"

definition admit ::
  "(bytes \<Rightarrow> VerificationHash) \<Rightarrow> error option \<Rightarrow> ctx_error option \<Rightarrow> ctx_error option \<Rightarrow> time \<Rightarrow> string \<Rightarrow> RequestInfo \<Rightarrow> string \<Rightarrow>
   Executor \<Rightarrow> Executor \<times> nat result" where
  "admit sha io ctx1 ctx2 now rawKey info model e =
     (let started = (if time_IsZero (ri_Started info) then now else ri_Started info) in
      if ex_closed e then (e, Inl (Sentinel ErrClosed))
      else case authenticate sha io ctx1 (ex_db e) rawKey of
             Inl err \<Rightarrow> (e, Inl err)
           | Inr key \<Rightarrow>
               (case ctx2 of
                  Some c \<Rightarrow> (e, Inl (CtxErr c))
                | None \<Rightarrow>
                    (let keyID = ki_ID (ak_identity (akr_Key key)) in
                     case TryAcquire (ex_limiter e) keyID (akr_ConcurrencyLimit key) of
                       (l, Inl err) \<Rightarrow> (e\<lparr>ex_limiter := l\<rparr>, Inl err)
                     | (l, Inr slot) \<Rightarrow>
                         (let r = \<lparr>re_ctx = None, re_done = False, re_keyID = keyID, re_accountID = [], re_lastAttempt = [],
                                   re_id = ri_ID info, re_model = model, re_started = started, re_slot = slot, re_responseStarted = False\<rparr>
                          in (e\<lparr>ex_limiter := l, ex_requests := ex_requests e @ [r], ex_active := ex_active e @ [length (ex_requests e)]\<rparr>,
                              Inr (length (ex_requests e)))))))"

definition CheckKey :: "(bytes \<Rightarrow> VerificationHash) \<Rightarrow> error option \<Rightarrow> ctx_error option \<Rightarrow> string \<Rightarrow> Executor \<Rightarrow> string result" where
  "CheckKey sha io ctx key e =
     (if ex_closed e then Inl (Sentinel ErrClosed)
      else bindR (authenticate sha io ctx (ex_db e) key) (\<lambda>record. Inr (ki_ID (ak_identity (akr_Key record)))))"

section \<open>Accounting\<close>

definition errorCode :: "error option \<Rightarrow> string" where
  "errorCode err =
     (case err of
        None \<Rightarrow> ''completed''
      | Some e \<Rightarrow>
          if is_ctx e Canceled then ''canceled''
          else if is_ctx e DeadlineExceeded then ''timeout''
          else if errors_Is e ErrUnauthorized then ''unauthorized''
          else if errors_Is e ErrLimitReached then ''concurrency_limit''
          else if errors_Is e ErrNoAccounts then ''no_accounts''
          else if errors_Is e ErrClosed then ''closed''
          else if errors_Is e ErrDelivery then ''delivery_failed''
          else case as_Failure e of
                 Some f \<Rightarrow> f_Category f
               | None \<Rightarrow> (case as_Validation e of Some _ \<Rightarrow> ''invalid_request'' | None \<Rightarrow> ''unavailable''))"

definition resultCode :: "Result \<Rightarrow> error option \<Rightarrow> string" where
  "resultCode result err = (if err = None \<and> res_Status result \<noteq> [] then res_Status result else errorCode err)"

text \<open>\<open>recordResult\<close> writes the record; a failed write is only logged.\<close>

definition recordResult :: "error option \<Rightarrow> RequestRecord \<Rightarrow> Executor \<Rightarrow> Executor" where
  "recordResult io record e = set_db (fst (InsertRequest io (ex_db e) record)) e"

text \<open>\<open>time.Time.Sub\<close> saturates at the bounds of a duration.\<close>

definition time_Sub :: "time \<Rightarrow> time \<Rightarrow> duration" where
  "time_Sub t u = max min_int64 (min max_int64 (t - u))"

definition RecordRejection :: "error option \<Rightarrow> time \<Rightarrow> RequestInfo \<Rightarrow> string \<Rightarrow> string \<Rightarrow> string \<Rightarrow> bool \<Rightarrow> Executor \<Rightarrow> Executor" where
  "RecordRejection io finished info keyID model code started e =
     recordResult io \<lparr>r_ID = ri_ID info, r_FinishedAt = finished, r_KeyID = keyID, r_AccountID = [], r_Model = model, r_Result = code,
       r_Duration = time_Sub finished (ri_Started info), r_ResponseStarted = started, r_Usage = zero_Snapshot\<rparr> e"

text \<open>The three parts of \<open>finish\<close>, between which other goroutines run, and \<open>finish\<close> itself.\<close>

definition finish_cancel :: "nat \<Rightarrow> Executor \<Rightarrow> Executor" where
  "finish_cancel r e = upd_request r (cancel_request Canceled) e"

definition finish_account :: "error option \<Rightarrow> time \<Rightarrow> nat \<Rightarrow> Result \<Rightarrow> error option \<Rightarrow> Executor \<Rightarrow> Executor" where
  "finish_account io finished r result err e =
     (let q = ex_requests e ! r in
      recordResult io \<lparr>r_ID = re_id q, r_FinishedAt = finished, r_KeyID = re_keyID q, r_AccountID = re_lastAttempt q, r_Model = re_model q,
        r_Result = resultCode result err, r_Duration = time_Sub finished (re_started q), r_ResponseStarted = re_responseStarted q,
        r_Usage = res_Usage result\<rparr> e)"

definition finish_release :: "nat \<Rightarrow> Executor \<Rightarrow> Executor" where
  "finish_release r e =
     (let e = e\<lparr>ex_limiter := Release (ex_limiter e) (re_slot (ex_requests e ! r)), ex_active := filter (\<lambda>k. k \<noteq> r) (ex_active e)\<rparr>
      in upd_request r (\<lambda>q. q\<lparr>re_done := True\<rparr>) e)"

definition Executor_finish :: "error option \<Rightarrow> time \<Rightarrow> nat \<Rightarrow> Result \<Rightarrow> error option \<Rightarrow> Executor \<Rightarrow> Executor" where
  "Executor_finish io finished r result err e = finish_release r (finish_account io finished r result err (finish_cancel r e))"

section \<open>The catalog\<close>

definition fetchModels :: "ctx_error option \<Rightarrow> Account \<Rightarrow> Account result \<Rightarrow> (Account \<Rightarrow> Model list result) \<Rightarrow> Model list result" where
  "fetchModels ctx previous got fetch =
     (case got of
        Inl err \<Rightarrow>
          (case ctx of
             Some e \<Rightarrow> Inl (CtxErr e)
           | None \<Rightarrow>
               Inl (FailureErr (mk_Failure (if errors_Is err OAuthErrNeedsSignIn \<or> errors_Is err OAuthErrDisabled then AccountProblem
                                            else TransportFailure) 0 False)))
      | Inr a \<Rightarrow>
          if chatgpt_id_of a \<noteq> chatgpt_id_of previous then Inl (FailureErr (mk_Failure AccountProblem 0 False))
          else fetch a)"

definition syncCatalog :: "StoreEnv \<Rightarrow> error option \<Rightarrow> ctx_error option \<Rightarrow> Executor \<Rightarrow> Executor \<times> error option" where
  "syncCatalog env io ctx e =
     (if ex_closed e then (e, Some (Sentinel ErrClosed))
      else case ListAccounts env io (ex_db e) of
             Inl err \<Rightarrow> (e, Some (operationError ctx err))
           | Inr records \<Rightarrow>
               (let accounts = map rec_Account (filter rec_Enabled records);
                    ids = map account_id_of accounts;
                    (c, err) = SetAccounts (ex_catalog e) accounts
                in (e\<lparr>ex_cooldowns := (\<lambda>i. if i \<in> set ids then ex_cooldowns e i else None), ex_catalog := c\<rparr>, err)))"

text \<open>\<open>snapshot\<close>: the synchronisation, then the catalog's snapshot, which runs outside the gate.\<close>

definition Executor_snapshot ::
  "StoreEnv \<Rightarrow> error option \<Rightarrow> ctx_error option \<Rightarrow> snapshot_turn list \<Rightarrow> Executor \<Rightarrow> Executor \<times> (CatalogSnapshot \<times> error option) result option" where
  "Executor_snapshot env io ctx turns e =
     (case syncCatalog env io ctx e of
        (e', Some err) \<Rightarrow> (e', Some (Inl err))
      | (e', None) \<Rightarrow> (let (c, r) = Snapshot_run turns (ex_catalog e') in (e'\<lparr>ex_catalog := c\<rparr>, r)))"

definition AvailableModels ::
  "StoreEnv \<Rightarrow> error option \<Rightarrow> ctx_error option \<Rightarrow> snapshot_turn list \<Rightarrow> Executor \<Rightarrow> Executor \<times> (Model list \<times> error option) option" where
  "AvailableModels env io ctx turns e =
     (let (e', r) = Executor_snapshot env io ctx turns e
      in (e', map_option (\<lambda>r. case r of Inl err \<Rightarrow> ([], Some err) | Inr (s, err) \<Rightarrow> (cs_Listed s, err)) r))"

text \<open>\<open>others\<close> is what happens to the executor while the snapshot waits.\<close>

definition Models ::
  "(bytes \<Rightarrow> VerificationHash) \<Rightarrow> error option \<Rightarrow> error option \<Rightarrow> error option \<Rightarrow> ctx_error option \<Rightarrow> StoreEnv \<Rightarrow> snapshot_turn list \<Rightarrow>
   (Executor \<Rightarrow> Executor) \<Rightarrow> string \<Rightarrow> Executor \<Rightarrow> Executor \<times> Model list result option" where
  "Models sha io1 io2 io3 ctx env turns others key e =
     (case CheckKey sha io1 ctx key e of
        Inl err \<Rightarrow> (e, Some (Inl err))
      | Inr _ \<Rightarrow>
          (case AvailableModels env io2 ctx turns e of
             (e', None) \<Rightarrow> (e', None)
           | (e', Some (models, Some err)) \<Rightarrow> (e', Some (Inl err))
           | (e', Some (models, None)) \<Rightarrow>
               (let e'' = others e' in
                case CheckKey sha io3 ctx key e'' of
                  Inl err \<Rightarrow> (e'', Some (Inl err))
                | Inr _ \<Rightarrow> (e'', Some (Inr models)))))"

end
