(* ===== verification/Attempts.thy ===== *)
theory Attempts
  imports Execution
begin

text \<open>
  \<open>internal/execution/attempt.go\<close>, \<open>management.go\<close> and \<open>stream.go\<close>: candidates, selection with cooldowns,
  the three attempts of a request, management changes, and the delivery of a stream. The outcome of
  \<open>oauth.CurrentAccount\<close> and of \<open>client.Stream\<close> in each attempt are arguments, as is what other
  goroutines do to the executor at the points where an attempt holds no lock.
\<close>

section \<open>Candidates\<close>

record candidate =
  ca_id :: string
  ca_identity :: string

fun model_candidates :: "Request \<Rightarrow> AccountCatalog \<Rightarrow> Model list \<Rightarrow> error \<Rightarrow> candidate list \<Rightarrow> candidate list \<times> error" where
  "model_candidates input c [] verr cs = (cs, verr)"
| "model_candidates input c (m # ms) verr cs =
     (if m_ID m \<noteq> rq_model input then model_candidates input c ms verr cs
      else case ValidateModel input m of
             Some err \<Rightarrow> model_candidates input c ms err cs
           | None \<Rightarrow> model_candidates input c ms verr (cs @ [\<lparr>ca_id = ac_AccountID c, ca_identity = ac_ChatGPTAccountID c\<rparr>]))"

definition requestCandidates :: "CatalogSnapshot \<Rightarrow> Request \<Rightarrow> candidate list result" where
  "requestCandidates snapshot input =
     (let (cs, verr) = foldl (\<lambda>(cs, verr) c. model_candidates input c (ac_Models c) verr cs) ([], ValidationError ''model'') (cs_Accounts snapshot)
      in if cs = [] then Inl (if cs_Accounts snapshot = [] then Sentinel ErrNoAccounts else verr) else Inr cs)"

section \<open>Selection\<close>

text \<open>The eligible IDs and the cooldowns left; \<open>clock\<close> is the reading made for each candidate.\<close>

fun eligible :: "(string \<Rightarrow> time) \<Rightarrow> string set \<Rightarrow> candidate list \<Rightarrow> (string \<rightharpoonup> time) \<Rightarrow> string list \<times> (string \<rightharpoonup> time)" where
  "eligible clock tried [] cd = ([], cd)"
| "eligible clock tried (c # cs) cd =
     (if ca_id c \<in> tried \<or> clock (ca_id c) < (case cd (ca_id c) of None \<Rightarrow> 0 | Some t \<Rightarrow> t) then eligible clock tried cs cd
      else (let (ids, cd') = eligible clock tried cs (cd(ca_id c := None)) in (ca_id c # ids, cd')))"

definition selectAccount ::
  "(string \<Rightarrow> time) \<Rightarrow> string \<Rightarrow> candidate list \<Rightarrow> string set \<Rightarrow> Executor \<Rightarrow> Executor \<times> candidate option" where
  "selectAccount clock model candidates tried e =
     (let (ids, cd) = eligible clock tried candidates (ex_cooldowns e);
          (sel, i, ok) = Select (ex_selector e) model ids
      in (e\<lparr>ex_cooldowns := cd, ex_selector := sel\<rparr>,
          if ok then find (\<lambda>c. ca_id c = i) candidates else None))"

definition account_failure :: error where
  "account_failure = FailureErr (mk_Failure AccountProblem 0 True)"

definition registerAccount :: "StoreEnv \<Rightarrow> error option \<Rightarrow> nat \<Rightarrow> candidate \<Rightarrow> Executor \<Rightarrow> Executor \<times> error option" where
  "registerAccount env io r c e =
     (case GetAccount env io (ex_db e) (ca_id c) of
        Inl err \<Rightarrow>
          if errors_Is err ErrNotFound then (e, Some account_failure)
          else (e, Some (operationError (re_ctx (ex_requests e ! r)) err))
      | Inr record \<Rightarrow>
          (case re_ctx (ex_requests e ! r) of
             Some ce \<Rightarrow> (e, Some (CtxErr ce))
           | None \<Rightarrow>
               if \<not> rec_Enabled record \<or> chatgpt_id_of (rec_Account record) \<noteq> ca_identity c then (e, Some account_failure)
               else (upd_request r (\<lambda>q. q\<lparr>re_accountID := ca_id c\<rparr>) e, None)))"

definition oauthFailure :: "ctx_error option \<Rightarrow> error \<Rightarrow> error" where
  "oauthFailure ctx err =
     (case ctx of
        Some e \<Rightarrow> CtxErr e
      | None \<Rightarrow>
          if errors_Is err OAuthErrDisabled \<or> errors_Is err OAuthErrNeedsSignIn \<or> errors_Is err OAuthErrUnavailable \<or> errors_Is err ErrNotFound
          then account_failure else operationError None err)"

text \<open>What the environment does in one turn of the loop in \<open>open\<close>.\<close>

record open_turn =
  ot_clock :: "string \<Rightarrow> time"
  ot_io1 :: "error option"
  ot_before_oauth :: "Executor \<Rightarrow> Executor"
  ot_current :: "Account result"
  ot_io2 :: "error option"
  ot_before_stream :: "Executor \<Rightarrow> Executor"
  ot_stream :: "Stream result"
  ot_after_stream :: "Executor \<Rightarrow> Executor"
  ot_now :: "time \<times> time"

definition prepare :: "StoreEnv \<Rightarrow> open_turn \<Rightarrow> nat \<Rightarrow> candidate \<Rightarrow> Executor \<Rightarrow> Executor \<times> Account result" where
  "prepare env t r c e =
     (case registerAccount env (ot_io1 t) r c e of
        (e1, Some err) \<Rightarrow> (e1, Inl err)
      | (e1, None) \<Rightarrow>
          (let e2 = ot_before_oauth t e1 in
           case ot_current t of
             Inl err \<Rightarrow> (e2, Inl (oauthFailure (re_ctx (ex_requests e2 ! r)) err))
           | Inr a \<Rightarrow>
               if chatgpt_id_of a \<noteq> ca_identity c then (e2, Inl account_failure)
               else case registerAccount env (ot_io2 t) r c e2 of
                      (e3, Some err) \<Rightarrow> (e3, Inl err)
                    | (e3, None) \<Rightarrow> (e3, Inr a)))"

definition safeRetry :: "error \<Rightarrow> bool" where
  "safeRetry err \<longleftrightarrow> \<not> is_ctx err Canceled \<and> \<not> is_ctx err DeadlineExceeded \<and>
     (case as_Failure err of
        None \<Rightarrow> False
      | Some f \<Rightarrow> f_SafeToRetry f \<and> (f_Category f = ProviderLimit \<or> f_Category f = AccountProblem))"

definition noteFailure :: "time \<times> time \<Rightarrow> nat \<Rightarrow> string \<Rightarrow> error \<Rightarrow> Executor \<Rightarrow> Executor" where
  "noteFailure now r i err e =
     (case as_Failure err of
        None \<Rightarrow> e
      | Some f \<Rightarrow>
          if f_Category f = ProviderLimit \<and> re_ctx (ex_requests e ! r) = None then
            (let until = fst now + Minute;
                 until = (if cd_Kind (f_RetryAfter f) = RetryAt \<and> cd_Until (f_RetryAfter f) > snd now then cd_Until (f_RetryAfter f) else until)
             in if until > (case ex_cooldowns e i of None \<Rightarrow> 0 | Some t \<Rightarrow> t) then e\<lparr>ex_cooldowns := (ex_cooldowns e)(i \<mapsto> until)\<rparr> else e)
          else e)"

text \<open>
  The loop of \<open>open\<close>, one list element per iteration left. It also gives the accounts tried, in
  order, each with the error of its attempt.
\<close>

type_synonym attempts = "(string \<times> error option) list"

fun open_loop ::
  "StoreEnv \<Rightarrow> open_turn list \<Rightarrow> nat \<Rightarrow> Request \<Rightarrow> candidate list \<Rightarrow> string set \<Rightarrow> error option \<Rightarrow> Executor \<Rightarrow>
   Executor \<times> attempts \<times> Stream result" where
  "open_loop env [] r input cs tried lastErr e = (e, [], Inl (case lastErr of Some err \<Rightarrow> err | None \<Rightarrow> Sentinel ErrNoAccounts))"
| "open_loop env (t # ts) r input cs tried lastErr e =
     (case selectAccount (ot_clock t) (rq_model input) cs tried e of
        (e1, None) \<Rightarrow> (e1, [], Inl (case lastErr of Some err \<Rightarrow> err | None \<Rightarrow> Sentinel ErrNoAccounts))
      | (e1, Some c) \<Rightarrow>
          (let e2 = upd_request r (\<lambda>q. q\<lparr>re_lastAttempt := ca_id c\<rparr>) e1;
               (e3, prepared) = prepare env t r c e2;
               e4 = (case prepared of Inl _ \<Rightarrow> e3 | Inr _ \<Rightarrow> ot_after_stream t (ot_before_stream t e3));
               attempt = bindR prepared (\<lambda>a. ot_stream t)
           in case attempt of
                Inr stream \<Rightarrow> (e4, [(ca_id c, None)], Inr stream)
              | Inl err \<Rightarrow>
                  (let e5 = noteFailure (ot_now t) r (ca_id c) err e4 in
                   case re_ctx (ex_requests e5 ! r) of
                     Some ce \<Rightarrow> (e5, [(ca_id c, Some err)], Inl (CtxErr ce))
                   | None \<Rightarrow>
                       if \<not> safeRetry err then (e5, [(ca_id c, Some err)], Inl err)
                       else (let (e6, trace, result) = open_loop env ts r input cs (insert (ca_id c) tried) (Some err) e5
                             in (e6, (ca_id c, Some err) # trace, result)))))"

definition open_request ::
  "StoreEnv \<Rightarrow> open_turn \<times> open_turn \<times> open_turn \<Rightarrow> nat \<Rightarrow> Request \<Rightarrow> CatalogSnapshot result \<Rightarrow> Executor \<Rightarrow>
   Executor \<times> attempts \<times> Stream result" where
  "open_request env turns r input snapshot e =
     (case bindR snapshot (\<lambda>s. requestCandidates s input) of
        Inl err \<Rightarrow> (e, [], Inl err)
      | Inr cs \<Rightarrow> (case turns of (t1, t2, t3) \<Rightarrow> open_loop env [t1, t2, t3] r input cs {} None e))"

section \<open>Management\<close>

definition cancel_all :: "nat list \<Rightarrow> Executor \<Rightarrow> Executor" where
  "cancel_all rs e =
     e\<lparr>ex_requests := map (\<lambda>(k, q). if k \<in> set rs then cancel_request Canceled q else q) (enumerate 0 (ex_requests e))\<rparr>"

text \<open>
  \<open>change\<close> up to its wait: the new state, its error so far and the requests to wait for. \<open>persist\<close> gives
  \<open>None\<close> when it does not return.
\<close>

definition change ::
  "StoreEnv \<Rightarrow> error option \<Rightarrow> ctx_error option \<Rightarrow> (World \<Rightarrow> World \<times> error option option) \<Rightarrow> (requestState \<Rightarrow> bool) \<Rightarrow> bool \<Rightarrow>
   Executor \<Rightarrow> Executor \<times> (error option \<times> nat list) option" where
  "change env io ctx persist matches accounts e =
     (if ex_closed e then (e, Some (Some (Sentinel ErrClosed), []))
      else case persist (ex_world e) of
             (w, None) \<Rightarrow> (e\<lparr>ex_world := w\<rparr>, None)
           | (w, Some (Some err)) \<Rightarrow> (e\<lparr>ex_world := w\<rparr>, Some (Some err, []))
           | (w, Some None) \<Rightarrow>
               (let e = e\<lparr>ex_world := w\<rparr>;
                    waits = filter (\<lambda>r. matches (ex_requests e ! r)) (ex_active e);
                    e = cancel_all waits e;
                    (e, err) = (if accounts then syncCatalog env io ctx e else (e, None))
                in (e, Some (err, waits))))"

text \<open>The wait: it returns once every request is done, or when its context ends.\<close>

definition change_wait :: "ctx_error option \<Rightarrow> error option \<times> nat list \<Rightarrow> Executor \<Rightarrow> error option option" where
  "change_wait ctx started e =
     (case ctx of
        Some c \<Rightarrow> Some (Some (CtxErr c))
      | None \<Rightarrow> if list_all (\<lambda>r. re_done (ex_requests e ! r)) (snd started) then Some (fst started) else None)"

definition on_db :: "(DB \<Rightarrow> DB \<times> error option) \<Rightarrow> World \<Rightarrow> World \<times> error option option" where
  "on_db f w = (let (db, r) = f (w_db w) in (w\<lparr>w_db := db\<rparr>, Some r))"

definition RevokeKey :: "StoreEnv \<Rightarrow> error option \<Rightarrow> string \<Rightarrow> Executor \<Rightarrow> Executor \<times> (error option \<times> nat list) option" where
  "RevokeKey env io i = change env None None (on_db (\<lambda>db. RevokeAccessKey io db i)) (\<lambda>r. re_keyID r = i) False"

definition SetConcurrency :: "StoreEnv \<Rightarrow> error option \<Rightarrow> string \<Rightarrow> int \<Rightarrow> Executor \<Rightarrow> Executor \<times> (error option \<times> nat list) option" where
  "SetConcurrency env io i limit = change env None None (on_db (\<lambda>db. UpdateAccessKeyConcurrency io db i limit)) (\<lambda>_. False) False"

definition Executor_DisableAccount ::
  "StoreEnv \<Rightarrow> error option \<Rightarrow> (World \<Rightarrow> World) \<Rightarrow> error option \<Rightarrow> ctx_error option \<Rightarrow> string \<Rightarrow> Executor \<Rightarrow> Executor \<times> (error option \<times> nat list) option" where
  "Executor_DisableAccount env io1 others io2 ctx i =
     change env io2 ctx (\<lambda>w. let (w, r) = Manager_Disable io1 others w i in (w, Some r)) (\<lambda>r. re_accountID r = i) True"

definition Executor_EnableAccount ::
  "StoreEnv \<Rightarrow> enable_turn list \<Rightarrow> error option \<Rightarrow> ctx_error option \<Rightarrow> string \<Rightarrow> Executor \<Rightarrow> Executor \<times> (error option \<times> nat list) option" where
  "Executor_EnableAccount env turns io ctx i = change env io ctx (\<lambda>w. Manager_Enable env turns w i) (\<lambda>_. False) True"

definition Executor_DeleteAccount ::
  "StoreEnv \<Rightarrow> error option \<Rightarrow> (World \<Rightarrow> World) \<Rightarrow> error option \<Rightarrow> ctx_error option \<Rightarrow> string \<Rightarrow> Executor \<Rightarrow> Executor \<times> (error option \<times> nat list) option" where
  "Executor_DeleteAccount env io1 others io2 ctx i =
     change env io2 ctx (\<lambda>w. let (w, r) = Manager_Delete io1 others w i in (w, Some r)) (\<lambda>r. re_accountID r = i) True"

definition Executor_Close :: "Executor \<Rightarrow> Executor \<times> nat list" where
  "Executor_Close e =
     (let e' = cancel_all (ex_active e) (e\<lparr>ex_closed := True\<rparr>)
      in (e'\<lparr>ex_catalog := Catalog_Close (ex_catalog e')\<rparr>, ex_active e))"

section \<open>Delivery\<close>

record EStream =
  es_attempt :: "Stream option"
  es_request :: nat
  es_openErr :: "error option"
  es_once :: bool \<comment> \<open>\<open>finish\<close> has run\<close>
  es_failureOnce :: bool
  es_closeErr :: "error option"
  es_deliveryFailed :: bool

definition EStream_noteFailure :: "time \<times> time \<Rightarrow> error option \<Rightarrow> EStream \<Rightarrow> Executor \<Rightarrow> EStream \<times> Executor" where
  "EStream_noteFailure now err s e =
     (case err of
        None \<Rightarrow> (s, e)
      | Some err \<Rightarrow>
          if es_failureOnce s then (s, e)
          else (s\<lparr>es_failureOnce := True\<rparr>, noteFailure now (es_request s) (re_accountID (ex_requests e ! es_request s)) err e))"

definition EStream_Result :: "EStream \<Rightarrow> Result" where
  "EStream_Result s = (case es_attempt s of None \<Rightarrow> zero_Result | Some a \<Rightarrow> s_result a)"

text \<open>\<open>Next\<close>; a nil attempt goes with an open error, so that branch is not reached.\<close>

definition EStream_Next ::
  "map_iter \<Rightarrow> time \<times> time \<Rightarrow> read_state \<Rightarrow> delivery \<Rightarrow> EStream \<Rightarrow> Executor \<Rightarrow> EStream \<times> Executor \<times> json result" where
  "EStream_Next ord now rd d s e =
     (case re_ctx (ex_requests e ! es_request s) of
        Some c \<Rightarrow> (s, e, Inl (CtxErr c))
      | None \<Rightarrow>
          (case es_openErr s of
             Some err \<Rightarrow> (s, e, Inl err)
           | None \<Rightarrow>
               (case es_attempt s of
                  None \<Rightarrow> (s, e, Inl (PlainErr ''nil attempt''))
                | Some a \<Rightarrow>
                    (let (a', r) = Stream_Next ord a rd d;
                         s = s\<lparr>es_attempt := Some a'\<rparr>;
                         (s, e) = EStream_noteFailure now (s_err a') s e
                     in case r of
                          Inl err \<Rightarrow> (s, e, Inl err)
                        | Inr event \<Rightarrow>
                            (case CleanupError a' of
                               None \<Rightarrow> (s, e, Inr event)
                             | Some cleanup \<Rightarrow> (s, e, Inl (the (errors_Join [Some cleanup, s_err a']))))))))"

text \<open>The error with which a stream is recorded: the attempt's, unless delivery failed or the request was canceled.\<close>

definition final_error :: "EStream \<Rightarrow> ctx_error option \<Rightarrow> error option" where
  "final_error s ctx =
     (let err = (case es_attempt s of None \<Rightarrow> es_openErr s | Some a \<Rightarrow> s_err a);
          err = (if es_deliveryFailed s then Some (Sentinel ErrDelivery) else err)
      in case ctx of Some c \<Rightarrow> Some (CtxErr c) | None \<Rightarrow> err)"

definition EStream_finish ::
  "Ctx \<Rightarrow> bool \<Rightarrow> time \<times> time \<Rightarrow> error option \<Rightarrow> time \<Rightarrow> EStream \<Rightarrow> Executor \<Rightarrow> EStream \<times> Executor" where
  "EStream_finish cctx close_fails now io finished s e =
     (if es_once s then (s, e)
      else
        (let s = s\<lparr>es_once := True\<rparr>;
             (s, e) = (case es_attempt s of
                None \<Rightarrow> (s, e)
              | Some a \<Rightarrow>
                  (let (a', closeErr) = Stream_Close cctx close_fails a;
                       s = s\<lparr>es_attempt := Some a', es_closeErr := closeErr\<rparr>
                   in EStream_noteFailure now (s_err a') s e));
             err = final_error s (re_ctx (ex_requests e ! es_request s))
         in (s, Executor_finish io finished (es_request s) (EStream_Result s) err e)))"

definition EStream_DeliveryFailed :: "EStream \<Rightarrow> EStream" where
  "EStream_DeliveryFailed s = s\<lparr>es_deliveryFailed := True\<rparr>"

definition EStream_ResponseStarted :: "EStream \<Rightarrow> Executor \<Rightarrow> Executor" where
  "EStream_ResponseStarted s e = upd_request (es_request s) (\<lambda>q. q\<lparr>re_responseStarted := True\<rparr>) e"

definition EStream_abort :: "Ctx \<Rightarrow> bool \<Rightarrow> EStream \<Rightarrow> EStream" where
  "EStream_abort cctx close_fails s = s\<lparr>es_attempt := map_option (\<lambda>a. fst (Stream_Close cctx close_fails a)) (es_attempt s)\<rparr>"

definition EStream_Close ::
  "Ctx \<Rightarrow> bool \<Rightarrow> time \<times> time \<Rightarrow> error option \<Rightarrow> time \<Rightarrow> EStream option \<Rightarrow> Executor \<Rightarrow> EStream option \<times> Executor \<times> error option" where
  "EStream_Close cctx close_fails now io finished s e =
     (case s of
        None \<Rightarrow> (None, e, None)
      | Some s \<Rightarrow> (let (s', e') = EStream_finish cctx close_fails now io finished s e in (Some s', e', es_closeErr s')))"

text \<open>The environment of one call of \<open>Stream\<close> or \<open>Generate\<close>; \<open>sc_others\<close> is what happens while the snapshot waits.\<close>

record stream_call =
  sc_sha :: "bytes \<Rightarrow> VerificationHash"
  sc_io_find :: "error option"
  sc_ctx1 :: "ctx_error option"
  sc_ctx2 :: "ctx_error option"
  sc_now :: time
  sc_io_list :: "error option"
  sc_snapshot :: "snapshot_turn list"
  sc_others :: "Executor \<Rightarrow> Executor"
  sc_turns :: "open_turn \<times> open_turn \<times> open_turn"

text \<open>\<open>open\<close>, with its snapshot; \<open>None\<close> when the snapshot does not return within its turns.\<close>

definition Executor_open ::
  "StoreEnv \<Rightarrow> stream_call \<Rightarrow> nat \<Rightarrow> Request \<Rightarrow> Executor \<Rightarrow> Executor \<times> (attempts \<times> Stream result) option" where
  "Executor_open env c r input e =
     (case Executor_snapshot env (sc_io_list c) (re_ctx (ex_requests e ! r)) (sc_snapshot c) e of
        (e1, None) \<Rightarrow> (sc_others c e1, None)
      | (e1, Some snap) \<Rightarrow>
          (let (e2, trace, opened) = open_request env (sc_turns c) r input
                 (bindR snap (\<lambda>(s, err). case err of None \<Rightarrow> Inr s | Some x \<Rightarrow> Inl x)) (sc_others c e1)
           in (e2, Some (trace, opened))))"

definition admitted_stream :: "nat \<Rightarrow> Stream result \<Rightarrow> Executor \<Rightarrow> EStream \<times> error option" where
  "admitted_stream r opened e =
     (let s = \<lparr>es_attempt = (case opened of Inr a \<Rightarrow> Some a | Inl _ \<Rightarrow> None), es_request = r,
               es_openErr = (case opened of Inl err \<Rightarrow> Some err | Inr _ \<Rightarrow> None), es_once = False, es_failureOnce = False,
               es_closeErr = None, es_deliveryFailed = False\<rparr>
      in (s, case opened of Inl err \<Rightarrow> Some err | Inr _ \<Rightarrow> map_option CtxErr (re_ctx (ex_requests e ! r))))"

definition Executor_Stream ::
  "StoreEnv \<Rightarrow> stream_call \<Rightarrow> string \<Rightarrow> RequestInfo \<Rightarrow> Request \<Rightarrow> Executor \<Rightarrow> Executor \<times> (EStream option \<times> error option) option" where
  "Executor_Stream env c key info input e =
     (if blank (ri_ID info) then (e, Some (None, Some (PlainErr ''execution: request ID is required'')))
      else case admit (sc_sha c) (sc_io_find c) (sc_ctx1 c) (sc_ctx2 c) (sc_now c) key info (rq_model input) e of
             (e1, Inl err) \<Rightarrow> (e1, Some (None, Some err))
           | (e1, Inr r) \<Rightarrow>
               (case Executor_open env c r input e1 of
                  (e2, None) \<Rightarrow> (e2, None)
                | (e2, Some (trace, opened)) \<Rightarrow> (let (s, err) = admitted_stream r opened e2 in (e2, Some (Some s, err)))))"

text \<open>
  \<open>Generate\<close>'s loop over the deliveries; \<open>None\<close> when they run out before the stream ends. The outcome is
  the result, the error of closing the upstream response and the error returned.
\<close>

fun generate_loop ::
  "map_iter \<Rightarrow> ((time \<times> time) \<times> read_state \<times> delivery) list \<Rightarrow> Ctx \<Rightarrow> bool \<Rightarrow> EStream \<Rightarrow> Executor \<Rightarrow>
   (EStream \<times> Executor \<times> Result \<times> error option \<times> error option) option" where
  "generate_loop ord [] cctx cf s e = None"
| "generate_loop ord ((now, rd, d) # ds) cctx cf s e =
     (case EStream_Next ord now rd d s e of
        (s', e', Inr _) \<Rightarrow> generate_loop ord ds cctx cf s' e'
      | (s', e', Inl err) \<Rightarrow>
          (let err = (if errors_Is err EOF then None else Some err);
               closed = map_option (Stream_Close cctx cf) (es_attempt s');
               s'' = s'\<lparr>es_attempt := map_option fst closed\<rparr>;
               cleanup = (case closed of None \<Rightarrow> None | Some (_, ce) \<Rightarrow> ce)
           in Some (s'', e', EStream_Result s'', cleanup, errors_Join [err, cleanup])))"

definition Executor_Generate ::
  "StoreEnv \<Rightarrow> stream_call \<Rightarrow> map_iter \<Rightarrow> ((time \<times> time) \<times> read_state \<times> delivery) list \<Rightarrow> Ctx \<Rightarrow> bool \<Rightarrow> string \<Rightarrow> RequestInfo \<Rightarrow> Request \<Rightarrow>
   Executor \<Rightarrow> Executor \<times> (EStream option \<times> Result \<times> error option \<times> error option) option" where
  "Executor_Generate env c ord ds cctx cf key info input e =
     (case Executor_Stream env c key info input e of
        (e', None) \<Rightarrow> (e', None)
      | (e', Some (None, err)) \<Rightarrow> (e', Some (None, zero_Result, None, err))
      | (e', Some (Some s, Some err)) \<Rightarrow> (e', Some (Some s, zero_Result, None, Some err))
      | (e', Some (Some s, None)) \<Rightarrow>
          (case generate_loop ord ds cctx cf s e' of
             None \<Rightarrow> (e', None)
           | Some (s', e'', result, cleanup, err) \<Rightarrow> (e'', Some (Some s', result, cleanup, err))))"

end
