(* ===== verification/ExecutionLaws.thy ===== *)
theory ExecutionLaws
  imports Attempts StorageLaws
begin

text \<open>
  Laws of the executor as a state machine: the limiter's counts are the active requests, a request
  that may go on has an enabled key and account, and revocation is complete when it returns.
\<close>

section \<open>What happens to the store meanwhile\<close>

definition key_on :: "DB \<Rightarrow> string \<Rightarrow> bool" where
  "key_on db i \<longleftrightarrow> (\<exists>row \<in> set (access_keys_t db). kr_id row = i \<and> kr_enabled row = 1)"

definition key_off :: "DB \<Rightarrow> string \<Rightarrow> bool" where
  "key_off db i \<longleftrightarrow> i \<in> kr_id ` set (access_keys_t db) \<and> \<not> key_on db i"

definition account_on :: "DB \<Rightarrow> string \<Rightarrow> bool" where
  "account_on db i \<longleftrightarrow> (\<exists>row \<in> set (accounts_t db). ar_id row = i \<and> ar_enabled row = 1)"

text \<open>The statements that run outside the gate: sign-ins, refreshes, new keys, accounting and retention.\<close>

inductive traffic :: "StoreEnv \<Rightarrow> DB \<Rightarrow> DB \<Rightarrow> bool" for env where
  bg_create: "CreateAccount env nonce io db v en = (db', r) \<Longrightarrow> traffic env db db'"
| bg_replace: "ReplaceAccountCredentialsIfUnchanged env nonce io db prev c = (db', r) \<Longrightarrow> traffic env db db'"
| bg_enable: "enable_write db i revn enc = (db', n) \<Longrightarrow> traffic env db db'"
| bg_key: "CreateAccessKey io db key hash limit = (db', r) \<Longrightarrow> traffic env db db'"
| bg_insert: "InsertRequest io db rec = (db', r) \<Longrightarrow> traffic env db db'"
| bg_expire: "DeleteRequestsBefore scan io db before = (db', n) \<Longrightarrow> traffic env db db'"

abbreviation traffics :: "StoreEnv \<Rightarrow> DB \<Rightarrow> DB \<Rightarrow> bool" where
  "traffics env \<equiv> (traffic env)\<^sup>*\<^sup>*"

lemma account_on_update:
  assumes "account_on db j" and "\<And>row. ar_id (f row) = ar_id row" and "\<And>row. ar_enabled row = 1 \<Longrightarrow> ar_enabled (f row) = 1"
  shows "account_on (db\<lparr>accounts_t := tbl_update p f (accounts_t db)\<rparr>) j"
proof -
  from assms(1) obtain row where "row \<in> set (accounts_t db)" "ar_id row = j" "ar_enabled row = 1" by (auto simp: account_on_def)
  with assms(2,3) show ?thesis
    unfolding account_on_def by (intro bexI [of _ "if p row then f row else row"]) (auto simp: tbl_update_def)
qed

lemma traffic_keeps:
  assumes "traffic env db db'"
  shows "key_on db i \<Longrightarrow> key_on db' i" and "key_off db i \<Longrightarrow> key_off db' i" and "account_on db j \<Longrightarrow> account_on db' j"
proof -
  have "(key_on db i \<longrightarrow> key_on db' i) \<and> (key_off db i \<longrightarrow> key_off db' i) \<and> (account_on db j \<longrightarrow> account_on db' j)"
    using assms
  proof (induction rule: traffic.induct)
    case (bg_create nonce io db v en db' r)
    from CreateAccount_tables [OF bg_create] show ?case by (auto simp: key_on_def key_off_def account_on_def)
  next
    case (bg_replace nonce io db prev c db' r)
    from Replace_tables [OF bg_replace] show ?case by (auto simp: key_on_def key_off_def intro!: account_on_update)
  next
    case (bg_enable db i revn enc db' n)
    then show ?case by (auto simp: enable_write_def Let_def key_on_def key_off_def intro!: account_on_update)
  next
    case (bg_key io db key hash limit db' r)
    from CreateAccessKey_tables [OF bg_key] show ?case by (auto simp: key_on_def key_off_def account_on_def tbl_lookup_None_iff)
  next
    case (bg_insert io db rec db' r)
    then have "access_keys_t db' = access_keys_t db" "accounts_t db' = accounts_t db"
      by (auto simp: InsertRequest_def split: if_splits option.splits)
    then show ?case by (simp add: key_on_def key_off_def account_on_def)
  next
    case (bg_expire scan io db before db' n)
    then have "access_keys_t db' = access_keys_t db" "accounts_t db' = accounts_t db"
      by (auto simp: DeleteRequestsBefore_def Let_def split: option.splits)
    then show ?case by (simp add: key_on_def key_off_def account_on_def)
  qed
  then show "key_on db i \<Longrightarrow> key_on db' i" and "key_off db i \<Longrightarrow> key_off db' i" and "account_on db j \<Longrightarrow> account_on db' j" by blast+
qed

lemma traffics_keep:
  assumes "traffics env db db'"
  shows "key_on db i \<Longrightarrow> key_on db' i" and "key_off db i \<Longrightarrow> key_off db' i" and "account_on db j \<Longrightarrow> account_on db' j"
  using assms by (induction rule: rtranclp_induct) (auto dest: traffic_keeps)

section \<open>Invariant\<close>

definition holders :: "Executor \<Rightarrow> (nat \<times> key_id) list" where
  "holders e = map (\<lambda>r. (the (re_slot (ex_requests e ! r)), re_keyID (ex_requests e ! r))) (ex_active e)"

abbreviation slot_owner :: "Limiter \<Rightarrow> nat \<Rightarrow> key_id" where
  "slot_owner l i \<equiv> fst (closures l ! i)"

text \<open>What holds of one active request: it has a slot, and while it is not canceled the executor is open and its key and account are enabled.\<close>

definition request_ok :: "bool \<Rightarrow> DB \<Rightarrow> requestState \<Rightarrow> bool" where
  "request_ok closed db q \<longleftrightarrow> re_slot q \<noteq> None \<and> \<not> re_done q \<and>
     (re_ctx q = None \<longrightarrow> \<not> closed \<and> key_on db (re_keyID q) \<and> (re_accountID q \<noteq> [] \<longrightarrow> account_on db (re_accountID q)))"

definition exec_inv :: "Executor \<Rightarrow> bool" where
  [inv_defs]: "exec_inv e \<longleftrightarrow>
     distinct (ex_active e) \<and> (\<forall>r. r \<in> set (ex_active e) \<longrightarrow> r < length (ex_requests e)) \<and>
     (\<forall>r. r \<in> set (ex_active e) \<longrightarrow> request_ok (ex_closed e) (ex_db e) (ex_requests e ! r)) \<and>
     limiter_inv (ex_limiter e) \<and> accounted slot_live slot_owner held (ex_limiter e) (holders e)"

lemma exec_invD:
  assumes "exec_inv e"
  shows "distinct (ex_active e)" and "r \<in> set (ex_active e) \<Longrightarrow> r < length (ex_requests e)"
    and "r \<in> set (ex_active e) \<Longrightarrow> request_ok (ex_closed e) (ex_db e) (ex_requests e ! r)"
    and "limiter_inv (ex_limiter e)" and "accounted slot_live slot_owner held (ex_limiter e) (holders e)"
  using assms unfolding exec_inv_def by blast+

text \<open>Changes that leave the limiter, the active set and every request's slot and key alone.\<close>

lemma exec_inv_frame:
  assumes inv: "exec_inv e" and same: "ex_active e' = ex_active e" "ex_limiter e' = ex_limiter e" "length (ex_requests e') = length (ex_requests e)"
    and slots: "\<And>r. r < length (ex_requests e) \<Longrightarrow>
      re_slot (ex_requests e' ! r) = re_slot (ex_requests e ! r) \<and> re_keyID (ex_requests e' ! r) = re_keyID (ex_requests e ! r)"
    and ok: "\<And>r. r \<in> set (ex_active e) \<Longrightarrow> request_ok (ex_closed e) (ex_db e) (ex_requests e ! r) \<Longrightarrow>
      request_ok (ex_closed e') (ex_db e') (ex_requests e' ! r)"
  shows "exec_inv e'"
proof -
  have "holders e' = holders e"
    using slots exec_invD(2) [OF inv] by (auto simp: holders_def same)
  with exec_invD [OF inv] ok show ?thesis unfolding exec_inv_def same by simp
qed

lemma request_ok_db:
  assumes "request_ok closed db q" and "\<And>i. key_on db i \<Longrightarrow> key_on db' i" and "\<And>i. account_on db i \<Longrightarrow> account_on db' i"
  shows "request_ok closed db' q"
  using assms by (auto simp: request_ok_def)

lemma exec_inv_world:
  assumes "exec_inv e" and "traffics env (ex_db e) (w_db w)"
  shows "exec_inv (e\<lparr>ex_world := w\<rparr>)"
  by (rule exec_inv_frame [OF assms(1)]) (use traffics_keep [OF assms(2)] in \<open>auto intro: request_ok_db\<close>)

lemma exec_inv_upd_request:
  assumes inv: "exec_inv e"
    and same: "re_slot (f (ex_requests e ! r)) = re_slot (ex_requests e ! r)" "re_keyID (f (ex_requests e ! r)) = re_keyID (ex_requests e ! r)"
    and ok: "r \<in> set (ex_active e) \<Longrightarrow> request_ok (ex_closed e) (ex_db e) (ex_requests e ! r) \<Longrightarrow> request_ok (ex_closed e) (ex_db e) (f (ex_requests e ! r))"
  shows "exec_inv (upd_request r f e)"
proof (cases "r < length (ex_requests e)")
  case True
  then have nth: "ex_requests (upd_request r f e) ! k = (if k = r then f (ex_requests e ! r) else ex_requests e ! k)" for k
    by (simp add: upd_request_def nth_list_update)
  have frame: "ex_closed (upd_request r f e) = ex_closed e" "ex_world (upd_request r f e) = ex_world e" by (simp_all add: upd_request_def)
  have "request_ok (ex_closed e) (ex_db e) (ex_requests (upd_request r f e) ! k)"
    if "k \<in> set (ex_active e)" "request_ok (ex_closed e) (ex_db e) (ex_requests e ! k)" for k
    using that ok by (cases "k = r") (simp_all add: nth)
  then show ?thesis
    by (intro exec_inv_frame [OF inv]) (simp_all add: frame nth same, simp_all add: upd_request_def)
qed (use inv in \<open>simp add: upd_request_def list_update_beyond\<close>)

lemma cancel_request_simps [simp]:
  "re_slot (cancel_request c q) = re_slot q" "re_keyID (cancel_request c q) = re_keyID q" "re_accountID (cancel_request c q) = re_accountID q"
  "re_done (cancel_request c q) = re_done q" "re_ctx (cancel_request c q) \<noteq> None"
  by (auto simp: cancel_request_def)

lemma cancel_request_ok: "request_ok closed db q \<Longrightarrow> request_ok closed' db' (cancel_request c q)"
  by (simp add: request_ok_def)

section \<open>Operations keep it\<close>

lemma authenticate_Inr:
  assumes "authenticate sha io ctx db key = Inr rec"
  shows "key_on db (ki_ID (ak_identity (akr_Key rec))) \<and>
    (\<exists>row \<in> set (access_keys_t db). kr_id row = ki_ID (ak_identity (akr_Key rec)) \<and> kr_limit row = akr_ConcurrencyLimit rec \<and>
       kr_enabled row = 1 \<and> Hash sha key = Some (kr_hash row))"
proof -
  from assms obtain hash where h: "Hash sha key = Some hash" and f: "FindAccessKeyByHash io db hash = Inr rec" and en: "ak_enabled (akr_Key rec)"
    by (auto simp: authenticate_def split: option.splits sum.splits if_splits)
  from f obtain row where row: "tbl_lookup kr_hash hash (access_keys_t db) = Some row" and dec: "scanAccessKey row = Inr rec"
    by (auto simp: FindAccessKeyByHash_def split: option.splits sum.splits)
  from dec en have "kr_id row = ki_ID (ak_identity (akr_Key rec))" "kr_enabled row = 1" "kr_limit row = akr_ConcurrencyLimit rec"
    by (auto simp: scanAccessKey_def decodeAccessKey_def AccessKey_New_Inr split: if_splits sum.splits)
  with tbl_lookup_Some [OF row] h show ?thesis unfolding key_on_def by blast
qed

lemma admit_Inr:
  assumes "admit sha io ctx1 ctx2 now rawKey info model e = (e', Inr r)"
  obtains rec l slot q where "\<not> ex_closed e" "authenticate sha io ctx1 (ex_db e) rawKey = Inr rec"
    "TryAcquire (ex_limiter e) (ki_ID (ak_identity (akr_Key rec))) (akr_ConcurrencyLimit rec) = (l, Inr slot)" "r = length (ex_requests e)"
    "e' = e\<lparr>ex_limiter := l, ex_requests := ex_requests e @ [q], ex_active := ex_active e @ [length (ex_requests e)]\<rparr>"
    "re_keyID q = ki_ID (ak_identity (akr_Key rec))" "re_slot q = slot" "re_accountID q = []" "\<not> re_done q" "re_ctx q = None"
  using assms by (auto simp: admit_def Let_def split: if_splits sum.splits option.splits prod.splits)

lemma admit_Inl: "admit sha io ctx1 ctx2 now rawKey info model e = (e', Inl err) \<Longrightarrow> e' = e"
  by (auto simp: admit_def Let_def dest: TryAcquire_error split: if_splits sum.splits option.splits prod.splits)

lemma admit_inv:
  assumes inv: "exec_inv e" and adm: "admit sha io ctx1 ctx2 now rawKey info model e = (e', Inr r)"
  shows "exec_inv e'"
  using adm
proof (rule admit_Inr)
  fix rec :: AccessKeyRecord and l slot and q :: requestState
  let ?k = "ki_ID (ak_identity (akr_Key rec))" and ?n = "length (ex_requests e)"
  assume open_: "\<not> ex_closed e" and auth: "authenticate sha io ctx1 (ex_db e) rawKey = Inr rec"
    and acq: "TryAcquire (ex_limiter e) ?k (akr_ConcurrencyLimit rec) = (l, Inr slot)"
    and e': "e' = e\<lparr>ex_limiter := l, ex_requests := ex_requests e @ [q], ex_active := ex_active e @ [?n]\<rparr>"
    and q: "re_keyID q = ?k" "re_slot q = slot" "re_accountID q = []" "\<not> re_done q" "re_ctx q = None"
  from lim.accounted_acquire [OF exec_invD(5) [OF inv] acq] obtain i where
    i: "slot = Some i" and acc: "accounted slot_live slot_owner held l (holders e @ [(i, ?k)])" by blast
  have old: "\<And>k. k \<in> set (ex_active e) \<Longrightarrow> (ex_requests e @ [q]) ! k = ex_requests e ! k"
    using exec_invD(2) [OF inv] by (simp add: nth_append)
  then have "holders e' = holders e @ [(i, ?k)]" by (simp add: holders_def e' q i cong: map_cong)
  moreover have "?n \<notin> set (ex_active e)" using exec_invD(2) [OF inv] by blast
  moreover have "request_ok False (ex_db e) q" using authenticate_Inr [OF auth] by (simp add: request_ok_def q i)
  moreover have "limiter_inv l" by (rule lim.inv_acquire [OF exec_invD(4) [OF inv] acq])
  ultimately show ?thesis using exec_invD(1-3) [OF inv] acc open_ old unfolding exec_inv_def e' by (auto simp: less_Suc_eq)
qed

lemma registerAccount_inv:
  assumes inv: "exec_inv e" and reg: "registerAccount env io r c e = (e', err)"
  shows "exec_inv e'"
proof (cases err)
  case (Some x)
  with reg have "e' = e" by (auto simp: registerAccount_def split: sum.splits if_splits option.splits)
  with inv show ?thesis by simp
next
  case None
  with reg obtain rec where get: "GetAccount env io (ex_db e) (ca_id c) = Inr rec" and en: "rec_Enabled rec"
    and e': "e' = upd_request r (\<lambda>q. q\<lparr>re_accountID := ca_id c\<rparr>) e"
    by (auto simp: registerAccount_def split: sum.splits if_splits option.splits)
  from get obtain row :: account_row where row: "tbl_lookup ar_id (ca_id c) (accounts_t (ex_db e)) = Some row"
    and dec: "decodeAccount env (ca_id c) (ar_name row) (ar_enabled row) (ar_credentials row) = Inr rec"
    by (auto simp: GetAccount_def split: option.splits)
  from dec en have "ar_enabled row = 1" by (auto simp: decodeAccount_def split: if_splits sum.splits option.splits)
  with tbl_lookup_Some [OF row] have "account_on (ex_db e) (ca_id c)" by (auto simp: account_on_def)
  then show ?thesis unfolding e' by (intro exec_inv_upd_request [OF inv]) (auto simp: request_ok_def)
qed

lemma finish_release_inv:
  assumes inv: "exec_inv e" and r: "r \<in> set (ex_active e)"
  shows "exec_inv (finish_release r e)"
proof -
  let ?q = "ex_requests e ! r" and ?e = "finish_release r e"
  from exec_invD(3) [OF inv r] obtain i where i: "re_slot ?q = Some i" by (auto simp: request_ok_def)
  have hs: "(i, re_keyID ?q) \<in> set (holders e)" using r i by (force simp: holders_def)
  from lim.accounted_give [OF exec_invD(5) [OF inv] hs]
  have acc: "accounted slot_live slot_owner held (Release (ex_limiter e) (Some i)) (filter (\<lambda>h. fst h \<noteq> i) (holders e))" .
  have rlen: "r < length (ex_requests e)" by (rule exec_invD(2) [OF inv r])
  have same: "k \<noteq> r \<Longrightarrow> ex_requests ?e ! k = ex_requests e ! k" for k
    by (simp add: finish_release_def upd_request_def Let_def)
  have dist: "distinct (map fst (holders e))" using exec_invD(5) [OF inv] by (simp add: accounted_def)
  have key: "the (re_slot (ex_requests e ! k)) = i \<longleftrightarrow> k = r" if "k \<in> set (ex_active e)" for k
  proof -
    from dist have inj: "inj_on (\<lambda>x. the (re_slot (ex_requests e ! x))) (set (ex_active e))"
      by (simp add: holders_def comp_def distinct_map)
    show ?thesis using inj_onD [OF inj _ that r] i by auto
  qed
  have fs: "filter (\<lambda>k. the (re_slot (ex_requests e ! k)) \<noteq> i) (ex_active e) = filter (\<lambda>k. k \<noteq> r) (ex_active e)"
    by (rule filter_cong [OF refl]) (simp add: key)
  have "filter (\<lambda>h. fst h \<noteq> i) (holders e) = holders ?e"
    unfolding holders_def filter_map comp_def fst_conv fs
    by (rule map_cong) (auto simp: same, simp_all add: finish_release_def upd_request_def Let_def)
  moreover have "ex_limiter ?e = Release (ex_limiter e) (Some i)" "ex_active ?e = filter (\<lambda>k. k \<noteq> r) (ex_active e)"
      "length (ex_requests ?e) = length (ex_requests e)" "ex_closed ?e = ex_closed e" "ex_world ?e = ex_world e"
    by (simp_all add: finish_release_def upd_request_def Let_def i)
  ultimately show ?thesis using acc exec_invD(1-3) [OF inv] same lim.inv_give [OF exec_invD(4) [OF inv]]
    unfolding exec_inv_def by simp
qed

text \<open>\<open>syncCatalog\<close>, selection and failure notes touch none of it.\<close>

lemma syncCatalog_frame:
  assumes "syncCatalog env io ctx e = (e', err)"
  shows "ex_active e' = ex_active e" "ex_limiter e' = ex_limiter e" "ex_requests e' = ex_requests e" "ex_closed e' = ex_closed e" "ex_world e' = ex_world e"
  using assms by (auto simp: syncCatalog_def Let_def split: if_splits sum.splits prod.splits)

lemma selectAccount_frame:
  assumes "selectAccount clock model cs tried e = (e', c)"
  shows "ex_active e' = ex_active e" "ex_limiter e' = ex_limiter e" "ex_requests e' = ex_requests e" "ex_closed e' = ex_closed e" "ex_world e' = ex_world e"
  using assms by (auto simp: selectAccount_def Let_def split: prod.splits)

lemma noteFailure_frame:
  "ex_active (noteFailure now r i err e) = ex_active e" "ex_limiter (noteFailure now r i err e) = ex_limiter e"
  "ex_requests (noteFailure now r i err e) = ex_requests e" "ex_closed (noteFailure now r i err e) = ex_closed e"
  "ex_world (noteFailure now r i err e) = ex_world e"
  by (auto simp: noteFailure_def Let_def split: option.splits)

lemma exec_inv_same:
  assumes "exec_inv e" "ex_active e' = ex_active e" "ex_limiter e' = ex_limiter e" "ex_requests e' = ex_requests e"
    "ex_closed e' = ex_closed e" "ex_world e' = ex_world e"
  shows "exec_inv e'"
  by (rule exec_inv_frame [OF assms(1)]) (simp_all add: assms(2-))

lemma syncCatalog_inv: "syncCatalog env io ctx e = (e', err) \<Longrightarrow> exec_inv e \<Longrightarrow> exec_inv e'"
  by (rule exec_inv_same [OF _ syncCatalog_frame])

lemma cancel_all_nth:
  "r < length (ex_requests e) \<Longrightarrow>
    ex_requests (cancel_all rs e) ! r = (if r \<in> set rs then cancel_request Canceled (ex_requests e ! r) else ex_requests e ! r)"
  by (simp add: cancel_all_def nth_enumerate_eq)

lemma cancel_all_frame [simp]:
  "ex_active (cancel_all rs e) = ex_active e" "ex_limiter (cancel_all rs e) = ex_limiter e" "ex_closed (cancel_all rs e) = ex_closed e"
  "ex_world (cancel_all rs e) = ex_world e" "length (ex_requests (cancel_all rs e)) = length (ex_requests e)"
  by (simp_all add: cancel_all_def)

text \<open>
  A change of the store together with the cancellation of the requests it concerns: enough that the
  requests not concerned keep their key and account.
\<close>

lemma exec_inv_change:
  assumes inv: "exec_inv e"
    and keep: "\<And>r. r \<in> set (ex_active e) \<Longrightarrow> r \<notin> set waits \<Longrightarrow> request_ok (ex_closed e) (ex_db e) (ex_requests e ! r) \<Longrightarrow>
       request_ok (ex_closed e) (w_db w) (ex_requests e ! r)"
  shows "exec_inv (cancel_all waits (e\<lparr>ex_world := w\<rparr>))"
proof (rule exec_inv_frame [OF inv])
  fix r assume "r \<in> set (ex_active e)" and ok: "request_ok (ex_closed e) (ex_db e) (ex_requests e ! r)"
  moreover from this(1) have "r < length (ex_requests e)" by (rule exec_invD(2) [OF inv])
  ultimately show "request_ok (ex_closed (cancel_all waits (e\<lparr>ex_world := w\<rparr>))) (ex_db (cancel_all waits (e\<lparr>ex_world := w\<rparr>)))
      (ex_requests (cancel_all waits (e\<lparr>ex_world := w\<rparr>)) ! r)"
    using keep by (auto simp: cancel_all_nth intro: cancel_request_ok)
qed (auto simp: cancel_all_nth)

definition safe_persist :: "StoreEnv \<Rightarrow> (World \<Rightarrow> World \<times> error option option) \<Rightarrow> (requestState \<Rightarrow> bool) \<Rightarrow> bool" where
  "safe_persist env persist matches \<longleftrightarrow>
     (\<forall>w w' r. persist w = (w', r) \<longrightarrow>
        (if r = Some None then (\<forall>closed q. \<not> matches q \<longrightarrow> request_ok closed (w_db w) q \<longrightarrow> request_ok closed (w_db w') q)
         else traffics env (w_db w) (w_db w')))"

lemma change_inv:
  assumes inv: "exec_inv e" and safe: "safe_persist env persist matches"
    and ch: "change env io ctx persist matches accounts e = (e', res)"
  shows "exec_inv e'"
proof (cases "ex_closed e")
  case True
  with ch inv show ?thesis by (simp add: change_def)
next
  case False
  obtain w r where p: "persist (ex_world e) = (w, r)" by (cases "persist (ex_world e)")
  let ?waits = "filter (\<lambda>r. matches (ex_requests e ! r)) (ex_active e)"
  show ?thesis
  proof (cases "r = Some None")
    case True
    have "exec_inv (cancel_all ?waits (e\<lparr>ex_world := w\<rparr>))"
      using safe p True by (intro exec_inv_change [OF inv]) (auto simp: safe_persist_def)
    moreover obtain e2 err where "(if accounts then syncCatalog env io ctx (cancel_all ?waits (e\<lparr>ex_world := w\<rparr>))
        else (cancel_all ?waits (e\<lparr>ex_world := w\<rparr>), None)) = (e2, err)" by fastforce
    ultimately show ?thesis using ch False p True
      by (auto simp: change_def Let_def split: if_splits prod.splits intro: syncCatalog_inv)
  next
    case notdone: False
    with safe p have "traffics env (ex_db e) (w_db w)" by (auto simp: safe_persist_def)
    with ch False p notdone show ?thesis by (auto simp: change_def split: option.splits intro: exec_inv_world [OF inv])
  qed
qed

section \<open>Management changes\<close>

lemma tbl_update_mem: "row \<in> set t \<Longrightarrow> \<not> p row \<Longrightarrow> row \<in> set (tbl_update p f t)"
  by (force simp: tbl_update_def)

lemma key_on_update:
  assumes "key_on db j" and "\<And>row. kr_id (f row) = kr_id row" and "\<And>row. kr_enabled (f row) = kr_enabled row"
  shows "key_on (db\<lparr>access_keys_t := tbl_update p f (access_keys_t db)\<rparr>) j"
proof -
  from assms(1) obtain row where "row \<in> set (access_keys_t db)" "kr_id row = j" "kr_enabled row = 1" by (auto simp: key_on_def)
  with assms(2,3) show ?thesis
    unfolding key_on_def by (intro bexI [of _ "if p row then f row else row"]) (auto simp: tbl_update_def)
qed

lemma safe_persistI:
  assumes "\<And>w w' closed q. persist w = (w', Some None) \<Longrightarrow> \<not> matches q \<Longrightarrow> request_ok closed (w_db w) q \<Longrightarrow> request_ok closed (w_db w') q"
    and "\<And>w w' r. persist w = (w', r) \<Longrightarrow> r \<noteq> Some None \<Longrightarrow> traffics env (w_db w) (w_db w')"
  shows "safe_persist env persist matches"
  using assms unfolding safe_persist_def by (metis (no_types, lifting))

lemma on_db_safe:
  assumes "\<And>db db' closed q. f db = (db', None) \<Longrightarrow> \<not> matches q \<Longrightarrow> request_ok closed db q \<Longrightarrow> request_ok closed db' q"
    and "\<And>db db' err. f db = (db', Some err) \<Longrightarrow> db' = db"
  shows "safe_persist env (on_db f) matches"
proof (rule safe_persistI)
  fix w w' closed and q :: requestState
  assume "on_db f w = (w', Some None)" "\<not> matches q" "request_ok closed (w_db w) q"
  with assms(1) show "request_ok closed (w_db w') q" by (auto simp: on_db_def split: prod.splits)
next
  fix w w' r assume "on_db f w = (w', r)" "r \<noteq> Some None"
  then obtain db err where "f (w_db w) = (db, Some err)" "w_db w' = db" by (cases "snd (f (w_db w))") (auto simp: on_db_def split: prod.splits)
  with assms(2) have "w_db w' = w_db w" by blast
  then show "traffics env (w_db w) (w_db w')" by simp
qed

lemma told_safe:
  assumes "\<And>w w' closed q. f w = (w', None) \<Longrightarrow> \<not> matches q \<Longrightarrow> request_ok closed (w_db w) q \<Longrightarrow> request_ok closed (w_db w') q"
    and "\<And>w w' err. f w = (w', Some err) \<Longrightarrow> traffics env (w_db w) (w_db w')"
  shows "safe_persist env (\<lambda>w. let (w, r) = f w in (w, Some r)) matches"
proof (rule safe_persistI)
  fix w w' closed and q :: requestState
  assume "(let (w, r) = f w in (w, Some r)) = (w', Some None)" "\<not> matches q" "request_ok closed (w_db w) q"
  with assms(1) show "request_ok closed (w_db w') q" by (auto split: prod.splits)
next
  fix w w' r assume "(let (w, r) = f w in (w, Some r)) = (w', r)" "r \<noteq> Some None"
  with assms(2) [of w w'] show "traffics env (w_db w) (w_db w')" by (cases "snd (f w)") (auto split: prod.splits)
qed

lemma revoke_persist: "safe_persist env (on_db (\<lambda>db. RevokeAccessKey io db i)) (\<lambda>r. re_keyID r = i)"
proof (rule on_db_safe)
  fix db db' closed and q :: requestState
  assume run: "RevokeAccessKey io db i = (db', None)" and q: "re_keyID q \<noteq> i" "request_ok closed db q"
  have "key_on db j \<longrightarrow> key_on db' j" "account_on db k \<longrightarrow> account_on db' k" if "j \<noteq> i" for j k
    using RevokeAccessKey_tables [OF run] that
    by (auto simp: key_on_def account_on_def) (metis (mono_tags, lifting) tbl_update_mem)
  with q show "request_ok closed db' q" by (auto simp: request_ok_def)
next
  fix db db' err assume "RevokeAccessKey io db i = (db', Some err)"
  from RevokeAccessKey_tables [OF this] show "db' = db" by auto
qed

lemma limit_persist: "safe_persist env (on_db (\<lambda>db. UpdateAccessKeyConcurrency io db i n)) (\<lambda>_. False)"
proof (rule on_db_safe)
  fix db db' closed and q :: requestState
  assume run: "UpdateAccessKeyConcurrency io db i n = (db', None)" and q: "request_ok closed db q"
  have "key_on db j \<longrightarrow> key_on db' j" "account_on db k \<longrightarrow> account_on db' k" for j k
    using UpdateAccessKeyConcurrency_tables [OF run] by (auto simp: account_on_def intro!: key_on_update)
  with q show "request_ok closed db' q" by (auto simp: request_ok_def)
next
  fix db db' err assume "UpdateAccessKeyConcurrency io db i n = (db', Some err)"
  from UpdateAccessKeyConcurrency_tables [OF this] show "db' = db" by auto
qed

text \<open>Disabling and deleting an account, with background statements before the manager is told.\<close>

definition quiet_world :: "StoreEnv \<Rightarrow> (World \<Rightarrow> World) \<Rightarrow> bool" where
  "quiet_world env f \<longleftrightarrow> (\<forall>w. traffics env (w_db w) (w_db (f w)))"

lemma request_ok_account:
  assumes "request_ok closed db q" and "re_accountID q \<noteq> i"
    and "\<And>j. key_on db j \<Longrightarrow> key_on db' j" and "\<And>j. j \<noteq> i \<Longrightarrow> account_on db j \<Longrightarrow> account_on db' j"
  shows "request_ok closed db' q"
  using assms by (auto simp: request_ok_def)

lemma disable_db:
  assumes "DisableAccount io db i = (db', r)"
  shows "key_on db' j \<longleftrightarrow> key_on db j" and "k \<noteq> i \<Longrightarrow> account_on db k \<Longrightarrow> account_on db' k" and "r \<noteq> None \<Longrightarrow> db' = db"
  using DisableAccount_tables [OF assms]
  by (auto simp: key_on_def account_on_def) (metis (mono_tags, lifting) tbl_update_mem)

lemma delete_db:
  assumes "DeleteAccount io db i = (db', r)"
  shows "key_on db' j \<longleftrightarrow> key_on db j" and "k \<noteq> i \<Longrightarrow> account_on db k \<Longrightarrow> account_on db' k" and "r \<noteq> None \<Longrightarrow> db' = db"
  using DeleteAccount_tables [OF assms] by (auto simp: key_on_def account_on_def tbl_delete_def)

lemma disable_persist:
  assumes "quiet_world env others"
  shows "safe_persist env (\<lambda>w. let (w, r) = Manager_Disable io others w i in (w, Some r)) (\<lambda>r. re_accountID r = i)"
proof -
  have err: "traffics env (w_db w) (w_db w')" if "Manager_Disable io others w i = (w', Some e)" for w w' e
    using that disable_db(3) [of io "w_db w" i] by (auto simp: Manager_Disable_def Let_def split: prod.splits option.splits)
  have ok: "request_ok closed (w_db w') q"
    if run: "Manager_Disable io others w i = (w', None)" and q: "request_ok closed (w_db w) q" "re_accountID q \<noteq> i" for w w' closed q
  proof -
    from run obtain db where d: "DisableAccount io (w_db w) i = (db, None)" and w': "w_db w' = w_db (others (w\<lparr>w_db := db\<rparr>))"
      by (auto simp: Manager_Disable_def Let_def split: prod.splits option.splits)
    have "traffics env db (w_db w')" using assms unfolding quiet_world_def w' by (metis World.select_convs(2) World.surjective World.update_convs(2))
    from traffics_keep [OF this] disable_db [OF d] q show ?thesis by (intro request_ok_account [OF q]) auto
  qed
  show ?thesis by (rule told_safe) (use err ok in blast)+
qed

lemma delete_persist:
  assumes "quiet_world env others"
  shows "safe_persist env (\<lambda>w. let (w, r) = Manager_Delete io others w i in (w, Some r)) (\<lambda>r. re_accountID r = i)"
proof -
  have err: "traffics env (w_db w) (w_db w')" if "Manager_Delete io others w i = (w', Some e)" for w w' e
    using that delete_db(3) [of io "w_db w" i] by (auto simp: Manager_Delete_def Let_def split: prod.splits option.splits)
  have ok: "request_ok closed (w_db w') q"
    if run: "Manager_Delete io others w i = (w', None)" and q: "request_ok closed (w_db w) q" "re_accountID q \<noteq> i" for w w' closed q
  proof -
    from run obtain db where d: "DeleteAccount io (w_db w) i = (db, None)" and w': "w_db w' = w_db (others (w\<lparr>w_db := db\<rparr>))"
      by (auto simp: Manager_Delete_def Let_def split: prod.splits option.splits)
    have "traffics env db (w_db w')" using assms unfolding quiet_world_def w' by (metis World.select_convs(2) World.surjective World.update_convs(2))
    from traffics_keep [OF this] delete_db [OF d] q show ?thesis by (intro request_ok_account [OF q]) auto
  qed
  show ?thesis by (rule told_safe) (use err ok in blast)+
qed

definition quiet_turn :: "StoreEnv \<Rightarrow> enable_turn \<Rightarrow> bool" where
  "quiet_turn env t \<longleftrightarrow> (\<forall>db. traffics env db (et_others t db))"

lemma enable_traffics:
  "EnableAccount env turns db i = (db', r) \<Longrightarrow> (\<And>t. t \<in> set turns \<Longrightarrow> quiet_turn env t) \<Longrightarrow> traffics env db db'"
proof (induction env turns db i arbitrary: db' r rule: EnableAccount.induct)
  case (2 env t ts db i)
  obtain db1 r1 where once: "enable_once env t db i = (db1, r1)" by (cases "enable_once env t db i")
  from "2.prems"(2) have q: "traffics env db (et_others t db)" by (simp add: quiet_turn_def)
  have "db1 = et_others t db \<or> (\<exists>revn enc n. enable_write (et_others t db) i revn enc = (db1, n))"
    using once by (auto simp: enable_once_def Let_def split: sum.splits if_splits option.splits prod.splits)
  with q have b1: "traffics env db db1" by (auto intro: rtranclp.rtrancl_into_rtrancl dest: traffic.bg_enable)
  show ?case
  proof (cases r1)
    case None
    with "2.prems"(1) once have rest: "EnableAccount env ts db1 i = (db', r)" by simp
    have "traffics env db1 db'" by (rule "2.IH" [OF once [symmetric] None rest]) (use "2.prems"(2) in simp)
    with b1 show ?thesis by (rule rtranclp_trans)
  next
    case (Some x)
    with "2.prems"(1) once b1 show ?thesis by simp
  qed
qed simp

lemma enable_persist:
  assumes "\<And>t. t \<in> set turns \<Longrightarrow> quiet_turn env t"
  shows "safe_persist env (\<lambda>w. Manager_Enable env turns w i) (\<lambda>_. False)"
proof -
  have "traffics env (w_db w) (w_db w')" if "Manager_Enable env turns w i = (w', r)" for w w' r
    using that enable_traffics [of env turns "w_db w" i] assms by (auto simp: Manager_Enable_def split: prod.splits)
  then show ?thesis by (intro safe_persistI) (blast intro: request_ok_db dest: traffics_keep)+
qed

end
