(* ===== verification/ExecutionSafety.thy ===== *)
theory ExecutionSafety
  imports ExecutionLaws
begin

text \<open>
  The executor as a step relation: every operation of \<open>internal/execution\<close> that changes shared state
  is a step, in any interleaving, with the store statements of the other components between them.
  From it: limits are respected, running requests are authorized, and revocation is complete.
\<close>

section \<open>Steps\<close>

inductive exec_step :: "StoreEnv \<Rightarrow> Executor \<Rightarrow> Executor \<Rightarrow> bool" for env where
  es_admit: "admit sha io ctx1 ctx2 now key info model e = (e', res) \<Longrightarrow> exec_step env e e'"
| es_register: "registerAccount env io r c e = (e', err) \<Longrightarrow> exec_step env e e'"
| es_select: "selectAccount clock model cs tried e = (e', sel) \<Longrightarrow> exec_step env e e'"
| es_attempt: "exec_step env e (upd_request r (\<lambda>q. q\<lparr>re_lastAttempt := i\<rparr>) e)"
| es_note: "exec_step env e (noteFailure now r i err e)"
| es_started: "exec_step env e (upd_request r (\<lambda>q. q\<lparr>re_responseStarted := True\<rparr>) e)"
| es_cancel: "exec_step env e (upd_request r (cancel_request c) e)"
| es_release: "r \<in> set (ex_active e) \<Longrightarrow> exec_step env e (finish_release r e)"
| es_world: "traffics env (ex_db e) (w_db w) \<Longrightarrow> exec_step env e (e\<lparr>ex_world := w\<rparr>)"
| es_catalog: "exec_step env e (e\<lparr>ex_catalog := c\<rparr>)"
| es_sync: "syncCatalog env io ctx e = (e', err) \<Longrightarrow> exec_step env e e'"
| es_revoke: "RevokeKey env io i e = (e', res) \<Longrightarrow> exec_step env e e'"
| es_limit: "SetConcurrency env io i n e = (e', res) \<Longrightarrow> exec_step env e e'"
| es_disable: "Executor_DisableAccount env io1 others io2 ctx i e = (e', res) \<Longrightarrow> quiet_world env others \<Longrightarrow> exec_step env e e'"
| es_enable: "Executor_EnableAccount env turns io ctx i e = (e', res) \<Longrightarrow> (\<And>t. t \<in> set turns \<Longrightarrow> quiet_turn env t) \<Longrightarrow> exec_step env e e'"
| es_delete: "Executor_DeleteAccount env io1 others io2 ctx i e = (e', res) \<Longrightarrow> quiet_world env others \<Longrightarrow> exec_step env e e'"
| es_close: "Executor_Close e = (e', waits) \<Longrightarrow> exec_step env e e'"

abbreviation exec_steps :: "StoreEnv \<Rightarrow> Executor \<Rightarrow> Executor \<Rightarrow> bool" where
  "exec_steps env \<equiv> (exec_step env)\<^sup>*\<^sup>*"

definition start_exec :: "Executor \<Rightarrow> bool" where
  "start_exec e \<longleftrightarrow> (\<exists>w. e = New_Executor w)"

lemma exec_inv_start: "start_exec e \<Longrightarrow> exec_inv e"
  by (auto simp: start_exec_def New_Executor_def exec_inv_def holders_def accounted_def limiter_inv_New held_New)

lemma close_inv:
  assumes inv: "exec_inv e" and "Executor_Close e = (e', waits)"
  shows "exec_inv e'"
proof (rule exec_inv_frame [OF inv])
  have e': "e' = (cancel_all (ex_active e) (e\<lparr>ex_closed := True\<rparr>))\<lparr>ex_catalog := Catalog_Close (ex_catalog e)\<rparr>"
    using assms(2) by (auto simp: Executor_Close_def Let_def cancel_all_def)
  fix r assume r: "r \<in> set (ex_active e)" and ok: "request_ok (ex_closed e) (ex_db e) (ex_requests e ! r)"
  from exec_invD(2) [OF inv r] r ok show "request_ok (ex_closed e') (ex_db e') (ex_requests e' ! r)"
    by (simp add: e' cancel_all_nth cancel_request_ok)
qed (use assms(2) in \<open>auto simp: Executor_Close_def Let_def cancel_all_nth\<close>)

lemma exec_step_inv: "exec_step env e e' \<Longrightarrow> exec_inv e \<Longrightarrow> exec_inv e'"
proof (induction rule: exec_step.induct)
  case (es_admit sha io ctx1 ctx2 now key info model e e' res)
  then show ?case by (cases res) (auto intro: admit_inv dest: admit_Inl)
next
  case (es_attempt e r i)
  then show ?case by (rule exec_inv_upd_request) (auto simp: request_ok_def)
next
  case (es_started e r)
  then show ?case by (rule exec_inv_upd_request) (auto simp: request_ok_def)
next
  case (es_cancel e r c)
  then show ?case by (rule exec_inv_upd_request) (auto intro: cancel_request_ok)
next
  case (es_note e now r i err)
  then show ?case by (rule exec_inv_same) (simp_all add: noteFailure_frame)
next
  case (es_catalog e c)
  then show ?case by (rule exec_inv_same) simp_all
next
  case (es_select clock model cs tried e e' sel)
  from es_select(2) show ?case by (rule exec_inv_same) (fact selectAccount_frame [OF es_select(1)])+
next
  case (es_revoke io i e e' res)
  from change_inv [OF es_revoke(2) revoke_persist es_revoke(1) [unfolded RevokeKey_def]] show ?case .
next
  case (es_limit io i n e e' res)
  from change_inv [OF es_limit(2) limit_persist es_limit(1) [unfolded SetConcurrency_def]] show ?case .
next
  case (es_disable io1 others io2 ctx i e e' res)
  from change_inv [OF es_disable(3) disable_persist [OF es_disable(2)] es_disable(1) [unfolded Executor_DisableAccount_def]] show ?case .
next
  case (es_enable turns io ctx i e e' res)
  from change_inv [OF es_enable(3) enable_persist [OF es_enable(2)] es_enable(1) [unfolded Executor_EnableAccount_def]] show ?case .
next
  case (es_delete io1 others io2 ctx i e e' res)
  from change_inv [OF es_delete(3) delete_persist [OF es_delete(2)] es_delete(1) [unfolded Executor_DeleteAccount_def]] show ?case .
qed (auto intro: registerAccount_inv finish_release_inv exec_inv_world syncCatalog_inv close_inv)

interpretation exec_sys: invariant_system start_exec "exec_step env" exec_inv for env
  by unfold_locales (auto intro: exec_inv_start exec_step_inv)

section \<open>Who is admitted\<close>

definition active_of :: "Executor \<Rightarrow> string \<Rightarrow> nat" where
  "active_of e k = length (filter (\<lambda>r. re_keyID (ex_requests e ! r) = k) (ex_active e))"

lemma active_of_held: "exec_inv e \<Longrightarrow> active_of e k = held (ex_limiter e) k"
  using exec_invD(5) [of e] by (simp add: accounted_def active_of_def holders_def filter_map comp_def)

text \<open>
  C1. In any reachable state, when \<open>admit\<close> accepts a request, the presented key is a stored, enabled
  key, the number of active requests of that key has grown by exactly one, and it does not exceed
  the key's stored limit unless that is \<open>Unlimited\<close>.
\<close>

theorem admission_bounded:
  assumes "reachable start_exec (exec_step env) e"
    and "admit sha io ctx1 ctx2 now rawKey info model e = (e', Inr r)"
  shows "\<exists>row \<in> set (access_keys_t (ex_db e)).
     Hash sha rawKey = Some (kr_hash row) \<and> kr_enabled row = 1 \<and> kr_id row = re_keyID (ex_requests e' ! r) \<and>
     active_of e' (kr_id row) = active_of e (kr_id row) + 1 \<and>
     (kr_limit row \<noteq> Unlimited \<longrightarrow> int (active_of e' (kr_id row)) \<le> kr_limit row)"
proof -
  have inv: "exec_inv e" by (rule exec_sys.inv_reachable [OF assms(1)])
  have inv': "exec_inv e'" by (rule admit_inv [OF inv assms(2)])
  from assms(2) show ?thesis
  proof (rule admit_Inr)
    fix rec :: AccessKeyRecord and l slot and q :: requestState
    let ?k = "ki_ID (ak_identity (akr_Key rec))"
    assume auth: "authenticate sha io ctx1 (ex_db e) rawKey = Inr rec" and r: "r = length (ex_requests e)"
      and acq: "TryAcquire (ex_limiter e) ?k (akr_ConcurrencyLimit rec) = (l, Inr slot)"
      and e': "e' = e\<lparr>ex_limiter := l, ex_requests := ex_requests e @ [q], ex_active := ex_active e @ [length (ex_requests e)]\<rparr>"
      and q: "re_keyID q = ?k"
    from authenticate_Inr [OF auth] obtain row where row: "row \<in> set (access_keys_t (ex_db e))" "kr_id row = ?k"
      "kr_limit row = akr_ConcurrencyLimit rec" "kr_enabled row = 1" "Hash sha rawKey = Some (kr_hash row)" by blast
    have held': "held (ex_limiter e') ?k = held (ex_limiter e) ?k + 1" using lim.acquire_holds [OF acq, of ?k] by (simp add: e')
    moreover have "int (held (ex_limiter e) ?k) < kr_limit row" if "kr_limit row \<noteq> Unlimited"
      using acq that exec_invD(4) [OF inv] by (auto simp: TryAcquire_def row(3) active_count_held split: if_splits)
    moreover have "re_keyID (ex_requests e' ! r) = ?k" using r q by (simp add: e')
    ultimately show ?thesis
      using row active_of_held [OF inv] active_of_held [OF inv'] by (intro bexI [OF _ row(1)]) auto
  qed
qed

section \<open>Who may go on\<close>

text \<open>
  C2. In any reachable state, an active request that has not been canceled belongs to an enabled
  access key; if it registered an account, that account is stored and enabled; and the executor is
  not closed. So no interleaving of management with attempts leaves a revoked key, a disabled or a
  deleted account in use.
\<close>

theorem active_requests_authorized:
  assumes "reachable start_exec (exec_step env) e" and "r \<in> set (ex_active e)" and "re_ctx (ex_requests e ! r) = None"
  shows "\<not> ex_closed e \<and> key_on (ex_db e) (re_keyID (ex_requests e ! r)) \<and>
    (re_accountID (ex_requests e ! r) \<noteq> [] \<longrightarrow> account_on (ex_db e) (re_accountID (ex_requests e ! r)))"
  using exec_invD(3) [OF exec_sys.inv_reachable [OF assms(1)] assms(2)] assms(3) by (simp add: request_ok_def)

section \<open>Revocation\<close>

lemma key_off_update:
  assumes "key_off db j" and "\<And>row. kr_id (f row) = kr_id row" and "\<And>row. kr_enabled row \<noteq> 1 \<Longrightarrow> kr_enabled (f row) \<noteq> 1"
  shows "key_off (db\<lparr>access_keys_t := tbl_update p f (access_keys_t db)\<rparr>) j"
proof -
  have "map kr_id (tbl_update p f (access_keys_t db)) = map kr_id (access_keys_t db)" by (simp add: tbl_update_def assms(2))
  from arg_cong [OF this, of set] have "kr_id ` set (tbl_update p f (access_keys_t db)) = kr_id ` set (access_keys_t db)" by simp
  moreover have "kr_id row \<noteq> j \<or> kr_enabled row \<noteq> 1" if "row \<in> set (tbl_update p f (access_keys_t db))" for row
    using that assms by (fastforce simp: key_off_def key_on_def tbl_update_def split: if_splits)
  ultimately show ?thesis using assms(1) by (auto simp: key_off_def key_on_def)
qed

definition keeps_off :: "(World \<Rightarrow> World \<times> error option option) \<Rightarrow> bool" where
  "keeps_off persist \<longleftrightarrow> (\<forall>w w' r j. persist w = (w', r) \<longrightarrow> key_off (w_db w) j \<longrightarrow> key_off (w_db w') j)"

lemma revoke_keeps_off: "keeps_off (on_db (\<lambda>db. RevokeAccessKey io db i))"
  unfolding keeps_off_def on_db_def by (auto dest!: RevokeAccessKey_tables intro: key_off_update split: prod.splits)

lemma limit_keeps_off: "keeps_off (on_db (\<lambda>db. UpdateAccessKeyConcurrency io db i n))"
  unfolding keeps_off_def on_db_def by (auto dest!: UpdateAccessKeyConcurrency_tables intro: key_off_update split: prod.splits)

lemma quiet_keeps_off: "quiet_world env others \<Longrightarrow> key_off (w_db w) j \<Longrightarrow> key_off (w_db (others w)) j"
  by (auto simp: quiet_world_def dest: traffics_keep(2))

lemma disable_keeps_off:
  assumes "quiet_world env others"
  shows "keeps_off (\<lambda>w. let (w, r) = Manager_Disable io others w i in (w, Some r))"
  unfolding keeps_off_def
  by (auto simp: Manager_Disable_def Let_def split: prod.splits option.splits dest!: DisableAccount_tables
      intro!: quiet_keeps_off [OF assms]) (auto simp: key_off_def key_on_def)

lemma delete_keeps_off:
  assumes "quiet_world env others"
  shows "keeps_off (\<lambda>w. let (w, r) = Manager_Delete io others w i in (w, Some r))"
  unfolding keeps_off_def
  by (auto simp: Manager_Delete_def Let_def split: prod.splits option.splits dest!: DeleteAccount_tables
      intro!: quiet_keeps_off [OF assms]) (auto simp: key_off_def key_on_def)

lemma enable_keeps_off:
  assumes "\<And>t. t \<in> set turns \<Longrightarrow> quiet_turn env t"
  shows "keeps_off (\<lambda>w. Manager_Enable env turns w i)"
  unfolding keeps_off_def
  by (auto simp: Manager_Enable_def split: prod.splits dest!: enable_traffics [OF _ assms] dest: traffics_keep(2))

text \<open>
  What a step can do to the active requests: it keeps revoked keys revoked, and a request that is
  active afterwards was active before under the same key, or has just been admitted on an enabled one.
\<close>

definition keys_kept :: "Executor \<Rightarrow> Executor \<Rightarrow> bool" where
  "keys_kept e e' \<longleftrightarrow> (\<forall>j. key_off (ex_db e) j \<longrightarrow> key_off (ex_db e') j) \<and>
     (\<forall>r. r \<in> set (ex_active e') \<longrightarrow>
        r \<in> set (ex_active e) \<and> re_keyID (ex_requests e' ! r) = re_keyID (ex_requests e ! r) \<or> key_on (ex_db e') (re_keyID (ex_requests e' ! r)))"

lemma keys_kept_same:
  assumes "ex_active e' = ex_active e" and "\<And>r. r \<in> set (ex_active e) \<Longrightarrow> re_keyID (ex_requests e' ! r) = re_keyID (ex_requests e ! r)"
    and "\<And>j. key_off (ex_db e) j \<Longrightarrow> key_off (ex_db e') j"
  shows "keys_kept e e'"
  using assms by (auto simp: keys_kept_def)

lemma keys_kept_upd: "(\<And>q. re_keyID (f q) = re_keyID q) \<Longrightarrow> keys_kept e (upd_request r f e)"
  by (rule keys_kept_same) (auto simp: upd_request_def nth_update_if)

lemma change_keys:
  assumes inv: "exec_inv e" and keep: "keeps_off persist" and ch: "change env io ctx persist matches accounts e = (e', res)"
  shows "keys_kept e e'"
proof (cases "ex_closed e")
  case True
  with ch show ?thesis by (auto simp: change_def intro: keys_kept_same)
next
  case False
  obtain w r where p: "persist (ex_world e) = (w, r)" by (cases "persist (ex_world e)")
  with keep have w: "key_off (ex_db e) j \<Longrightarrow> key_off (w_db w) j" for j by (auto simp: keeps_off_def)
  let ?c = "cancel_all (filter (\<lambda>r. matches (ex_requests e ! r)) (ex_active e)) (e\<lparr>ex_world := w\<rparr>)"
  have "ex_active e' = ex_active e \<and> ex_world e' = w \<and> (ex_requests e' = ex_requests e \<or> ex_requests e' = ex_requests ?c)"
    using ch False p
    by (auto simp: change_def Let_def split: option.splits prod.splits if_splits dest: syncCatalog_frame)
  moreover have "re_keyID (ex_requests ?c ! r) = re_keyID (ex_requests e ! r)" if "r \<in> set (ex_active e)" for r
    using exec_invD(2) [OF inv that] by (simp add: cancel_all_nth)
  ultimately show ?thesis using w by (intro keys_kept_same) auto
qed

lemma exec_step_keys: "exec_step env e e' \<Longrightarrow> exec_inv e \<Longrightarrow> keys_kept e e'"
proof (induction rule: exec_step.induct)
  case (es_admit sha io ctx1 ctx2 now key info model e e' res)
  show ?case
  proof (cases res)
    case (Inl err)
    with es_admit(1) have "e' = e" by (blast dest: admit_Inl)
    then show ?thesis by (simp add: keys_kept_same)
  next
    case (Inr r)
    from es_admit(1) [unfolded Inr] show ?thesis
    proof (rule admit_Inr)
      fix rec :: AccessKeyRecord and l slot and q :: requestState
      assume "authenticate sha io ctx1 (ex_db e) key = Inr rec" and q: "re_keyID q = ki_ID (ak_identity (akr_Key rec))"
        and e': "e' = e\<lparr>ex_limiter := l, ex_requests := ex_requests e @ [q], ex_active := ex_active e @ [length (ex_requests e)]\<rparr>"
      with authenticate_Inr have "key_on (ex_db e) (re_keyID q)" by metis
      then show ?thesis using exec_invD(2) [OF es_admit(2)] by (auto simp: keys_kept_def e' nth_append)
    qed
  qed
next
  case (es_register io r c e e' err)
  then have "e' = e \<or> (\<exists>i. e' = upd_request r (\<lambda>q. q\<lparr>re_accountID := i\<rparr>) e)"
    by (auto simp: registerAccount_def split: sum.splits if_splits option.splits)
  then show ?case by (auto intro: keys_kept_upd keys_kept_same)
next
  case (es_release r e)
  then show ?case
    using exec_invD(2) [OF es_release(2)] by (auto simp: keys_kept_def finish_release_def Let_def upd_request_def nth_update_if)
next
  case (es_world e w)
  then show ?case by (auto intro!: keys_kept_same dest: traffics_keep(2))
next
  case (es_revoke io i e e' res)
  show ?case by (rule change_keys [OF es_revoke(2) revoke_keeps_off es_revoke(1) [unfolded RevokeKey_def]])
next
  case (es_limit io i n e e' res)
  show ?case by (rule change_keys [OF es_limit(2) limit_keeps_off es_limit(1) [unfolded SetConcurrency_def]])
next
  case (es_disable io1 others io2 ctx i e e' res)
  show ?case by (rule change_keys [OF es_disable(3) disable_keeps_off [OF es_disable(2)] es_disable(1) [unfolded Executor_DisableAccount_def]])
next
  case (es_enable turns io ctx i e e' res)
  show ?case by (rule change_keys [OF es_enable(3) enable_keeps_off [OF es_enable(2)] es_enable(1) [unfolded Executor_EnableAccount_def]])
next
  case (es_delete io1 others io2 ctx i e e' res)
  show ?case by (rule change_keys [OF es_delete(3) delete_keeps_off [OF es_delete(2)] es_delete(1) [unfolded Executor_DeleteAccount_def]])
next
  case (es_close e e' waits)
  then show ?case using exec_invD(2) [OF es_close(2)] by (auto simp: Executor_Close_def Let_def cancel_all_nth intro!: keys_kept_same)
next
  case (es_select clock model cs tried e e' sel)
  from selectAccount_frame [OF es_select(1)] show ?case by (intro keys_kept_same) simp_all
next
  case (es_sync io ctx e e' err)
  from syncCatalog_frame [OF es_sync(1)] show ?case by (intro keys_kept_same) simp_all
qed (auto intro!: keys_kept_upd intro: keys_kept_same simp: noteFailure_frame)

text \<open>From a successful revocation on: the key stays off and its active requests are among those canceled.\<close>

definition revoked :: "string \<Rightarrow> nat list \<Rightarrow> Executor \<Rightarrow> bool" where
  "revoked i waits e \<longleftrightarrow> exec_inv e \<and> key_off (ex_db e) i \<and>
     (\<forall>r. r \<in> set (ex_active e) \<longrightarrow> re_keyID (ex_requests e ! r) = i \<longrightarrow> r \<in> set waits)"

lemma revoked_step: "revoked i waits e \<Longrightarrow> exec_step env e e' \<Longrightarrow> revoked i waits e'"
  using exec_step_keys [of env e e'] exec_step_inv [of env e e'] unfolding revoked_def keys_kept_def by (metis key_off_def)

interpretation revoking: invariant_system "revoked i waits" "exec_step env" "revoked i waits" for i waits env
  by unfold_locales (auto intro: revoked_step)

lemma RevokeAccessKey_off:
  assumes "RevokeAccessKey io db i = (db', None)"
  shows "key_off db' i"
proof -
  let ?f = "\<lambda>row :: key_row. if kr_id row = i then row\<lparr>kr_enabled := 0\<rparr> else row"
  from RevokeAccessKey_tables [OF assms] obtain row where "tbl_lookup kr_id i (access_keys_t db) = Some row"
    and t: "access_keys_t db' = map ?f (access_keys_t db)" by (auto simp: tbl_update_def)
  then have row: "row \<in> set (access_keys_t db)" "kr_id row = i" by (auto dest: tbl_lookup_Some)
  have "i = kr_id (?f row)" "?f row \<in> set (map ?f (access_keys_t db))" using row by auto
  then have "i \<in> kr_id ` set (access_keys_t db')" unfolding t by (rule image_eqI)
  moreover have "kr_enabled (?f x) \<noteq> 1" if "kr_id (?f x) = i" for x using that by (cases "kr_id x = i") simp_all
  then have "\<not> key_on db' i" unfolding key_on_def t set_map by blast
  ultimately show ?thesis by (simp add: key_off_def)
qed

lemma RevokeKey_revoked:
  assumes inv: "exec_inv e" and run: "RevokeKey env io i e = (e1, Some (None, waits))"
  shows "revoked i waits e1"
proof -
  from run obtain db where db: "RevokeAccessKey io (ex_db e) i = (db, None)" and e1: "ex_db e1 = db" "ex_active e1 = ex_active e"
    and waits: "waits = filter (\<lambda>r. re_keyID (ex_requests e ! r) = i) (ex_active e)"
    and reqs: "ex_requests e1 = ex_requests (cancel_all waits e)"
    by (auto simp: RevokeKey_def change_def on_db_def Let_def cancel_all_def split: if_splits prod.splits option.splits)
  have "key_off db i" by (rule RevokeAccessKey_off [OF db])
  moreover have "exec_inv e1" by (rule exec_step_inv [OF exec_step.es_revoke [OF run] inv])
  moreover have "r \<in> set waits" if "r \<in> set (ex_active e)" "re_keyID (ex_requests e1 ! r) = i" for r
    using that exec_invD(2) [OF inv that(1)] unfolding reqs by (simp add: cancel_all_nth waits split: if_splits)
  ultimately show ?thesis by (simp add: revoked_def e1)
qed

text \<open>
  C3. Once \<open>RevokeKey\<close> has persisted a revocation, then after any further steps every request of that
  key still active is one that the revocation canceled and waits for, no request is admitted on the
  key, and when the wait returns without its context having ended, no request of the key is active.
\<close>

theorem revoke_complete:
  assumes "reachable start_exec (exec_step env) e" and "RevokeKey env io i e = (e1, Some (None, waits))" and "exec_steps env e1 e2"
  shows "(\<forall>r. r \<in> set (ex_active e2) \<and> re_keyID (ex_requests e2 ! r) = i \<longrightarrow> r \<in> set waits \<and> re_ctx (ex_requests e2 ! r) \<noteq> None) \<and>
    (\<forall>sha io' ctx1 ctx2 now rawKey info model e3 r.
       admit sha io' ctx1 ctx2 now rawKey info model e2 = (e3, Inr r) \<longrightarrow> re_keyID (ex_requests e3 ! r) \<noteq> i) \<and>
    (\<forall>res. change_wait None (None, waits) e2 = Some res \<longrightarrow> res = None \<and> active_of e2 i = 0)"
proof (intro conjI allI impI)
  have rev2: "revoked i waits e2"
    by (rule revoking.inv_steps [OF assms(3) RevokeKey_revoked [OF exec_sys.inv_reachable [OF assms(1)] assms(2)]])
  then have inv: "exec_inv e2" and off: "key_off (ex_db e2) i"
    and sub: "\<And>r. r \<in> set (ex_active e2) \<Longrightarrow> re_keyID (ex_requests e2 ! r) = i \<Longrightarrow> r \<in> set waits" by (auto simp: revoked_def)
  {
    fix r assume r: "r \<in> set (ex_active e2) \<and> re_keyID (ex_requests e2 ! r) = i"
    with sub show "r \<in> set waits" by blast
    from exec_invD(3) [OF inv, of r] r off show "re_ctx (ex_requests e2 ! r) \<noteq> None" by (auto simp: request_ok_def key_off_def)
  next
    fix sha io' ctx1 ctx2 now rawKey info model e3 r
    assume "admit sha io' ctx1 ctx2 now rawKey info model e2 = (e3, Inr r)"
    then show "re_keyID (ex_requests e3 ! r) \<noteq> i"
      by (rule admit_Inr) (use off authenticate_Inr in \<open>fastforce simp: key_off_def\<close>)
  next
    fix res assume "change_wait None (None, waits) e2 = Some res"
    then have waited: "\<And>r. r \<in> set waits \<Longrightarrow> re_done (ex_requests e2 ! r)" and "res = None"
      by (auto simp: change_wait_def list_all_iff split: if_splits)
    then show "res = None" by simp
    have "r \<notin> set (ex_active e2)" if "re_keyID (ex_requests e2 ! r) = i" for r
      using exec_invD(3) [OF inv, of r] sub [of r] waited [of r] that by (auto simp: request_ok_def)
    then show "active_of e2 i = 0" by (auto simp: active_of_def filter_empty_conv)
  }
qed

section \<open>A concrete executor\<close>

definition shop_world :: World where
  "shop_world = \<lparr>w_mgr = NewManager, w_db = fst (CreateAccount toy_env toy_nonce None toy_key_db toy_account True)\<rparr>"

definition shop_key :: string where "shop_key = keyPrefix @ replicate 43 CHR ''A''"

definition shop_admit :: "Executor \<times> nat result" where
  "shop_admit = admit (\<lambda>_. toy_hash) None None None 5 shop_key \<lparr>ri_ID = ''req_1'', ri_Started = 5\<rparr> ''m'' (New_Executor shop_world)"

definition shop_candidate :: candidate where "shop_candidate = \<lparr>ca_id = ''a1'', ca_identity = ''w''\<rparr>"

definition shop_registered :: "Executor \<times> error option" where
  "shop_registered = registerAccount toy_env None 0 shop_candidate (fst shop_admit)"

definition shop_revoked :: "Executor \<times> (error option \<times> nat list) option" where
  "shop_revoked = RevokeKey toy_env None ''k1'' (fst shop_registered)"

lemma shop_start: "reachable start_exec (exec_step env) (New_Executor shop_world)"
  by (rule reach_start) (auto simp: start_exec_def)

lemma shop_admit_Inr:
  "admit (\<lambda>_. toy_hash) None None None 5 shop_key \<lparr>ri_ID = ''req_1'', ri_Started = 5\<rparr> ''m'' (New_Executor shop_world) = (fst shop_admit, Inr 0)"
proof -
  have "snd shop_admit = Inr 0" by code_simp
  then have "shop_admit = (fst shop_admit, Inr 0)" by (metis prod.collapse)
  then show ?thesis by (simp only: shop_admit_def)
qed

lemma shop_revoked_run: "RevokeKey toy_env None ''k1'' (fst shop_registered) = (fst shop_revoked, Some (None, [0]))"
proof -
  have "snd shop_revoked = Some (None, [0])" by code_simp
  then have "shop_revoked = (fst shop_revoked, Some (None, [0]))" by (metis prod.collapse)
  then show ?thesis by (simp only: shop_revoked_def)
qed

lemma shop_admitted: "reachable start_exec (exec_step env) (fst shop_admit)"
  by (rule reach_step [OF shop_start exec_step.es_admit [OF shop_admit_Inr]])

lemma shop_serving: "reachable start_exec (exec_step toy_env) (fst shop_registered)"
  by (rule reach_step [OF shop_admitted]) (rule exec_step.es_register, unfold shop_registered_def, rule prod.collapse [symmetric])

theorem admission_bounded_witness:
  "\<exists>row \<in> set (access_keys_t (ex_db (New_Executor shop_world))).
     kr_id row = ''k1'' \<and> kr_limit row = 2 \<and> active_of (fst shop_admit) ''k1'' = 1"
proof -
  have "re_keyID (ex_requests (fst shop_admit) ! 0) = ''k1''" "active_of (New_Executor shop_world) ''k1'' = 0"
    "list_all (\<lambda>row. kr_id row = ''k1'' \<longrightarrow> kr_limit row = 2) (access_keys_t (ex_db (New_Executor shop_world)))"
    by code_simp+
  then show ?thesis using admission_bounded [OF shop_start shop_admit_Inr] by (auto simp: list_all_iff)
qed

theorem active_requests_authorized_witness:
  "0 \<in> set (ex_active (fst shop_registered)) \<and> re_accountID (ex_requests (fst shop_registered) ! 0) = ''a1'' \<and>
   key_on (ex_db (fst shop_registered)) ''k1'' \<and> account_on (ex_db (fst shop_registered)) ''a1''"
proof -
  have "ex_active (fst shop_registered) = [0]" "re_ctx (ex_requests (fst shop_registered) ! 0) = None"
    "re_keyID (ex_requests (fst shop_registered) ! 0) = ''k1''" "re_accountID (ex_requests (fst shop_registered) ! 0) = ''a1''"
    by code_simp+
  then show ?thesis using active_requests_authorized [OF shop_serving, of 0] by simp
qed

theorem revoke_complete_witness:
  "ex_active (fst shop_revoked) = [0] \<and> re_ctx (ex_requests (fst shop_revoked) ! 0) \<noteq> None \<and>
   active_of (finish_release 0 (fst shop_revoked)) ''k1'' = 0"
proof -
  let ?e = "fst shop_revoked"
  have act: "ex_active ?e = [0]" "re_keyID (ex_requests ?e ! 0) = ''k1''" by code_simp+
  have done_: "change_wait None (None, [0]) (finish_release 0 ?e) = Some None" by code_simp
  note revoke = revoke_complete [OF shop_serving shop_revoked_run]
  have "exec_step toy_env ?e (finish_release 0 ?e)" by (rule exec_step.es_release) (simp add: act)
  then have "active_of (finish_release 0 ?e) ''k1'' = 0"
    using revoke [OF r_into_rtranclp] done_ by blast
  moreover have "re_ctx (ex_requests ?e ! 0) \<noteq> None" using revoke [OF rtranclp.rtrancl_refl] act by simp
  ultimately show ?thesis using act by simp
qed

end
