(* ===== verification/AttemptLaws.thy ===== *)
theory AttemptLaws
  imports ExecutionSafety CatalogLaws
begin

text \<open>
  Laws of one request's attempts: which accounts are candidates, which one is selected, how often and
  after which failures another is tried, and that a request is finished once.
\<close>

section \<open>Candidates\<close>

definition serves :: "Request \<Rightarrow> AccountCatalog \<Rightarrow> bool" where
  "serves input c \<longleftrightarrow> (\<exists>m. m \<in> set (ac_Models c) \<and> m_ID m = rq_model input \<and> ValidateModel input m = None)"

abbreviation candidate_of :: "AccountCatalog \<Rightarrow> candidate" where
  "candidate_of c \<equiv> \<lparr>ca_id = ac_AccountID c, ca_identity = ac_ChatGPTAccountID c\<rparr>"

lemma model_candidates_set:
  "model_candidates input c ms verr cs = (cs', verr') \<Longrightarrow>
     set cs' = set cs \<union> (if \<exists>m \<in> set ms. m_ID m = rq_model input \<and> ValidateModel input m = None then {candidate_of c} else {})"
  by (induction ms arbitrary: verr cs) (auto split: if_splits option.splits)

lemma candidates_fold:
  "foldl (\<lambda>(cs, verr) c. model_candidates input c (ac_Models c) verr cs) (cs, verr) accounts = (cs', verr') \<Longrightarrow>
     set cs' = set cs \<union> candidate_of ` {c \<in> set accounts. serves input c}"
proof (induction accounts arbitrary: cs verr)
  case (Cons c accounts)
  obtain cs1 verr1 where m: "model_candidates input c (ac_Models c) verr cs = (cs1, verr1)" by (cases "model_candidates input c (ac_Models c) verr cs")
  with Cons.prems have "foldl (\<lambda>(cs, verr) c. model_candidates input c (ac_Models c) verr cs) (cs1, verr1) accounts = (cs', verr')" by simp
  from Cons.IH [OF this] model_candidates_set [OF m] show ?case by (auto simp: serves_def)
qed simp

lemma requestCandidates_set:
  assumes "requestCandidates s input = Inr cs"
  shows "set cs = candidate_of ` {c \<in> set (cs_Accounts s). serves input c} \<and> cs \<noteq> []"
  using assms candidates_fold [of input "[]" "ValidationError ''model''" "cs_Accounts s"]
  by (auto simp: requestCandidates_def split: prod.splits if_splits)

lemma requestCandidates_Inl:
  assumes "requestCandidates s input = Inl err"
  shows "\<not> (\<exists>c \<in> set (cs_Accounts s). serves input c)"
proof -
  obtain cs verr where f: "foldl (\<lambda>(cs, verr) c. model_candidates input c (ac_Models c) verr cs) ([], ValidationError ''model'') (cs_Accounts s) = (cs, verr)"
    by fastforce
  with assms have "cs = []" by (auto simp: requestCandidates_def split: if_splits)
  with candidates_fold [OF f] show ?thesis by auto
qed

section \<open>Selection\<close>

definition cooling :: "(string \<Rightarrow> time) \<Rightarrow> (string \<rightharpoonup> time) \<Rightarrow> string \<Rightarrow> bool" where
  "cooling clock cd i \<longleftrightarrow> clock i < (case cd i of None \<Rightarrow> 0 | Some t \<Rightarrow> t)"

lemma eligible_set:
  "eligible clock tried cs cd = (ids, cd') \<Longrightarrow> i \<in> set ids \<longleftrightarrow> i \<in> ca_id ` set cs \<and> i \<notin> tried \<and> \<not> cooling clock cd i"
proof (induction cs arbitrary: cd ids)
  case (Cons c cs)
  show ?case
  proof (cases "ca_id c \<in> tried \<or> cooling clock cd (ca_id c)")
    case True
    with Cons.prems have "eligible clock tried cs cd = (ids, cd')" by (simp add: cooling_def)
    from Cons.IH [OF this] True show ?thesis by auto
  next
    case False
    with Cons.prems obtain ids' where e: "eligible clock tried cs (cd(ca_id c := None)) = (ids', cd')" and ids: "ids = ca_id c # ids'"
      by (auto simp: cooling_def split: prod.splits)
    have "cooling clock (cd(ca_id c := None)) i = cooling clock cd i" if "i \<noteq> ca_id c" using that by (simp add: cooling_def)
    with Cons.IH [OF e] False show ?thesis unfolding ids by (cases "i = ca_id c") (simp_all add: fun_upd_def)
  qed
qed simp

lemma find_ca_id:
  assumes "c \<in> set cs"
  shows "\<exists>d. find (\<lambda>x. ca_id x = ca_id c) cs = Some d \<and> d \<in> set cs \<and> ca_id d = ca_id c"
  using assms by (induction cs) auto

lemma selectAccount_cases:
  assumes "selectAccount clock model cs tried e = (e', sel)"
  shows "case sel of
     Some c \<Rightarrow> c \<in> set cs \<and> ca_id c \<notin> tried \<and> \<not> cooling clock (ex_cooldowns e) (ca_id c)
   | None \<Rightarrow> \<forall>c. c \<in> set cs \<longrightarrow> ca_id c \<in> tried \<or> cooling clock (ex_cooldowns e) (ca_id c)"
proof -
  obtain ids cd where el: "eligible clock tried cs (ex_cooldowns e) = (ids, cd)" by (cases "eligible clock tried cs (ex_cooldowns e)")
  note ids = eligible_set [OF el]
  show ?thesis
  proof (cases "ids = []")
    case True
    with assms el have "sel = None" by (auto simp: selectAccount_def Select_def)
    with True ids show ?thesis by simp
  next
    case False
    let ?i = "next_after (positions (ex_selector e) model) (set ids)"
    from False have "?i \<in> set ids" by (intro next_after_in) simp_all
    with ids [of ?i] obtain c where c: "c \<in> set cs" "ca_id c = ?i" "?i \<notin> tried" "\<not> cooling clock (ex_cooldowns e) ?i" by auto
    have "sel = find (\<lambda>x. ca_id x = ca_id c) cs"
      using assms el by (auto simp: selectAccount_def Select_next_after [OF False] c(2))
    with find_ca_id [OF c(1)] c show ?thesis by auto
  qed
qed

text \<open>
  C5. \<open>selectAccount\<close> returns a candidate that has not been tried and whose cooldown is over, or
  reports that every candidate was tried or is cooling down; it never passes over an eligible one.
\<close>

theorem selectAccount_eligible:
  "case snd (selectAccount clock model cs tried e) of
     Some c \<Rightarrow> c \<in> set cs \<and> ca_id c \<notin> tried \<and> \<not> cooling clock (ex_cooldowns e) (ca_id c)
   | None \<Rightarrow> {c \<in> set cs. ca_id c \<notin> tried \<and> \<not> cooling clock (ex_cooldowns e) (ca_id c)} = {}"
  using selectAccount_cases [of clock model cs tried e] by (cases "selectAccount clock model cs tried e") (auto split: option.splits)

section \<open>Attempts\<close>

text \<open>What a run of the loop may leave behind, from the accounts already tried and the turns left.\<close>

definition safe_trace :: "candidate list \<Rightarrow> string set \<Rightarrow> nat \<Rightarrow> attempts \<Rightarrow> bool" where
  "safe_trace cs tried n trace \<longleftrightarrow>
     length trace \<le> n \<and> distinct (map fst trace) \<and> fst ` set trace \<subseteq> ca_id ` set cs - tried \<and>
     (\<forall>x. x \<in> set (butlast trace) \<longrightarrow> (\<exists>err. snd x = Some err \<and> safeRetry err))"

lemma safe_trace_one: "c \<in> set cs \<Longrightarrow> ca_id c \<notin> tried \<Longrightarrow> safe_trace cs tried (Suc n) [(ca_id c, r)]"
  by (simp add: safe_trace_def)

lemma safe_trace_more:
  assumes "safe_trace cs (insert (ca_id c) tried) n trace" and "c \<in> set cs" "ca_id c \<notin> tried" "safeRetry err"
  shows "safe_trace cs tried (Suc n) ((ca_id c, Some err) # trace)"
  using assms by (auto simp: safe_trace_def)

lemma open_loop_trace:
  "open_loop env ts r input cs tried lastErr e = (e', trace, res) \<Longrightarrow>
     safe_trace cs tried (length ts) trace \<and> ((\<exists>s. res = Inr s) \<longleftrightarrow> trace \<noteq> [] \<and> snd (last trace) = None)"
proof (induction env ts r input cs tried lastErr e arbitrary: e' trace res rule: open_loop.induct)
  case (2 env t ts r input cs tried lastErr e)
  obtain e1 sel where s: "selectAccount (ot_clock t) (rq_model input) cs tried e = (e1, sel)"
    by (cases "selectAccount (ot_clock t) (rq_model input) cs tried e")
  show ?case
  proof (cases sel)
    case None
    with "2.prems" s show ?thesis by (auto simp: safe_trace_def)
  next
    case (Some c)
    from selectAccount_cases [OF s] Some have c: "c \<in> set cs" "ca_id c \<notin> tried" by auto
    define e2 where "e2 = upd_request r (\<lambda>q. q\<lparr>re_lastAttempt := ca_id c\<rparr>) e1"
    obtain e3 p where p: "prepare env t r c e2 = (e3, p)" by (cases "prepare env t r c e2")
    define e4 where "e4 = (case p of Inl _ \<Rightarrow> e3 | Inr _ \<Rightarrow> ot_after_stream t (ot_before_stream t e3))"
    show ?thesis
    proof (cases "bindR p (\<lambda>a. ot_stream t)")
      case (Inr stream)
      with "2.prems" s Some p have "trace = [(ca_id c, None)]" "res = Inr stream" by (auto simp: e2_def Let_def)
      with safe_trace_one [OF c, where r = None] show ?thesis by simp
    next
      case (Inl err)
      define e5 where "e5 = noteFailure (ot_now t) r (ca_id c) err e4"
      show ?thesis
      proof (cases "re_ctx (ex_requests e5 ! r) = None \<and> safeRetry err")
        case False
        with "2.prems" s Some p Inl have "trace = [(ca_id c, Some err)] \<and> (\<exists>x. res = Inl x)"
          by (simp add: e2_def e4_def e5_def Let_def split: option.splits if_splits) (metis)+
        with safe_trace_one [OF c, where r = "Some err"] show ?thesis by auto
      next
        case True
        obtain e6 trace' res' where rest: "open_loop env ts r input cs (insert (ca_id c) tried) (Some err) e5 = (e6, trace', res')"
          by (metis prod_cases3)
        with "2.prems" s Some p Inl True have out: "trace = (ca_id c, Some err) # trace'" "res = res'"
          by (auto simp: e2_def e4_def e5_def Let_def)
        have "safe_trace cs (insert (ca_id c) tried) (length ts) trace' \<and> ((\<exists>s. res' = Inr s) \<longleftrightarrow> trace' \<noteq> [] \<and> snd (last trace') = None)"
          by (rule "2.IH" [OF s [symmetric] Some e2_def refl p [symmetric] e4_def refl Inl e5_def _ _ rest]) (use True in auto)
        with safe_trace_more [OF _ c] True out show ?thesis by auto
      qed
    qed
  qed
qed (auto simp: safe_trace_def)

text \<open>
  C4. \<open>open\<close> makes at most three attempts, each on a different account of the snapshot whose catalog
  lists the requested model in a form that accepts the request. Another account is tried only after
  a failure that is safe to retry, and the result is a stream exactly when the last attempt succeeded.
\<close>

theorem open_retries_safely:
  assumes "open_request env turns r input (Inr s) e = (e', trace, res)"
  shows "length trace \<le> 3 \<and> distinct (map fst trace) \<and>
    fst ` set trace \<subseteq> ac_AccountID ` {c \<in> set (cs_Accounts s). serves input c} \<and>
    (\<forall>x. x \<in> set (butlast trace) \<longrightarrow> (\<exists>err. snd x = Some err \<and> safeRetry err)) \<and>
    ((\<exists>stream. res = Inr stream) \<longleftrightarrow> trace \<noteq> [] \<and> snd (last trace) = None)"
proof (cases "requestCandidates s input")
  case (Inl err)
  with assms show ?thesis by (auto simp: open_request_def bindR_def)
next
  case (Inr cs)
  obtain t1 t2 t3 where "turns = (t1, t2, t3)" by (cases turns)
  with assms Inr have "open_loop env [t1, t2, t3] r input cs {} None e = (e', trace, res)" by (simp add: open_request_def bindR_def)
  from open_loop_trace [OF this] have tr: "safe_trace cs {} 3 trace" "(\<exists>s. res = Inr s) \<longleftrightarrow> trace \<noteq> [] \<and> snd (last trace) = None" by (simp_all add: eval_nat_numeral)
  from requestCandidates_set [OF Inr] have "ca_id ` set cs = ac_AccountID ` {c \<in> set (cs_Accounts s). serves input c}" by (simp add: image_image)
  with tr show ?thesis unfolding safe_trace_def by simp
qed

section \<open>Attempts and cleanup as steps of the executor\<close>

lemma finish_account_steps: "exec_step env e (finish_account io finished r result err e)"
proof -
  let ?q = "ex_requests e ! r"
  let ?rec = "\<lparr>r_ID = re_id ?q, r_FinishedAt = finished, r_KeyID = re_keyID ?q, r_AccountID = re_lastAttempt ?q, r_Model = re_model ?q,
        r_Result = resultCode result err, r_Duration = time_Sub finished (re_started ?q), r_ResponseStarted = re_responseStarted ?q,
        r_Usage = res_Usage result\<rparr>"
  have "traffic env (ex_db e) (fst (InsertRequest io (ex_db e) ?rec))" by (rule traffic.bg_insert) (rule prod.collapse [symmetric])
  then show ?thesis
    unfolding finish_account_def recordResult_def set_db_def Let_def by (intro exec_step.es_world) auto
qed

lemma finish_steps:
  assumes "r \<in> set (ex_active e)"
  shows "exec_steps env e (Executor_finish io finished r result err e)"
proof -
  have "exec_step env e (finish_cancel r e)" unfolding finish_cancel_def by (rule exec_step.es_cancel)
  moreover note finish_account_steps [of env "finish_cancel r e" io finished r result err]
  moreover have "r \<in> set (ex_active (finish_account io finished r result err (finish_cancel r e)))"
    using assms by (simp add: finish_account_def finish_cancel_def upd_request_def recordResult_def set_db_def Let_def)
  from exec_step.es_release [OF this] have
    "exec_step env (finish_account io finished r result err (finish_cancel r e)) (Executor_finish io finished r result err e)"
    by (simp add: Executor_finish_def)
  ultimately show ?thesis by (meson rtranclp.rtrancl_into_rtrancl r_into_rtranclp)
qed

definition quiet_open :: "StoreEnv \<Rightarrow> open_turn \<Rightarrow> bool" where
  "quiet_open env t \<longleftrightarrow> (\<forall>e. exec_steps env e (ot_before_oauth t e)) \<and> (\<forall>e. exec_steps env e (ot_before_stream t e)) \<and>
     (\<forall>e. exec_steps env e (ot_after_stream t e))"

lemma prepare_steps:
  assumes "quiet_open env t" and "prepare env t r c e = (e', res)"
  shows "exec_steps env e e'"
proof -
  obtain e1 err1 where r1: "registerAccount env (ot_io1 t) r c e = (e1, err1)" by (cases "registerAccount env (ot_io1 t) r c e")
  obtain e3 err3 where r3: "registerAccount env (ot_io2 t) r c (ot_before_oauth t e1) = (e3, err3)"
    by (cases "registerAccount env (ot_io2 t) r c (ot_before_oauth t e1)")
  have s1: "exec_steps env e e1" using exec_step.es_register [OF r1] by blast
  moreover have s2: "exec_steps env e (ot_before_oauth t e1)" using s1 assms(1) unfolding quiet_open_def by (meson rtranclp_trans)
  moreover have "exec_steps env e e3" using s2 exec_step.es_register [OF r3] by (rule rtranclp.rtrancl_into_rtrancl)
  moreover have "e' \<in> {e1, ot_before_oauth t e1, e3}"
    using assms(2) r1 r3 by (auto simp: prepare_def Let_def split: option.splits sum.splits if_splits)
  ultimately show ?thesis by auto
qed

lemma open_loop_steps:
  "open_loop env ts r input cs tried lastErr e = (e', trace, res) \<Longrightarrow> (\<And>t. t \<in> set ts \<Longrightarrow> quiet_open env t) \<Longrightarrow> exec_steps env e e'"
proof (induction env ts r input cs tried lastErr e arbitrary: e' trace res rule: open_loop.induct)
  case (2 env t ts r input cs tried lastErr e)
  obtain e1 sel where s: "selectAccount (ot_clock t) (rq_model input) cs tried e = (e1, sel)"
    by (cases "selectAccount (ot_clock t) (rq_model input) cs tried e")
  have s1: "exec_steps env e e1" using exec_step.es_select [OF s] by blast
  show ?case
  proof (cases sel)
    case None
    with "2.prems"(1) s s1 show ?thesis by simp
  next
    case (Some c)
    have quiet: "quiet_open env t" using "2.prems"(2) by simp
    define e2 where "e2 = upd_request r (\<lambda>q. q\<lparr>re_lastAttempt := ca_id c\<rparr>) e1"
    obtain e3 p where p: "prepare env t r c e2 = (e3, p)" by (cases "prepare env t r c e2")
    define e4 where "e4 = (case p of Inl _ \<Rightarrow> e3 | Inr _ \<Rightarrow> ot_after_stream t (ot_before_stream t e3))"
    have "exec_steps env e e2" unfolding e2_def by (rule rtranclp.rtrancl_into_rtrancl [OF s1 exec_step.es_attempt])
    from rtranclp_trans [OF this prepare_steps [OF quiet p]] have s3: "exec_steps env e e3" .
    have s4: "exec_steps env e e4"
    proof (cases p)
      case (Inr a)
      from quiet have "exec_steps env e3 (ot_before_stream t e3)" "exec_steps env (ot_before_stream t e3) (ot_after_stream t (ot_before_stream t e3))"
        by (simp_all add: quiet_open_def)
      from rtranclp_trans [OF s3 rtranclp_trans [OF this]] show ?thesis by (simp add: e4_def Inr)
    qed (simp add: e4_def s3)
    show ?thesis
    proof (cases "bindR p (\<lambda>a. ot_stream t)")
      case (Inr stream)
      with "2.prems"(1) s Some p s4 show ?thesis by (simp add: e2_def e4_def Let_def)
    next
      case (Inl err)
      define e5 where "e5 = noteFailure (ot_now t) r (ca_id c) err e4"
      have s5: "exec_steps env e e5" unfolding e5_def by (rule rtranclp.rtrancl_into_rtrancl [OF s4 exec_step.es_note])
      show ?thesis
      proof (cases "re_ctx (ex_requests e5 ! r) = None \<and> safeRetry err")
        case False
        with "2.prems"(1) s Some p Inl have "e' = e5"
          by (auto simp: e2_def e4_def e5_def Let_def split: option.splits if_splits)
        with s5 show ?thesis by simp
      next
        case True
        obtain e6 trace' res' where rest: "open_loop env ts r input cs (insert (ca_id c) tried) (Some err) e5 = (e6, trace', res')"
          by (metis prod_cases3)
        with "2.prems"(1) s Some p Inl True have out: "e' = e6" by (auto simp: e2_def e4_def e5_def Let_def)
        have "exec_steps env e5 e6"
          by (rule "2.IH" [OF s [symmetric] Some e2_def refl p [symmetric] e4_def refl Inl e5_def _ _ rest]) (use True "2.prems"(2) in auto)
        with s5 out show ?thesis by (meson rtranclp_trans)
      qed
    qed
  qed
qed simp

section \<open>One cleanup per request\<close>

lemma EStream_noteFailure_frame:
  assumes "EStream_noteFailure now err s e = (s', e')"
  shows "ex_active e' = ex_active e" "ex_requests e' = ex_requests e" "es_request s' = es_request s" "es_once s' = es_once s"
    "exec_steps env e e'"
  using assms
  by (auto simp: EStream_noteFailure_def noteFailure_frame split: option.splits if_splits intro: r_into_rtranclp exec_step.es_note)

lemma finish_release_frame:
  "ex_active (finish_release r e) = filter (\<lambda>k. k \<noteq> r) (ex_active e)"
  "length (ex_requests (finish_release r e)) = length (ex_requests e)"
  "re_keyID (ex_requests (finish_release r e) ! k) = re_keyID (ex_requests e ! k)"
  "r < length (ex_requests e) \<Longrightarrow> re_done (ex_requests (finish_release r e) ! r)"
  by (simp_all add: finish_release_def Let_def upd_request_def nth_update_if)

lemma finish_before_frame:
  fixes e io finished r result err
  defines "e1 \<equiv> finish_account io finished r result err (finish_cancel r e)"
  shows "ex_active e1 = ex_active e" "length (ex_requests e1) = length (ex_requests e)"
    "re_keyID (ex_requests e1 ! k) = re_keyID (ex_requests e ! k)"
  unfolding e1_def by (simp_all add: finish_account_def recordResult_def set_db_def finish_cancel_def upd_request_def Let_def nth_update_if)

lemma Executor_finish_frame:
  "ex_active (Executor_finish io finished r result err e) = filter (\<lambda>k. k \<noteq> r) (ex_active e)"
  "re_keyID (ex_requests (Executor_finish io finished r result err e) ! k) = re_keyID (ex_requests e ! k)"
  "r < length (ex_requests e) \<Longrightarrow> re_done (ex_requests (Executor_finish io finished r result err e) ! r)"
  by (simp_all add: Executor_finish_def finish_release_frame finish_before_frame)

lemma count_without:
  assumes "distinct xs" and "r \<in> set xs"
  shows "length (filter p xs) = length (filter p (filter (\<lambda>k. k \<noteq> r) xs)) + (if p r then 1 else 0)"
  using assms by (induction xs) (auto intro!: arg_cong [where f = length] filter_cong)

lemma EStream_finish_runs:
  assumes "\<not> es_once s" and "EStream_finish cctx close_fails now io finished s e = (s', e')"
  shows "\<exists>e1 result err. ex_active e1 = ex_active e \<and> ex_requests e1 = ex_requests e \<and> exec_steps env e e1 \<and>
    e' = Executor_finish io finished (es_request s) result err e1 \<and> es_once s'"
proof (cases "es_attempt s")
  case None
  with assms show ?thesis by (intro exI [of _ e]) (auto simp: EStream_finish_def Let_def)
next
  case (Some a)
  obtain a' ce where cl: "Stream_Close cctx close_fails a = (a', ce)" by (cases "Stream_Close cctx close_fails a")
  let ?s = "s\<lparr>es_once := True, es_attempt := Some a', es_closeErr := ce\<rparr>"
  obtain s1 e1 where n: "EStream_noteFailure now (s_err a') ?s e = (s1, e1)" by (cases "EStream_noteFailure now (s_err a') ?s e")
  from EStream_noteFailure_frame [OF n] Some assms cl n show ?thesis
    by (intro exI [of _ e1]) (auto simp: EStream_finish_def Let_def)
qed

text \<open>
  C6. Finishing the stream of an active request removes exactly that request from the active set,
  signals its completion and frees one slot of its own key and of no other key; doing it again, at
  any later state and with any outcome of the upstream close, changes nothing.
\<close>

theorem stream_finishes_once:
  assumes "reachable start_exec (exec_step env) e" and "es_request s \<in> set (ex_active e)" and "\<not> es_once s"
    and "EStream_finish cctx close_fails now io finished s e = (s', e')"
  shows "set (ex_active e') = set (ex_active e) - {es_request s} \<and> re_done (ex_requests e' ! es_request s) \<and>
    (\<forall>k. held (ex_limiter e) k = held (ex_limiter e') k + (if k = re_keyID (ex_requests e ! es_request s) then 1 else 0)) \<and>
    (\<forall>cctx2 fails2 now2 io2 finished2 e2. EStream_finish cctx2 fails2 now2 io2 finished2 s' e2 = (s', e2))"
proof -
  let ?r = "es_request s"
  obtain e1 result err where frame: "ex_active e1 = ex_active e" "ex_requests e1 = ex_requests e" "exec_steps env e e1"
    and out: "e' = Executor_finish io finished ?r result err e1" "es_once s'"
    using EStream_finish_runs [OF assms(3,4)] by blast
  have inv: "exec_inv e" by (rule exec_sys.inv_reachable [OF assms(1)])
  have act: "?r \<in> set (ex_active e1)" using assms(2) frame by simp
  have inv': "exec_inv e'"
    unfolding out by (rule exec_sys.inv_steps [OF finish_steps [OF act] exec_sys.inv_steps [OF frame(3) inv]])
  have active: "ex_active e' = filter (\<lambda>k. k \<noteq> ?r) (ex_active e)" by (simp add: out Executor_finish_frame frame)
  have key: "re_keyID (ex_requests e' ! k) = re_keyID (ex_requests e ! k)" for k by (simp add: out Executor_finish_frame frame)
  have "held (ex_limiter e) k = held (ex_limiter e') k + (if k = re_keyID (ex_requests e ! ?r) then 1 else 0)" for k
    using count_without [OF exec_invD(1) [OF inv] assms(2), of "\<lambda>r. re_keyID (ex_requests e ! r) = k"]
    unfolding active_of_held [OF inv, symmetric] active_of_held [OF inv', symmetric] active_of_def active key by simp
  moreover have "re_done (ex_requests e' ! ?r)"
    using exec_invD(2) [OF inv assms(2)] by (simp add: out Executor_finish_frame frame)
  moreover have "set (ex_active e') = set (ex_active e) - {?r}" by (auto simp: active)
  ultimately show ?thesis using out by (simp add: EStream_finish_def)
qed

lemma Executor_Stream_cases:
  assumes "Executor_Stream env c key info input e = (e', Some (s, err))"
  shows "(s = None \<and> err \<noteq> None \<and> e' = e) \<or> (\<exists>x. s = Some x \<and> es_request x = length (ex_requests e) \<and> \<not> es_once x)"
proof (cases "blank (ri_ID info)")
  case False
  obtain e1 a where adm: "admit (sc_sha c) (sc_io_find c) (sc_ctx1 c) (sc_ctx2 c) (sc_now c) key info (rq_model input) e = (e1, a)"
    by (cases "admit (sc_sha c) (sc_io_find c) (sc_ctx1 c) (sc_ctx2 c) (sc_now c) key info (rq_model input) e")
  show ?thesis
  proof (cases a)
    case (Inl x)
    with adm have "e1 = e" by (blast dest: admit_Inl)
    with assms False adm Inl show ?thesis by (auto simp: Executor_Stream_def)
  next
    case (Inr r)
    from adm [unfolded Inr] have r: "r = length (ex_requests e)" by (rule admit_Inr)
    obtain e2 opened where op: "Executor_open env c r input e1 = (e2, opened)" by (cases "Executor_open env c r input e1")
    with assms False adm Inr obtain trace o2 where o2: "opened = Some (trace, o2)" by (cases opened) (auto simp: Executor_Stream_def)
    have "s = Some (fst (admitted_stream r o2 e2))"
      using assms False adm Inr op o2 by (simp add: Executor_Stream_def split: prod.splits)
    then show ?thesis using r by (simp add: admitted_stream_def Let_def)
  qed
qed (use assms in \<open>auto simp: Executor_Stream_def\<close>)

section \<open>A concrete request\<close>

definition shop_stream :: EStream where
  "shop_stream = fst (admitted_stream 0 (Inl (Sentinel ErrNoAccounts)) (fst shop_registered))"

definition shop_finish :: "EStream \<times> Executor" where
  "shop_finish = EStream_finish background False (9, 9) None 9 shop_stream (fst shop_registered)"

theorem stream_finishes_once_witness:
  "held (ex_limiter (fst shop_registered)) ''k1'' = held (ex_limiter (snd shop_finish)) ''k1'' + 1 \<and>
   EStream_finish background False (9, 9) None 9 (fst shop_finish) (snd shop_finish) = shop_finish"
proof -
  have act: "es_request shop_stream \<in> set (ex_active (fst shop_registered))" "\<not> es_once shop_stream"
    "re_keyID (ex_requests (fst shop_registered) ! es_request shop_stream) = ''k1''" by code_simp+
  have "EStream_finish background False (9, 9) None 9 shop_stream (fst shop_registered) = (fst shop_finish, snd shop_finish)"
    by (simp add: shop_finish_def)
  from stream_finishes_once [OF shop_serving act(1,2) this] act(3) show ?thesis by simp
qed

definition shop_input :: Request where
  "shop_input = zero_Request\<lparr>rq_body := Some (JObj []), rq_model := ''m''\<rparr>"

definition shop_snapshot :: CatalogSnapshot where
  "shop_snapshot = \<lparr>cs_Accounts = map (\<lambda>i. \<lparr>ac_AccountID = i, ac_ChatGPTAccountID = ''w'', ac_Models = [toy_listed], ac_Loaded = True,
     ac_Failure = None\<rparr>) [''a0'', ''a1''], cs_Listed = [toy_listed]\<rparr>"

text \<open>The account \<open>a0\<close> is no longer in the store, so its attempt fails safely and \<open>a1\<close> serves the request.\<close>

definition shop_turn :: open_turn where
  "shop_turn = \<lparr>ot_clock = (\<lambda>_. 9), ot_io1 = None, ot_before_oauth = (\<lambda>e. e), ot_current = Inr toy_account, ot_io2 = None,
     ot_before_stream = (\<lambda>e. e), ot_stream = Inr (newStream 200 zero_Cooldown), ot_after_stream = (\<lambda>e. e), ot_now = (9, 9)\<rparr>"

definition shop_open :: "Executor \<times> attempts \<times> Stream result" where
  "shop_open = open_request toy_env (shop_turn, shop_turn, shop_turn) 0 shop_input (Inr shop_snapshot) (fst shop_registered)"

theorem open_retries_safely_witness:
  "map fst (fst (snd shop_open)) = [''a0'', ''a1''] \<and> (\<exists>stream. snd (snd shop_open) = Inr stream) \<and>
   {''a0'', ''a1''} \<subseteq> ac_AccountID ` {c \<in> set (cs_Accounts shop_snapshot). serves shop_input c}"
proof -
  have "open_request toy_env (shop_turn, shop_turn, shop_turn) 0 shop_input (Inr shop_snapshot) (fst shop_registered)
     = (fst shop_open, fst (snd shop_open), snd (snd shop_open))"
    by (simp add: shop_open_def)
  note safe = open_retries_safely [OF this]
  have out: "map (\<lambda>x. (fst x, snd x = None)) (fst (snd shop_open)) = [(''a0'', False), (''a1'', True)]" by code_simp
  from out obtain r0 where "fst (snd shop_open) = [(''a0'', r0), (''a1'', None)]" by (auto simp: map_eq_Cons_conv)
  then have tr: "map fst (fst (snd shop_open)) = [''a0'', ''a1'']" "snd (last (fst (snd shop_open))) = None" by simp_all
  from safe have "set (map fst (fst (snd shop_open))) \<subseteq> ac_AccountID ` {c \<in> set (cs_Accounts shop_snapshot). serves shop_input c}"
    unfolding set_map by (elim conjE)
  then have "{''a0'', ''a1''} \<subseteq> ac_AccountID ` {c \<in> set (cs_Accounts shop_snapshot). serves shop_input c}"
    unfolding tr(1) list.set .
  moreover have "fst (snd shop_open) \<noteq> []" using tr(1) by (metis list.simps(3) list.map_disc_iff)
  moreover have "\<exists>stream. snd (snd shop_open) = Inr stream" using safe tr(2) calculation(2) by (elim conjE) simp
  ultimately show ?thesis using tr(1) by (intro conjI)
qed

end
