(* ===== verification/Gateway.thy ===== *)
theory Gateway
  imports Attempts
begin

text \<open>
  \<open>internal/gateway\<close>: the client API. Errors of every component are turned into a fixed set of client
  errors, provider error events are rewritten, and the handlers drive the executor and write one
  response each. The router, the media type parser, the SSE event-type check and the network are
  parameters: \<open>write_turn\<close> says which of the three parts of a write succeed. Log lines and write
  deadlines are not modelled.
\<close>

section \<open>Client errors\<close>

record clientError =
  ce_status :: int
  ce_Type :: string
  ce_Code :: string
  ce_Message :: string
  ce_Param :: "string option"

definition invalidRequest :: "string \<Rightarrow> string \<Rightarrow> clientError" where
  "invalidRequest message field =
     \<lparr>ce_status = 400, ce_Type = ''invalid_request_error'', ce_Code = ''invalid_request'', ce_Message = message,
      ce_Param = (if field \<noteq> [] then Some field else None)\<rparr>"

definition unavailable :: clientError where
  "unavailable = \<lparr>ce_status = 503, ce_Type = ''server_error'', ce_Code = ''service_unavailable'',
     ce_Message = ''No account is currently available to serve the request.'', ce_Param = None\<rparr>"

definition request_fields :: "string list" where
  "request_fields = [''model'', ''input'', ''instructions'', ''stream'', ''store'', ''background'', ''max_output_tokens'', ''prompt_cache_key'',
     ''tools'', ''tool_choice'', ''parallel_tool_calls'', ''reasoning'', ''include'', ''text'']"

definition safeField :: "string \<Rightarrow> string" where
  "safeField field =
     (let root = fst (Cut (TrimPrefix field ''request.'') CHR ''.'') in if root \<in> set request_fields then root else [])"

definition mk_clientError :: "int \<Rightarrow> string \<Rightarrow> string \<Rightarrow> string \<Rightarrow> clientError" where
  "mk_clientError status type code message =
     \<lparr>ce_status = status, ce_Type = type, ce_Code = code, ce_Message = message, ce_Param = None\<rparr>"

definition classify_failure :: "Failure \<Rightarrow> clientError" where
  "classify_failure f =
     (if f_Category f = InvalidRequest then invalidRequest ''Codex rejected the request.'' []
      else if f_Category f = ProviderLimit
        then mk_clientError 429 ''rate_limit_error'' ''rate_limit_exceeded'' ''The provider limit was reached.''
      else if f_Category f = AccountProblem then unavailable
      else mk_clientError 502 ''server_error'' ''upstream_error'' ''The upstream response could not be completed.'')"

definition classify_rest :: "error \<Rightarrow> clientError" where
  "classify_rest err =
     (if errors_Is err ErrCatalogUnavailable \<or> errors_Is err ErrNoAccounts \<or> errors_Is err ErrClosed \<or> errors_Is err ErrUnavailable \<or>
         is_ctx err Canceled then unavailable
      else if as_net_timeout err
        then mk_clientError 408 ''invalid_request_error'' ''request_timeout'' ''The request body was not received in time.''
      else mk_clientError 500 ''server_error'' ''internal_error'' ''The request could not be completed.'')"

definition classify :: "error \<Rightarrow> clientError" where
  "classify err =
     (if errors_Is err ErrUnauthorized
        then mk_clientError 401 ''authentication_error'' ''invalid_api_key'' ''The client key is invalid or revoked.''
      else if errors_Is err ErrInvalidBody then invalidRequest ''The request body is invalid or incomplete.'' []
      else case as_Validation err of
        Some field \<Rightarrow> invalidRequest ''Invalid or unsupported request field.'' (safeField field)
      | None \<Rightarrow>
          if as_MaxBytes err
            then mk_clientError 413 ''invalid_request_error'' ''request_too_large'' ''The request exceeds 16 MiB.''
          else if errors_Is err ErrLimitReached
            then mk_clientError 429 ''rate_limit_error'' ''concurrency_limit'' ''The client key has no free request slots.''
          else if is_ctx err DeadlineExceeded
            then mk_clientError 504 ''server_error'' ''upstream_timeout'' ''The upstream request timed out.''
          else case as_Failure err of Some f \<Rightarrow> classify_failure f | None \<Rightarrow> classify_rest err)"

definition param_json :: "string option \<Rightarrow> json" where
  "param_json p = (case p of None \<Rightarrow> JNull | Some s \<Rightarrow> JStr s)"

text \<open>The JSON form of a client error: its exported fields.\<close>

definition error_json :: "clientError \<Rightarrow> json" where
  "error_json f = JObj [(''type'', JStr (ce_Type f)), (''code'', JStr (ce_Code f)), (''message'', JStr (ce_Message f)), (''param'', param_json (ce_Param f))]"

section \<open>Events\<close>

definition invalid_event :: error where
  "invalid_event = FailureErr (mk_Failure InvalidResponse 0 False)"

text \<open>The \<open>type\<close> and \<open>sequence_number\<close> of an event, decoded into a struct.\<close>

definition store_meta :: "(string \<times> raw) option \<Rightarrow> string \<times> json \<Rightarrow> (string \<times> raw) option" where
  "store_meta m kv =
     (case m of
        None \<Rightarrow> None
      | Some (kind, sequence) \<Rightarrow>
          if field_is ''type'' (fst kv) then map_option (\<lambda>s. (s, sequence)) (store_string (snd kv) kind)
          else if field_is ''sequence_number'' (fst kv) then Some (kind, Some (snd kv))
          else m)"

definition decode_meta :: "json \<Rightarrow> (string \<times> raw) option" where
  "decode_meta j = (case j of JNull \<Rightarrow> Some ([], None) | JObj m \<Rightarrow> foldl store_meta (Some ([], None)) m | _ \<Rightarrow> None)"

definition decode_code :: "raw \<Rightarrow> string option" where
  "decode_code r =
     (case r of
        Some JNull \<Rightarrow> Some []
      | Some (JObj m) \<Rightarrow> foldl (\<lambda>acc kv. if field_is ''code'' (fst kv) then Option.bind acc (store_string (snd kv)) else acc) (Some []) m
      | _ \<Rightarrow> None)"

definition wireFailure :: "raw \<Rightarrow> clientError result" where
  "wireFailure r = (case decode_code r of None \<Rightarrow> Inl invalid_event | Some c \<Rightarrow> Inr (classify (FailureErr (mk_Failure c 0 False))))"

definition normalizeFailedResponse :: "raw \<Rightarrow> json result" where
  "normalizeFailedResponse r =
     (case r of
        Some (JObj m) \<Rightarrow>
          (let fs = dedup m in bindR (wireFailure (map_of fs ''error'')) (\<lambda>f. Inr (marshal_fields (set_field fs ''error'' (error_json f)))))
      | _ \<Rightarrow> Inl invalid_event)"

text \<open>\<open>strconv.ParseInt\<close> on the raw text of \<open>sequence_number\<close>, when it is not negative.\<close>

definition sequence_of :: "raw \<Rightarrow> int option" where
  "sequence_of r =
     (case r of Some (JNum s) \<Rightarrow> (case ParseInt64 s of Inr n \<Rightarrow> if n \<ge> 0 then Some n else None | Inl _ \<Rightarrow> None) | _ \<Rightarrow> None)"

text \<open>The fields of a forwarded error event, with the failure replaced.\<close>

definition rewrite_error :: "string \<Rightarrow> json \<Rightarrow> fields \<Rightarrow> json result" where
  "rewrite_error kind event fs =
     (if kind = ''response.failed'' then
        bindR (normalizeFailedResponse (map_of fs ''response'')) (\<lambda>response. Inr (marshal_fields (set_field fs ''response'' response)))
      else
        bindR (wireFailure (Some event)) (\<lambda>f.
          Inr (marshal_fields (set_field (set_field (set_field fs ''code'' (JStr (ce_Code f))) ''message'' (JStr (ce_Message f)))
            ''param'' (param_json (ce_Param f))))))"

definition prepareEvent :: "(string \<Rightarrow> bool) \<Rightarrow> json \<Rightarrow> int \<Rightarrow> int \<times> (json \<times> string) result" where
  "prepareEvent sse event previous =
     (case decode_meta event of
        None \<Rightarrow> (previous, Inl invalid_event)
      | Some (kind, seqraw) \<Rightarrow>
          if kind = [] \<or> \<not> sse kind then (previous, Inl invalid_event)
          else
            (let errorEvent = (kind = ''error'' \<or> kind = ''response.failed'');
                 valid = sequence_of seqraw in
             if valid = None \<and> (seqraw \<noteq> None \<and> \<not> errorEvent \<or> previous = max_int64) then (previous, Inl invalid_event)
             else
               (let sequence = (case valid of Some n \<Rightarrow> n | None \<Rightarrow> previous + 1) in
                if \<not> errorEvent then (max previous sequence, Inr (event, kind))
                else
                  (let fs = dedup (case event of JObj m \<Rightarrow> m | _ \<Rightarrow> []);
                       fs = (if valid = None then set_field fs ''sequence_number'' (JNum (FormatInt sequence)) else fs)
                   in case rewrite_error kind event fs of
                        Inl _ \<Rightarrow> (previous, Inl invalid_event)
                      | Inr j \<Rightarrow> (max previous sequence, Inr (j, kind))))))"

section \<open>Delivery\<close>

datatype chunk = Body raw | Event string json

record ResponseWriter =
  rw_Header :: "string \<rightharpoonup> string"
  rw_Status :: "int option"
  rw_Body :: "chunk list"

definition fresh_writer :: ResponseWriter where
  "fresh_writer = \<lparr>rw_Header = Map.empty, rw_Status = None, rw_Body = []\<rparr>"

definition set_header :: "string \<Rightarrow> string \<Rightarrow> ResponseWriter \<Rightarrow> ResponseWriter" where
  "set_header k v w = w\<lparr>rw_Header := (rw_Header w)(k \<mapsto> v)\<rparr>"

record write_turn =
  wt_begin :: bool \<comment> \<open>\<open>begin\<close>: the context is live and the write deadline was set\<close>
  wt_write :: bool
  wt_flush :: bool

text \<open>The results: the writer, whether the \<open>started\<close> callback ran, and whether delivery succeeded.\<close>

definition delivery_json :: "write_turn \<Rightarrow> int \<Rightarrow> raw \<Rightarrow> ResponseWriter \<Rightarrow> ResponseWriter \<times> bool \<times> bool" where
  "delivery_json t status body w =
     (if \<not> wt_begin t then (w, False, False)
      else
        (let w = (set_header ''Content-Type'' ''application/json'' w)\<lparr>rw_Status := Some status\<rparr> in
         if \<not> wt_write t then (w, True, False) else (w\<lparr>rw_Body := rw_Body w @ [Body body]\<rparr>, True, wt_flush t)))"

definition delivery_event ::
  "(string \<Rightarrow> bool) \<Rightarrow> write_turn \<Rightarrow> string \<Rightarrow> json \<Rightarrow> bool \<Rightarrow> ResponseWriter \<Rightarrow> ResponseWriter \<times> bool \<times> bool" where
  "delivery_event sse t kind body first w =
     (if \<not> sse kind \<or> \<not> wt_begin t then (w, False, False)
      else
        (let w = (if first then (set_header ''X-Accel-Buffering'' ''no'' (set_header ''Content-Type'' ''text/event-stream'' w))\<lparr>rw_Status := Some 200\<rparr>
                  else w) in
         if \<not> wt_write t then (w, first, False) else (w\<lparr>rw_Body := rw_Body w @ [Event kind body]\<rparr>, first, wt_flush t)))"

record HTTPRequest =
  hr_Method :: string
  hr_Path :: string
  hr_RawQuery :: string
  hr_Authorization :: "string list"
  hr_ContentType :: string
  hr_ContentEncoding :: "string list"
  hr_ProtoMajor :: int
  hr_HasBody :: bool
  hr_ContentLength :: int

abbreviation is_generation :: "HTTPRequest \<Rightarrow> bool" where
  "is_generation r \<equiv> hr_Method r = ''POST'' \<and> hr_Path r = ''/v1/responses''"

definition writeError :: "write_turn \<Rightarrow> HTTPRequest \<Rightarrow> clientError \<Rightarrow> ResponseWriter \<Rightarrow> ResponseWriter \<times> bool \<times> bool" where
  "writeError t r failure w =
     (let w = (if is_generation r then set_header ''X-Should-Retry'' ''false'' w else w);
          w = (if ce_status failure = 401 then set_header ''WWW-Authenticate'' ''Bearer'' w else w)
      in delivery_json t (ce_status failure) (Some (JObj [(''error'', error_json failure)])) w)"

definition stream_error_json :: "clientError \<Rightarrow> int \<Rightarrow> json" where
  "stream_error_json failure sequence =
     JObj [(''type'', JStr ''error''), (''sequence_number'', JNum (FormatInt sequence)), (''code'', JStr (ce_Code failure)),
           (''message'', JStr (ce_Message failure)), (''param'', param_json (ce_Param failure))]"

definition sendStreamError ::
  "(string \<Rightarrow> bool) \<Rightarrow> write_turn \<Rightarrow> clientError \<Rightarrow> int \<Rightarrow> ResponseWriter \<Rightarrow> ResponseWriter \<times> bool" where
  "sendStreamError sse t failure sequence w =
     (let (w, _, ok) = delivery_event sse t ''error'' (stream_error_json failure sequence) False w in (w, ok))"

definition closeUnreadConnection :: "HTTPRequest \<Rightarrow> ResponseWriter \<Rightarrow> ResponseWriter" where
  "closeUnreadConnection r w =
     (if hr_ProtoMajor r = 1 \<and> hr_HasBody r \<and> hr_ContentLength r \<noteq> 0 then set_header ''Connection'' ''close'' w else w)"

end
