(* ===== verification/GatewayHandlers.thy ===== *)
theory GatewayHandlers
  imports Gateway
begin

text \<open>
  The HTTP handlers of \<open>internal/gateway\<close>. Each takes the executor and an unwritten response and
  gives both back; \<open>None\<close> means that a call it waits for does not return within the turns given.
\<close>

section \<open>Rejection\<close>

record requestMetadata =
  md_info :: RequestInfo
  md_keyID :: string
  md_model :: string

text \<open>What a rejection meets: the write, the original context afterwards, and the accounting write.\<close>

record reject_turn =
  rt_write :: write_turn
  rt_ctx :: "ctx_error option"
  rt_io :: "error option"
  rt_finished :: time

definition reject ::
  "reject_turn \<Rightarrow> HTTPRequest \<Rightarrow> requestMetadata \<Rightarrow> clientError \<Rightarrow> ResponseWriter \<Rightarrow> Executor \<Rightarrow> Executor \<times> ResponseWriter" where
  "reject t r meta failure w e =
     (let w = closeUnreadConnection r w;
          recorded = (is_generation r \<and> md_keyID meta \<noteq> []);
          (w, started, delivered) = writeError (rt_write t) r failure w in
      if \<not> recorded then (e, w)
      else
        (let code = (if delivered then ce_Code failure else ''delivery_failed'');
             code = (case rt_ctx t of None \<Rightarrow> code | Some DeadlineExceeded \<Rightarrow> ''timeout'' | Some Canceled \<Rightarrow> ''canceled'')
         in (RecordRejection (rt_io t) (rt_finished t) (md_info meta) (md_keyID meta) (md_model meta) code started e, w)))"

section \<open>Streaming\<close>

record gw_turn =
  gt_others :: "Executor \<Rightarrow> Executor" \<comment> \<open>while the handler waits for the next event\<close>
  gt_now :: "time \<times> time"
  gt_read :: read_state
  gt_delivery :: delivery
  gt_write :: write_turn
  gt_error_write :: write_turn

text \<open>\<open>sendError\<close>: the whole response when nothing was sent, an error event otherwise.\<close>

definition sendError ::
  "(string \<Rightarrow> bool) \<Rightarrow> write_turn \<Rightarrow> HTTPRequest \<Rightarrow> bool \<Rightarrow> int \<Rightarrow> error \<Rightarrow> EStream \<times> Executor \<times> ResponseWriter \<Rightarrow>
   EStream \<times> Executor \<times> ResponseWriter" where
  "sendError sse t r started sequence err x =
     (case x of (s, e, w) \<Rightarrow>
        if \<not> started then
          (let (w, committed, ok) = writeError t r (classify err) w
           in (if ok then s else EStream_DeliveryFailed s, if committed then EStream_ResponseStarted s e else e, w))
        else if \<not> errors_Is err EOF then
          (if sequence = max_int64 then (EStream_DeliveryFailed s, e, w)
           else (let (w, ok) = sendStreamError sse t (classify err) (sequence + 1) w
                 in (if ok then s else EStream_DeliveryFailed s, e, w)))
        else (s, e, w))"

definition terminal_kinds :: "string list" where
  "terminal_kinds = [''response.completed'', ''response.incomplete'', ''response.failed'', ''error'']"

fun stream_loop ::
  "(string \<Rightarrow> bool) \<Rightarrow> map_iter \<Rightarrow> HTTPRequest \<Rightarrow> gw_turn list \<Rightarrow> bool \<Rightarrow> int \<Rightarrow> EStream \<times> Executor \<times> ResponseWriter \<Rightarrow>
   (EStream \<times> Executor \<times> ResponseWriter) option" where
  "stream_loop sse ord r [] started sequence x = None"
| "stream_loop sse ord r (t # ts) started sequence (s, e, w) =
     (case EStream_Next ord (gt_now t) (gt_read t) (gt_delivery t) s (gt_others t e) of
        (s, e, Inl err) \<Rightarrow> Some (sendError sse (gt_error_write t) r started sequence err (s, e, w))
      | (s, e, Inr event) \<Rightarrow>
          (case prepareEvent sse event sequence of
             (sequence, Inl err) \<Rightarrow> Some (sendError sse (gt_error_write t) r started sequence err (EStream_DeliveryFailed s, e, w))
           | (sequence, Inr (event, kind)) \<Rightarrow>
               (let (w, committed, ok) = delivery_event sse (gt_write t) kind event (\<not> started) w;
                    e = (if committed then EStream_ResponseStarted s e else e) in
                if \<not> ok then Some (EStream_DeliveryFailed s, e, w)
                else if kind \<in> set terminal_kinds then Some (s, e, w)
                else stream_loop sse ord r ts True sequence (s, e, w))))"

text \<open>What closing the stream meets.\<close>

record close_turn =
  cl_ctx :: Ctx
  cl_fails :: bool
  cl_now :: "time \<times> time"
  cl_io :: "error option"
  cl_finished :: time

definition close_stream :: "close_turn \<Rightarrow> EStream \<Rightarrow> Executor \<Rightarrow> EStream \<times> Executor" where
  "close_stream t s e = EStream_finish (cl_ctx t) (cl_fails t) (cl_now t) (cl_io t) (cl_finished t) s e"

record gw_env =
  ge_sse :: "string \<Rightarrow> bool"
  ge_ord :: map_iter
  ge_store :: StoreEnv
  ge_codex :: CodexEnv
  ge_call :: stream_call
  ge_reject :: reject_turn
  ge_open_write :: write_turn
  ge_turns :: "gw_turn list"
  ge_close :: close_turn

definition stream_body ::
  "gw_env \<Rightarrow> HTTPRequest \<Rightarrow> error option \<Rightarrow> EStream \<times> Executor \<times> ResponseWriter \<Rightarrow> (EStream \<times> Executor \<times> ResponseWriter) option" where
  "stream_body g r openErr x =
     (case openErr of
        Some err \<Rightarrow> Some (sendError (ge_sse g) (ge_open_write g) r False (-1) err x)
      | None \<Rightarrow> stream_loop (ge_sse g) (ge_ord g) r (ge_turns g) False (-1) x)"

definition handler_stream ::
  "gw_env \<Rightarrow> string \<Rightarrow> HTTPRequest \<Rightarrow> requestMetadata \<Rightarrow> Request \<Rightarrow> ResponseWriter \<Rightarrow> Executor \<Rightarrow> Executor \<times> ResponseWriter option" where
  "handler_stream g key r meta input w e =
     (case Executor_Stream (ge_store g) (ge_call g) key (md_info meta) input e of
        (e, None) \<Rightarrow> (e, None)
      | (e, Some (None, openErr)) \<Rightarrow> (let (e, w) = reject (ge_reject g) r meta (classify (the openErr)) w e in (e, Some w))
      | (e, Some (Some s, openErr)) \<Rightarrow>
          (case stream_body g r openErr (s, e, w) of
             None \<Rightarrow> (e, None)
           | Some (s, e, w) \<Rightarrow> (snd (close_stream (ge_close g) s e), Some w)))"

section \<open>Complete responses\<close>

text \<open>The response of \<open>generate\<close> for an admitted request: its status and body.\<close>

definition generated :: "Result \<Rightarrow> error option \<Rightarrow> error option \<Rightarrow> ctx_error option \<Rightarrow> clientError + raw" where
  "generated result cleanup err ctx =
     (case err of
        None \<Rightarrow> Inr (res_Response result)
      | Some err \<Rightarrow>
          if res_Status result \<noteq> ''failed'' \<or> ctx \<noteq> None \<or> cleanup \<noteq> None then Inl (classify err)
          else case normalizeFailedResponse (res_Response result) of
                 Inl err \<Rightarrow> Inl (classify err)
               | Inr response \<Rightarrow> Inr (Some response))"

definition deliver_generated ::
  "write_turn \<Rightarrow> HTTPRequest \<Rightarrow> Result \<Rightarrow> error option \<Rightarrow> error option \<Rightarrow> EStream \<times> Executor \<times> ResponseWriter \<Rightarrow>
   EStream \<times> Executor \<times> ResponseWriter" where
  "deliver_generated t r result cleanup err x =
     (case x of (s, e, w) \<Rightarrow>
        (let (w, committed, ok) =
               (case generated result cleanup err (re_ctx (ex_requests e ! es_request s)) of
                  Inl failure \<Rightarrow> writeError t r failure w
                | Inr body \<Rightarrow> delivery_json t 200 body w)
         in (if ok then s else EStream_DeliveryFailed s, if committed then EStream_ResponseStarted s e else e, w)))"

definition handler_generate ::
  "gw_env \<Rightarrow> ((time \<times> time) \<times> read_state \<times> delivery) list \<Rightarrow> string \<Rightarrow> HTTPRequest \<Rightarrow> requestMetadata \<Rightarrow> Request \<Rightarrow> ResponseWriter \<Rightarrow>
   Executor \<Rightarrow> Executor \<times> ResponseWriter option" where
  "handler_generate g ds key r meta input w e =
     (case Executor_Generate (ge_store g) (ge_call g) (ge_ord g) ds (cl_ctx (ge_close g)) (cl_fails (ge_close g)) key (md_info meta) input e of
        (e, None) \<Rightarrow> (e, None)
      | (e, Some (None, result, cleanup, err)) \<Rightarrow>
          (let (e, w) = reject (ge_reject g) r meta (classify (the err)) w e in (e, Some w))
      | (e, Some (Some s, result, cleanup, err)) \<Rightarrow>
          (let (s, e, w) = deliver_generated (ge_open_write g) r result cleanup err (s, e, w)
           in (snd (close_stream (ge_close g) s e), Some w)))"

section \<open>Requests\<close>

definition bearer :: "HTTPRequest \<Rightarrow> string" where
  "bearer r =
     (case hr_Authorization r of
        [value] \<Rightarrow> (case Fields value of [scheme, token] \<Rightarrow> if EqualFold scheme ''Bearer'' then token else [] | _ \<Rightarrow> [])
      | _ \<Rightarrow> [])"

definition supportedEncoding :: "string list \<Rightarrow> bool" where
  "supportedEncoding vs \<longleftrightarrow> vs = [] \<or> (length vs = 1 \<and> EqualFold (TrimSpace (hd vs)) ''identity'')"

text \<open>
  \<open>readBody\<close>: the error of setting the read deadline, what \<open>io.ReadAll\<close> gives of at most 16 MiB, and
  the error of clearing the deadline, which is skipped when the context has ended.
\<close>

definition readBody :: "error option \<Rightarrow> (nat \<times> raw) result \<Rightarrow> ctx_error option \<Rightarrow> error option \<Rightarrow> (nat \<times> raw) result" where
  "readBody deadline got ctx cleared =
     (case deadline of
        Some err \<Rightarrow> Inl err
      | None \<Rightarrow>
          (let err = (case got of
                        Inr _ \<Rightarrow> None
                      | Inl err \<Rightarrow> Some (if \<not> as_MaxBytes err \<and> \<not> as_net_timeout err then Sentinel ErrInvalidBody else err));
               err = (if ctx = None then errors_Join [err, cleared] else err)
           in case err of Some err \<Rightarrow> Inl err | None \<Rightarrow> got))"

definition unsupported_media :: clientError where
  "unsupported_media = mk_clientError 415 ''invalid_request_error'' ''unsupported_media_type'' ''Use uncompressed application/json.''"

text \<open>\<open>mediaType\<close> is what \<open>mime.ParseMediaType\<close> gives for the content type; \<open>body\<close> what \<open>readBody\<close> gives.\<close>

definition handler_responses ::
  "gw_env \<Rightarrow> ((time \<times> time) \<times> read_state \<times> delivery) list \<Rightarrow> string option \<Rightarrow> (nat \<times> raw) result \<Rightarrow> HTTPRequest \<Rightarrow> requestMetadata \<Rightarrow>
   ResponseWriter \<Rightarrow> Executor \<Rightarrow> Executor \<times> ResponseWriter option" where
  "handler_responses g ds mediaType body r meta w e =
     (let refuse = (\<lambda>failure. let (e, w) = reject (ge_reject g) r meta failure w e in (e, Some w)) in
      if mediaType \<noteq> Some ''application/json'' \<or> \<not> supportedEncoding (hr_ContentEncoding r) then refuse unsupported_media
      else case body of
             Inl err \<Rightarrow> refuse (classify err)
           | Inr (n, data) \<Rightarrow>
               (case ParseRequest (ge_codex g) n data of
                  Inl err \<Rightarrow> refuse (classify err)
                | Inr input \<Rightarrow>
                    (let meta = meta\<lparr>md_model := rq_model input\<rparr> in
                     if rq_stream input then handler_stream g (bearer r) r meta input w e
                     else handler_generate g ds (bearer r) r meta input w e)))"

definition model_list :: "Model list \<Rightarrow> json" where
  "model_list models =
     JObj [(''object'', JStr ''list''),
           (''data'', JArr (map (\<lambda>m. JObj [(''id'', JStr (m_ID m)), (''object'', JStr ''model''), (''created'', JNum ''0''), (''owned_by'', JStr ''openai'')]) models))]"

record models_call =
  mc_sha :: "bytes \<Rightarrow> VerificationHash"
  mc_io1 :: "error option"
  mc_io2 :: "error option"
  mc_io3 :: "error option"
  mc_ctx :: "ctx_error option"
  mc_turns :: "snapshot_turn list"
  mc_others :: "Executor \<Rightarrow> Executor"

definition handler_models ::
  "gw_env \<Rightarrow> models_call \<Rightarrow> HTTPRequest \<Rightarrow> requestMetadata \<Rightarrow> ResponseWriter \<Rightarrow> Executor \<Rightarrow> Executor \<times> ResponseWriter option" where
  "handler_models g c r meta w e =
     (let w = closeUnreadConnection r w in
      case Models (mc_sha c) (mc_io1 c) (mc_io2 c) (mc_io3 c) (mc_ctx c) (ge_store g) (mc_turns c) (mc_others c) (bearer r) e of
        (e, None) \<Rightarrow> (e, None)
      | (e, Some (Inl err)) \<Rightarrow> (let (e, w) = reject (ge_reject g) r meta (classify err) w e in (e, Some w))
      | (e, Some (Inr models)) \<Rightarrow> (e, Some (fst (delivery_json (ge_open_write g) 200 (Some (model_list models)) w))))"

datatype route = RouteResponses | RouteModels | RouteNotFound | RouteMethodNotAllowed

definition not_found :: clientError where
  "not_found = mk_clientError 404 ''invalid_request_error'' ''not_found'' ''The resource was not found.''"

definition method_not_allowed :: clientError where
  "method_not_allowed = mk_clientError 405 ''invalid_request_error'' ''method_not_allowed'' ''The method is not supported.''"

text \<open>
  The gateway: the middleware \<open>authenticate\<close>, then the handler of the route the router chose.
  \<open>rid\<close> is the random request ID and \<open>now\<close> its start; \<open>others\<close> is what happens after the key was checked.
\<close>

definition gateway ::
  "gw_env \<Rightarrow> string \<Rightarrow> time \<Rightarrow> (bytes \<Rightarrow> VerificationHash) \<Rightarrow> error option \<Rightarrow> ctx_error option \<Rightarrow> (Executor \<Rightarrow> Executor) \<Rightarrow> route \<Rightarrow>
   ((time \<times> time) \<times> read_state \<times> delivery) list \<Rightarrow> string option \<Rightarrow> (nat \<times> raw) result \<Rightarrow> models_call \<Rightarrow> HTTPRequest \<Rightarrow> Executor \<Rightarrow>
   Executor \<times> ResponseWriter option" where
  "gateway g rid now sha io ctx others to ds mediaType body models r e =
     (let w = set_header ''Cache-Control'' ''no-store'' (set_header ''X-Request-ID'' (''req_'' @ rid) fresh_writer);
          meta = \<lparr>md_info = \<lparr>ri_ID = ''req_'' @ rid, ri_Started = now\<rparr>, md_keyID = [], md_model = []\<rparr>;
          some = (\<lambda>(e, w). (e, Some w)) in
      case CheckKey sha io ctx (bearer r) e of
        Inl err \<Rightarrow> some (reject (ge_reject g) r meta (classify err) w e)
      | Inr keyID \<Rightarrow>
          (let meta = meta\<lparr>md_keyID := keyID\<rparr>; e = others e in
           if hr_RawQuery r \<noteq> [] then some (reject (ge_reject g) r meta (invalidRequest ''Query parameters are not supported.'' []) w e)
           else case to of
                  RouteResponses \<Rightarrow> handler_responses g ds mediaType body r meta w e
                | RouteModels \<Rightarrow> handler_models g models r meta w e
                | RouteNotFound \<Rightarrow> some (reject (ge_reject g) r meta not_found w e)
                | RouteMethodNotAllowed \<Rightarrow>
                    some (reject (ge_reject g) r meta method_not_allowed
                      (set_header ''Allow'' (if hr_Path r = ''/v1/models'' then ''GET'' else ''POST'') w) e)))"

end
