(* ===== verification/GatewayLaws.thy ===== *)
theory GatewayLaws
  imports GatewayHandlers RequestParsing
begin

text \<open>
  Laws of the gateway: clients see only a fixed table of errors, a streamed response keeps its shape
  and its sequence numbers, and no handler leaves a slot behind.
\<close>

section \<open>Client errors\<close>

definition client_table :: "clientError list" where
  "client_table =
     [unavailable,
      mk_clientError 401 ''authentication_error'' ''invalid_api_key'' ''The client key is invalid or revoked.'',
      mk_clientError 408 ''invalid_request_error'' ''request_timeout'' ''The request body was not received in time.'',
      mk_clientError 413 ''invalid_request_error'' ''request_too_large'' ''The request exceeds 16 MiB.'',
      mk_clientError 429 ''rate_limit_error'' ''concurrency_limit'' ''The client key has no free request slots.'',
      mk_clientError 429 ''rate_limit_error'' ''rate_limit_exceeded'' ''The provider limit was reached.'',
      mk_clientError 500 ''server_error'' ''internal_error'' ''The request could not be completed.'',
      mk_clientError 502 ''server_error'' ''upstream_error'' ''The upstream response could not be completed.'',
      mk_clientError 504 ''server_error'' ''upstream_timeout'' ''The upstream request timed out.'',
      invalidRequest ''The request body is invalid or incomplete.'' [],
      invalidRequest ''Codex rejected the request.'' []] @
     map (invalidRequest ''Invalid or unsupported request field.'') ([] # request_fields)"

lemma table_members:
  "unavailable \<in> set client_table" "invalidRequest ''Codex rejected the request.'' [] \<in> set client_table"
  by (simp_all add: client_table_def)

lemma classify_failure_table: "classify_failure f \<in> set client_table"
  by (auto simp: classify_failure_def client_table_def)

lemma classify_rest_table: "classify_rest err \<in> set client_table"
  by (auto simp: classify_rest_def client_table_def)

lemma safeField_table: "invalidRequest ''Invalid or unsupported request field.'' (safeField f) \<in> set client_table"
  by (auto simp: client_table_def safeField_def Let_def)

lemma classify_table: "classify err \<in> set client_table"
proof -
  have "mk_clientError 401 ''authentication_error'' ''invalid_api_key'' ''The client key is invalid or revoked.'' \<in> set client_table"
    "mk_clientError 413 ''invalid_request_error'' ''request_too_large'' ''The request exceeds 16 MiB.'' \<in> set client_table"
    "mk_clientError 429 ''rate_limit_error'' ''concurrency_limit'' ''The client key has no free request slots.'' \<in> set client_table"
    "mk_clientError 504 ''server_error'' ''upstream_timeout'' ''The upstream request timed out.'' \<in> set client_table"
    "invalidRequest ''The request body is invalid or incomplete.'' [] \<in> set client_table"
    by (simp_all add: client_table_def)
  then show ?thesis
    unfolding classify_def
    by (simp add: classify_failure_table classify_rest_table safeField_table split: option.split)
qed

section \<open>Error events\<close>

lemma map_of_marshal: "distinct (map fst fs) \<Longrightarrow> marshal_fields fs = JObj m \<Longrightarrow> map_of m = map_of fs"
  by (auto simp: marshal_fields_def sort_key_fst_map_of)

lemma marshal_set: "distinct (map fst fs) \<Longrightarrow> \<exists>m. marshal_fields (set_field fs k v) = JObj m \<and> map_of m = (map_of fs)(k \<mapsto> v)"
  by (simp add: marshal_fields_def sort_key_fst_map_of)

lemma wireFailure_table: "wireFailure r = Inr f \<Longrightarrow> f \<in> set client_table"
  by (auto simp: wireFailure_def classify_table split: option.splits)

lemma normalizeFailedResponse_Inr:
  assumes "normalizeFailedResponse r = Inr j"
  shows "\<exists>m f. j = JObj m \<and> f \<in> set client_table \<and> map_of m ''error'' = Some (error_json f)"
proof -
  from assms obtain m f where r: "r = Some (JObj m)" and f: "wireFailure (map_of (dedup m) ''error'') = Inr f"
    and j: "j = marshal_fields (set_field (dedup m) ''error'' (error_json f))"
    by (auto simp: normalizeFailedResponse_def Let_def bindR_Inr split: option.splits json.splits)
  from marshal_set [of "dedup m" "''error''" "error_json f"] j wireFailure_table [OF f] show ?thesis by auto
qed

text \<open>The parts of an error event that a client reads as the error.\<close>

definition shown_error :: "string \<Rightarrow> json \<Rightarrow> clientError \<Rightarrow> bool" where
  "shown_error kind j f \<longleftrightarrow>
     (\<exists>m. j = JObj m \<and>
       (if kind = ''response.failed'' then \<exists>r. map_of m ''response'' = Some (JObj r) \<and> map_of r ''error'' = Some (error_json f)
        else map_of m ''code'' = Some (JStr (ce_Code f)) \<and> map_of m ''message'' = Some (JStr (ce_Message f)) \<and>
             map_of m ''param'' = Some (param_json (ce_Param f))))"

lemma rewrite_error_shown:
  assumes "rewrite_error kind event fs = Inr j" and "distinct (map fst fs)"
  shows "\<exists>f. f \<in> set client_table \<and> shown_error kind j f"
proof (cases "kind = ''response.failed''")
  case True
  with assms(1) obtain response where n: "normalizeFailedResponse (map_of fs ''response'') = Inr response"
    and j: "j = marshal_fields (set_field fs ''response'' response)" by (auto simp: rewrite_error_def bindR_Inr)
  from normalizeFailedResponse_Inr [OF n] marshal_set [OF assms(2), of "''response''" response] j True show ?thesis
    by (auto simp: shown_error_def)
next
  case False
  with assms(1) obtain f where f: "wireFailure (Some event) = Inr f"
    and j: "j = marshal_fields (set_field (set_field (set_field fs ''code'' (JStr (ce_Code f))) ''message'' (JStr (ce_Message f)))
            ''param'' (param_json (ce_Param f)))" by (auto simp: rewrite_error_def bindR_Inr)
  from marshal_set [of "set_field (set_field fs ''code'' (JStr (ce_Code f))) ''message'' (JStr (ce_Message f))" "''param''" "param_json (ce_Param f)"]
    assms(2) j wireFailure_table [OF f] False show ?thesis by (auto simp: shown_error_def)
qed

lemma ParseInt64_upper:
  assumes "ParseInt64 s = Inr n"
  shows "n \<le> max_int64"
proof -
  from assms obtain c cs v where s: "s = c # cs" and v: "ParseUint max_uint64 (if c = CHR ''-'' \<or> c = CHR ''+'' then cs else s) = Inr v"
    and n: "n = (if c = CHR ''-'' then - v else v)" "c = CHR ''-'' \<or> v \<le> max_int64"
    by (cases s) (auto simp: ParseInt64_def Let_def split: sum.splits if_splits)
  from v have "0 \<le> v" unfolding ParseUint_def by (auto split: if_splits simp: max_uint64_def dest: parse_digits_Inr)
  with n show ?thesis by (auto simp: max_int64_def)
qed

text \<open>What \<open>prepareEvent\<close> gives for an event it accepts.\<close>

lemma prepareEvent_Inr:
  assumes "prepareEvent sse event previous = (n, Inr (j, kind))" and "previous \<le> max_int64"
  shows "sse kind \<and> previous \<le> n \<and> n \<le> max_int64 \<and>
    (if kind = ''error'' \<or> kind = ''response.failed'' then \<exists>f. f \<in> set client_table \<and> shown_error kind j f
     else j = event \<and> (\<forall>k s. decode_meta event = Some (k, s) \<longrightarrow> (\<forall>m. sequence_of s = Some m \<longrightarrow> m \<le> n)))"
proof -
  obtain k s where d: "decode_meta event = Some (k, s)" using assms(1) by (auto simp: prepareEvent_def split: option.splits)
  let ?err = "k = ''error'' \<or> k = ''response.failed''"
  let ?q = "case sequence_of s of Some m \<Rightarrow> m | None \<Rightarrow> previous + 1"
  have bound: "sequence_of s = Some m \<Longrightarrow> m \<le> max_int64" for m
    by (auto simp: sequence_of_def split: option.splits json.splits sum.splits if_splits dest: ParseInt64_upper)
  show ?thesis
  proof (cases ?err)
    case False
    with assms(1) d have "sse kind" "kind = k" "j = event" "n = max previous ?q" "sequence_of s \<noteq> None \<or> previous \<noteq> max_int64"
      by (auto simp: prepareEvent_def Let_def split: if_splits option.splits)
    with False d bound assms(2) show ?thesis by (auto split: option.splits)
  next
    case True
    define fs where "fs = (if sequence_of s = None then set_field (dedup (case event of JObj m \<Rightarrow> m | _ \<Rightarrow> [])) ''sequence_number'' (JNum (FormatInt ?q))
      else dedup (case event of JObj m \<Rightarrow> m | _ \<Rightarrow> []))"
    from True assms(1) d have out: "sse kind" "kind = k" "n = max previous ?q" "rewrite_error k event fs = Inr j"
        "sequence_of s \<noteq> None \<or> previous \<noteq> max_int64"
      by (auto simp: prepareEvent_def Let_def fs_def split: if_splits option.splits sum.splits)
    have "distinct (map fst fs)" by (simp add: fs_def)
    from rewrite_error_shown [OF out(4) this] True out bound assms(2) show ?thesis by (auto split: option.splits)
  qed
qed


definition sample_error :: json where
  "sample_error = JObj [(''type'', JStr ''error''), (''code'', JStr ''provider_limit''), (''message'', JStr ''secret'')]"


section \<open>The shape of a streamed response\<close>

definition wire_sequence :: "json \<Rightarrow> int option" where
  "wire_sequence j = Option.bind (decode_meta j) (\<lambda>m. sequence_of (snd m))"

text \<open>An event that does not end the response, numbered at most \<open>n\<close> if it is numbered.\<close>

fun running :: "int \<Rightarrow> chunk \<Rightarrow> bool" where
  "running n (Event kind j) \<longleftrightarrow> kind \<notin> set terminal_kinds \<and> (case wire_sequence j of None \<Rightarrow> True | Some m \<Rightarrow> m \<le> n)"
| "running n (Body b) \<longleftrightarrow> False"

lemma running_mono: "running m c \<Longrightarrow> m \<le> n \<Longrightarrow> running n c"
  by (cases c) (auto split: option.splits)

definition writer_inv :: "bool \<Rightarrow> int \<Rightarrow> ResponseWriter \<Rightarrow> bool" where
  "writer_inv started sequence w \<longleftrightarrow> sequence \<le> max_int64 \<and>
     (if started then rw_Status w = Some 200 \<and> list_all (running sequence) (rw_Body w) else rw_Status w = None \<and> rw_Body w = [])"

text \<open>
  What a client may receive: nothing; one error of the table; or events, none of which ends the
  response except the last, which is then either forwarded from the provider or an error of the
  table with a number above those of all events before it.
\<close>

definition stream_end :: "int \<Rightarrow> chunk list \<Rightarrow> bool" where
  "stream_end n cs \<longleftrightarrow>
     cs = [] \<or>
     (\<exists>sse event previous m kind j. prepareEvent sse event previous = (m, Inr (j, kind)) \<and> kind \<in> set terminal_kinds \<and> cs = [Event kind j]) \<or>
     (\<exists>f. f \<in> set client_table \<and> n < max_int64 \<and> cs = [Event ''error'' (stream_error_json f (n + 1))])"

definition stream_shape :: "ResponseWriter \<Rightarrow> bool" where
  "stream_shape w \<longleftrightarrow>
     (rw_Status w = None \<and> rw_Body w = []) \<or>
     (\<exists>f. f \<in> set client_table \<and> rw_Status w = Some (ce_status f) \<and> rw_Body w \<in> {[], [Body (Some (JObj [(''error'', error_json f)]))]}) \<or>
     (rw_Status w = Some 200 \<and> (\<exists>n evs cs. rw_Body w = evs @ cs \<and> list_all (running n) evs \<and> n \<le> max_int64 \<and> stream_end n cs))"

lemma stream_shapeI:
  "rw_Status w = Some 200 \<Longrightarrow> rw_Body w = evs @ cs \<Longrightarrow> list_all (running n) evs \<Longrightarrow> n \<le> max_int64 \<Longrightarrow> stream_end n cs \<Longrightarrow> stream_shape w"
  unfolding stream_shape_def by blast

lemma stream_shape_running: "writer_inv True n w \<Longrightarrow> stream_shape w"
  by (rule stream_shapeI [where cs = "[]" and n = n]) (auto simp: writer_inv_def stream_end_def)

lemma stream_shape_quiet: "writer_inv False n w \<Longrightarrow> stream_shape w"
  by (simp add: stream_shape_def writer_inv_def)

lemma writeError_shape:
  assumes "writer_inv False n w" and "writeError t r f w = (w', committed, ok)" and "f \<in> set client_table"
  shows "stream_shape w'"
  using assms
  by (auto simp: writeError_def delivery_json_def Let_def writer_inv_def stream_shape_def set_header_def split: if_splits)

lemma sendStreamError_shape:
  assumes "writer_inv True n w" and "sendStreamError sse t f (n + 1) w = (w', ok)" and "f \<in> set client_table" and "n \<noteq> max_int64"
  shows "stream_shape w'"
proof (cases "w' = w")
  case True
  with assms(1) show ?thesis by (simp add: stream_shape_running)
next
  case False
  with assms(2) have w': "rw_Status w' = rw_Status w" "rw_Body w' = rw_Body w @ [Event ''error'' (stream_error_json f (n + 1))]"
    by (auto simp: sendStreamError_def delivery_event_def Let_def split: if_splits prod.splits)
  with assms(1,3,4) show ?thesis
    by (intro stream_shapeI [OF _ w'(2), where n = n]) (auto simp: writer_inv_def stream_end_def)
qed

lemma sendError_shape:
  assumes "writer_inv started n w" and "sendError sse t r started n err (s, e, w) = (s', e', w')"
  shows "stream_shape w'"
proof (cases started)
  case False
  with assms show ?thesis
    by (auto simp: sendError_def Let_def classify_table split: prod.splits intro: writeError_shape)
next
  case True
  with assms show ?thesis
    by (auto simp: sendError_def Let_def classify_table stream_shape_running split: prod.splits if_splits intro: sendStreamError_shape)
qed

lemma delivery_event_step:
  assumes inv: "writer_inv started m w" and prep: "prepareEvent sse event m = (n, Inr (j, kind))"
    and del: "delivery_event sse t kind j (\<not> started) w = (w', committed, ok)"
  shows "(ok \<and> kind \<notin> set terminal_kinds \<longrightarrow> writer_inv True n w') \<and> stream_shape w'"
proof -
  from inv have m: "m \<le> max_int64" by (simp add: writer_inv_def)
  note p = prepareEvent_Inr [OF prep m]
  from inv p have old: "list_all (running n) (rw_Body w)" and n: "n \<le> max_int64"
    by (auto simp: writer_inv_def list_all_iff split: if_splits intro: running_mono)
  have run: "running n (Event kind j)" if "kind \<notin> set terminal_kinds"
  proof -
    from that have "kind \<noteq> ''error''" "kind \<noteq> ''response.failed''" by (auto simp: terminal_kinds_def)
    with p have "j = event" "\<And>k s m. decode_meta event = Some (k, s) \<Longrightarrow> sequence_of s = Some m \<Longrightarrow> m \<le> n" by auto
    with that show ?thesis by (auto simp: wire_sequence_def bind_eq_Some_conv split: option.splits)
  qed
  consider (none) "w' = w" "\<not> ok" | (head) "rw_Status w' = Some 200" "rw_Body w' = rw_Body w" "\<not> ok"
    | (sent) "rw_Status w' = Some 200" "rw_Body w' = rw_Body w @ [Event kind j]"
    using del inv by (auto simp: delivery_event_def Let_def writer_inv_def set_header_def split: if_splits)
  then show ?thesis
  proof cases
    case none
    with inv show ?thesis by (cases started) (simp_all add: stream_shape_running stream_shape_quiet)
  next
    case head
    with old n show ?thesis by (auto intro: stream_shapeI [where cs = "[]"] simp: stream_end_def)
  next
    case sent
    show ?thesis
    proof (cases "kind \<in> set terminal_kinds")
      case True
      have "stream_end n [Event kind j]" unfolding stream_end_def using prep True by blast
      from stream_shapeI [OF sent old n this] True show ?thesis by simp
    next
      case False
      with sent old n run have "writer_inv True n w'" by (simp add: writer_inv_def)
      then show ?thesis by (simp add: stream_shape_running)
    qed
  qed
qed

lemma stream_loop_shape:
  "stream_loop sse ord r ts started m (s, e, w) = Some (s', e', w') \<Longrightarrow> writer_inv started m w \<Longrightarrow> stream_shape w'"
proof (induction ts arbitrary: started m s e w)
  case (Cons t ts)
  obtain s1 e1 res where nx: "EStream_Next ord (gt_now t) (gt_read t) (gt_delivery t) s (gt_others t e) = (s1, e1, res)"
    by (metis prod_cases3)
  show ?case
  proof (cases res)
    case (Inl err)
    with Cons.prems nx show ?thesis by (auto intro: sendError_shape)
  next
    case (Inr event)
    obtain n p where pe: "prepareEvent sse event m = (n, p)" by (cases "prepareEvent sse event m")
    show ?thesis
    proof (cases p)
      case (Inl err)
      have "n = m" using pe [unfolded Inl] by (auto simp: prepareEvent_def Let_def split: option.splits if_splits sum.splits)
      with Cons.prems nx Inr pe Inl show ?thesis by (auto intro: sendError_shape)
    next
      case p: (Inr jk)
      obtain j kind where jk: "jk = (j, kind)" by (cases jk)
      obtain w1 committed ok where del: "delivery_event sse (gt_write t) kind j (\<not> started) w = (w1, committed, ok)" by (metis prod_cases3)
      note step = delivery_event_step [OF Cons.prems(2) pe [unfolded p jk] del]
      show ?thesis
      proof (cases "ok \<and> kind \<notin> set terminal_kinds")
        case True
        with Cons.prems(1) nx Inr pe p jk del have
          "stream_loop sse ord r ts True n (s1, if committed then EStream_ResponseStarted s1 e1 else e1, w1) = Some (s', e', w')" by (simp add: Let_def)
        from Cons.IH [OF this] step True show ?thesis by simp
      next
        case False
        with Cons.prems(1) nx Inr pe p jk del have "w' = w1" by (auto simp: Let_def split: if_splits)
        with step show ?thesis by simp
      qed
    qed
  qed
qed simp

end
