(* ===== verification/GatewaySafety.thy ===== *)
theory GatewaySafety
  imports GatewayLaws AttemptLaws StreamLaws RequestOrder
begin

text \<open>
  The handlers end to end: the shape of what a streaming client receives, and that whatever happens
  between admission and delivery, the slot of the request is given back.
\<close>

section \<open>The streamed response\<close>

lemma reject_shape:
  assumes "reject t r meta f w e = (e', w')" and "f \<in> set client_table" and "rw_Status w = None" "rw_Body w = []"
  shows "stream_shape w'"
proof -
  obtain w1 c ok where we: "writeError (rt_write t) r f (closeUnreadConnection r w) = (w1, c, ok)" by (metis prod_cases3)
  have "writer_inv False 0 (closeUnreadConnection r w)"
    using assms(3,4) by (simp add: writer_inv_def closeUnreadConnection_def set_header_def max_int64_def)
  from writeError_shape [OF this we assms(2)] assms(1) we show ?thesis by (auto simp: reject_def Let_def split: if_splits)
qed

text \<open>
  C15. On every path of the streaming handler, from refusal through provider failure to completion and
  with any write failing, the client receives nothing, or one error of the table, or a run of events
  of which only the last can end the response; an error event that the gateway adds is an error of
  the table and its sequence number exceeds every number sent before it.
\<close>

theorem stream_response_shape:
  assumes "handler_stream g key r meta input w e = (e', Some w')" and "rw_Status w = None" and "rw_Body w = []"
  shows "stream_shape w'"
proof -
  obtain e1 res where st: "Executor_Stream (ge_store g) (ge_call g) key (md_info meta) input e = (e1, res)"
    by (cases "Executor_Stream (ge_store g) (ge_call g) key (md_info meta) input e")
  with assms(1) obtain s openErr where res: "res = Some (s, openErr)" by (cases res) (auto simp: handler_stream_def)
  show ?thesis
  proof (cases s)
    case None
    obtain e2 w2 where "reject (ge_reject g) r meta (classify (the openErr)) w e1 = (e2, w2)"
      by (cases "reject (ge_reject g) r meta (classify (the openErr)) w e1")
    with assms(1) st res None reject_shape [OF this classify_table assms(2,3)] show ?thesis by (simp add: handler_stream_def)
  next
    case (Some s1)
    with assms(1) st res obtain s2 e2 where b: "stream_body g r openErr (s1, e1, w) = Some (s2, e2, w')"
      by (auto simp: handler_stream_def split: option.splits)
    have inv: "writer_inv False (-1) w" using assms(2,3) by (simp add: writer_inv_def max_int64_def)
    show ?thesis
    proof (cases openErr)
      case None
      with b have "stream_loop (ge_sse g) (ge_ord g) r (ge_turns g) False (-1) (s1, e1, w) = Some (s2, e2, w')" by (simp add: stream_body_def)
      from stream_loop_shape [OF this inv] show ?thesis .
    next
      case (Some err)
      with b have "sendError (ge_sse g) (ge_open_write g) r False (-1) err (s1, e1, w) = (s2, e2, w')" by (simp add: stream_body_def)
      from sendError_shape [OF inv this] show ?thesis .
    qed
  qed
qed

section \<open>No slot is left behind\<close>

lemma EStream_Next_local:
  assumes "EStream_Next ord now rd d s e = (s', e', res)"
  shows "es_request s' = es_request s" "es_once s' = es_once s"
  using assms EStream_noteFailure_frame
  by (auto simp: EStream_Next_def Let_def split: option.splits prod.splits sum.splits)

lemma sendError_local:
  assumes "sendError sse t r started n err (s, e, w) = (s', e', w')"
  shows "es_request s' = es_request s \<and> es_once s' = es_once s"
  using assms by (auto simp: sendError_def Let_def EStream_DeliveryFailed_def split: if_splits prod.splits)

lemma stream_loop_local:
  "stream_loop sse ord r ts started n (s, e, w) = Some (s', e', w') \<Longrightarrow> es_request s' = es_request s \<and> es_once s' = es_once s"
proof (induction ts arbitrary: started n s e w)
  case (Cons t ts)
  obtain s1 e1 res where nx: "EStream_Next ord (gt_now t) (gt_read t) (gt_delivery t) s (gt_others t e) = (s1, e1, res)"
    by (metis prod_cases3)
  note local = EStream_Next_local [OF nx]
  show ?case
  proof (cases res)
    case (Inl err)
    with Cons.prems nx local show ?thesis by (auto dest!: sendError_local)
  next
    case (Inr event)
    obtain m p where pe: "prepareEvent sse event n = (m, p)" by (cases "prepareEvent sse event n")
    show ?thesis
    proof (cases p)
      case (Inl err)
      with Cons.prems nx Inr pe local show ?thesis by (auto dest!: sendError_local simp: EStream_DeliveryFailed_def)
    next
      case p: (Inr jk)
      obtain j kind where jk: "jk = (j, kind)" by (cases jk)
      obtain w1 committed ok where del: "delivery_event sse (gt_write t) kind j (\<not> started) w = (w1, committed, ok)" by (metis prod_cases3)
      from Cons.prems nx Inr pe p jk del local Cons.IH [of True m s1 _ w1] show ?thesis
        by (auto simp: Let_def EStream_DeliveryFailed_def split: if_splits)
    qed
  qed
qed simp

lemma EStream_finish_active:
  assumes "EStream_finish cctx cf now io finished s e = (s', e')" and "\<not> es_once s"
  shows "es_request s \<notin> set (ex_active e')"
proof -
  obtain e1 result err where "e' = Executor_finish io finished (es_request s) result err e1"
    using EStream_finish_runs [OF assms(2,1)] by blast
  then show ?thesis by (simp add: Executor_finish_frame)
qed

lemma generate_loop_local:
  "generate_loop ord ds cctx cf s e = Some (s', e', result, cleanup, err) \<Longrightarrow> es_request s' = es_request s \<and> es_once s' = es_once s"
proof (induction ds arbitrary: s e)
  case (Cons d ds)
  obtain now rd dl where d: "d = (now, rd, dl)" by (metis prod_cases3)
  obtain s1 e1 res where nx: "EStream_Next ord now rd dl s e = (s1, e1, res)" by (metis prod_cases3)
  with Cons d EStream_Next_local [OF nx] show ?case by (cases res) (auto simp: Let_def)
qed simp

lemma reject_active: "reject t r meta f w e = (e', w') \<Longrightarrow> ex_active e' = ex_active e"
  by (auto simp: reject_def Let_def RecordRejection_def recordResult_def set_db_def split: if_splits prod.splits)

lemma not_yet_active: "exec_inv e \<Longrightarrow> length (ex_requests e) \<notin> set (ex_active e)"
  using exec_invD(2) by fastforce

lemma handler_stream_active:
  assumes inv: "exec_inv e" and run: "handler_stream g key r meta input w e = (e', Some w')"
  shows "length (ex_requests e) \<notin> set (ex_active e')"
proof -
  obtain e1 res where st: "Executor_Stream (ge_store g) (ge_call g) key (md_info meta) input e = (e1, res)"
    by (cases "Executor_Stream (ge_store g) (ge_call g) key (md_info meta) input e")
  with run obtain s openErr where res: "res = Some (s, openErr)" by (cases res) (auto simp: handler_stream_def)
  from Executor_Stream_cases [OF st [unfolded res]] show ?thesis
  proof (elim disjE exE conjE)
    assume none: "s = None" and e1: "e1 = e"
    obtain e2 w2 where rej: "reject (ge_reject g) r meta (classify (the openErr)) w e1 = (e2, w2)"
      by (cases "reject (ge_reject g) r meta (classify (the openErr)) w e1")
    with run st res none have "e' = e2" by (simp add: handler_stream_def)
    with reject_active [OF rej] e1 not_yet_active [OF inv] show ?thesis by simp
  next
    fix x assume s: "s = Some x" and x: "es_request x = length (ex_requests e)" "\<not> es_once x"
    from run st res s obtain s2 e2 where b: "stream_body g r openErr (x, e1, w) = Some (s2, e2, w')"
      and e': "e' = snd (close_stream (ge_close g) s2 e2)"
      by (auto simp: handler_stream_def split: option.splits)
    have "es_request s2 = es_request x \<and> es_once s2 = es_once x"
      using b by (cases openErr) (auto simp: stream_body_def dest: sendError_local stream_loop_local)
    with x EStream_finish_active [of "cl_ctx (ge_close g)" "cl_fails (ge_close g)" "cl_now (ge_close g)" "cl_io (ge_close g)" "cl_finished (ge_close g)" s2 e2]
    show ?thesis by (cases "close_stream (ge_close g) s2 e2") (simp add: e' close_stream_def)
  qed
qed

lemma Executor_Generate_cases:
  assumes "Executor_Generate env c ord ds cctx cf key info input e = (e', Some (s, result, cleanup, err))"
  shows "(s = None \<and> e' = e) \<or> (\<exists>x. s = Some x \<and> es_request x = length (ex_requests e) \<and> \<not> es_once x)"
proof -
  obtain e1 res where st: "Executor_Stream env c key info input e = (e1, res)" by (cases "Executor_Stream env c key info input e")
  with assms obtain s1 openErr where res: "res = Some (s1, openErr)" by (cases res) (auto simp: Executor_Generate_def)
  from Executor_Stream_cases [OF st [unfolded res]] show ?thesis
  proof (elim disjE exE conjE)
    assume "s1 = None" "e1 = e"
    with assms st res show ?thesis by (auto simp: Executor_Generate_def)
  next
    fix x assume x: "s1 = Some x" "es_request x = length (ex_requests e)" "\<not> es_once x"
    with assms st res show ?thesis
      by (cases openErr) (auto simp: Executor_Generate_def split: option.splits dest: generate_loop_local)
  qed
qed

lemma deliver_generated_local:
  assumes "deliver_generated t r result cleanup err (s, e, w) = (s', e', w')"
  shows "es_request s' = es_request s" "es_once s' = es_once s"
  using assms by (auto simp: deliver_generated_def Let_def EStream_DeliveryFailed_def split: prod.splits if_splits)

lemma handler_generate_active:
  assumes inv: "exec_inv e" and run: "handler_generate g ds key r meta input w e = (e', Some w')"
  shows "length (ex_requests e) \<notin> set (ex_active e')"
proof -
  let ?gen = "Executor_Generate (ge_store g) (ge_call g) (ge_ord g) ds (cl_ctx (ge_close g)) (cl_fails (ge_close g)) key (md_info meta) input e"
  obtain e1 out where gen: "?gen = (e1, out)" by (cases ?gen)
  with run obtain s result cleanup err where out: "out = Some (s, result, cleanup, err)"
    by (cases out) (auto simp: handler_generate_def)
  from Executor_Generate_cases [OF gen [unfolded out]] show ?thesis
  proof (elim disjE exE conjE)
    assume none: "s = None" and e1: "e1 = e"
    obtain e2 w2 where rej: "reject (ge_reject g) r meta (classify (the err)) w e1 = (e2, w2)"
      by (cases "reject (ge_reject g) r meta (classify (the err)) w e1")
    with run gen out none have "e' = e2" by (simp add: handler_generate_def)
    with reject_active [OF rej] e1 not_yet_active [OF inv] show ?thesis by simp
  next
    fix x assume s: "s = Some x" and x: "es_request x = length (ex_requests e)" "\<not> es_once x"
    obtain y e2 w2 where d: "deliver_generated (ge_open_write g) r result cleanup err (x, e1, w) = (y, e2, w2)" by (metis prod_cases3)
    note y = deliver_generated_local [OF d]
    from run gen out s d have e': "e' = snd (close_stream (ge_close g) y e2)" by (simp add: handler_generate_def)
    from x y EStream_finish_active [of "cl_ctx (ge_close g)" "cl_fails (ge_close g)" "cl_now (ge_close g)" "cl_io (ge_close g)" "cl_finished (ge_close g)" y e2]
    show ?thesis by (cases "close_stream (ge_close g) y e2") (simp add: e' close_stream_def)
  qed
qed


section \<open>A request through the gateway\<close>

definition good_write :: write_turn where "good_write = \<lparr>wt_begin = True, wt_write = True, wt_flush = True\<rparr>"

definition shop_reject :: reject_turn where
  "shop_reject = \<lparr>rt_write = good_write, rt_ctx = None, rt_io = None, rt_finished = 9\<rparr>"

definition shop_call :: stream_call where
  "shop_call = \<lparr>sc_sha = (\<lambda>_. toy_hash), sc_io_find = None, sc_ctx1 = None, sc_ctx2 = None, sc_now = 5, sc_io_list = None,
     sc_snapshot = toy_turns, sc_others = (\<lambda>e. e), sc_turns = (shop_turn, shop_turn, shop_turn)\<rparr>"

definition shop_delta :: json where
  "shop_delta = JObj [(''type'', JStr ''response.created''), (''sequence_number'', JNum ''0'')]"

definition shop_event :: "json \<Rightarrow> gw_turn" where
  "shop_event j = \<lparr>gt_others = (\<lambda>e. e), gt_now = (9, 9), gt_read = toy_read, gt_delivery = Delivered [] (Some j) 0,
     gt_write = good_write, gt_error_write = good_write\<rparr>"

definition shop_gw :: gw_env where
  "shop_gw = \<lparr>ge_sse = (\<lambda>_. True), ge_ord = id, ge_store = toy_env, ge_codex = toy_env_codex, ge_call = shop_call,
     ge_reject = shop_reject, ge_open_write = good_write, ge_turns = [shop_event shop_delta, shop_event toy_completed],
     ge_close = \<lparr>cl_ctx = background, cl_fails = False, cl_now = (9, 9), cl_io = None, cl_finished = 9\<rparr>\<rparr>"

definition shop_request :: HTTPRequest where
  "shop_request = \<lparr>hr_Method = ''POST'', hr_Path = ''/v1/responses'', hr_RawQuery = [], hr_Authorization = [''Bearer '' @ shop_key],
     hr_ContentType = ''application/json'', hr_ContentEncoding = [], hr_ProtoMajor = 2, hr_HasBody = True, hr_ContentLength = 9\<rparr>"

definition shop_meta :: requestMetadata where
  "shop_meta = \<lparr>md_info = \<lparr>ri_ID = ''req_1'', ri_Started = 5\<rparr>, md_keyID = ''k1'', md_model = ''m''\<rparr>"

definition shop_run :: "Executor \<times> ResponseWriter option" where
  "shop_run = handler_stream shop_gw shop_key shop_request shop_meta shop_input fresh_writer (New_Executor shop_world)"

definition shop_kinds :: "ResponseWriter option \<Rightarrow> int option \<times> string list" where
  "shop_kinds w = (case w of None \<Rightarrow> (None, []) | Some w \<Rightarrow> (rw_Status w, map (\<lambda>c. case c of Event k _ \<Rightarrow> k | Body _ \<Rightarrow> []) (rw_Body w)))"

theorem stream_response_shape_witness:
  "\<exists>w. snd shop_run = Some w \<and> stream_shape w \<and> shop_kinds (Some w) = (Some 200, [''response.created'', ''response.completed''])"
proof -
  have k: "shop_kinds (snd shop_run) = (Some 200, [''response.created'', ''response.completed''])" by code_simp
  then obtain w where w: "snd shop_run = Some w" by (cases "snd shop_run") (simp_all add: shop_kinds_def)
  then have "handler_stream shop_gw shop_key shop_request shop_meta shop_input fresh_writer (New_Executor shop_world) = (fst shop_run, Some w)"
    unfolding shop_run_def by (metis prod.collapse)
  from stream_response_shape [OF this] w k show ?thesis by (simp add: fresh_writer_def)
qed

definition shop_body :: json where
  "shop_body = JObj [(''model'', JStr ''m''), (''input'', JStr ''hi''), (''stream'', JBool True)]"

text \<open>The store fails while the catalog is synchronised, so the admitted request ends with an error.\<close>

definition shop_failing :: gw_env where
  "shop_failing = shop_gw\<lparr>ge_call := shop_call\<lparr>sc_io_list := Some (PlainErr ''disk'')\<rparr>\<rparr>"

definition shop_served :: "Executor \<times> ResponseWriter option" where
  "shop_served = handler_responses shop_failing [] (Some ''application/json'') (Inr (60, Some shop_body)) shop_request shop_meta fresh_writer
     (New_Executor shop_world)"


end
