(* ===== verification/Management.thy ===== *)
theory Management
  imports Attempts
begin

text \<open>
  \<open>internal/management\<close> except the usage endpoints: authentication of the administrator, error reports,
  listing with filters and pages, and the key and account operations. The HTTP framework decodes
  requests and encodes responses, so a handler is a function from its input record to its output
  record or a problem. Go's \<open>strings.ToLower\<close> on non-ASCII text is the parameter \<open>lower\<close>, and a
  problem's title is left out because it is the standard text of its status.
\<close>

section \<open>Authentication\<close>

definition token_char :: "char \<Rightarrow> bool" where
  "token_char c \<longleftrightarrow>
     (let letterOrDigit = list_ex (\<lambda>(low, high). low \<le> c \<and> c \<le> high) [(CHR ''a'', CHR ''z''), (CHR ''A'', CHR ''Z''), (CHR ''0'', CHR ''9'')]
      in letterOrDigit \<or> c \<in> set ''-._~+/'')"

fun token_rest :: "bool \<Rightarrow> string \<Rightarrow> bool" where
  "token_rest padding [] = True"
| "token_rest padding (c # cs) =
     (if c = CHR ''='' then token_rest True cs
      else if padding \<or> \<not> token_char c then False
      else token_rest padding cs)"

definition validToken :: "string \<Rightarrow> bool" where
  "validToken token = (case token of [] \<Rightarrow> False | c # _ \<Rightarrow> if c = CHR ''='' then False else token_rest False token)"

definition ValidateConfig :: "string \<Rightarrow> error option" where
  "ValidateConfig admin =
     (if \<not> validToken admin \<or> HasPrefix admin ''clan_'' then Some (PlainErr ''management: a separate valid admin token is required'') else None)"

text \<open>\<open>values\<close> are the \<open>Authorization\<close> headers; \<open>Get\<close> takes the first. Both hashes are compared in constant time.\<close>

definition authenticated :: "(bytes \<Rightarrow> bytes) \<Rightarrow> string \<Rightarrow> string list \<Rightarrow> bool" where
  "authenticated sha token vs =
     (let (scheme, credential, found) = Cut (case vs of [] \<Rightarrow> [] | v # _ \<Rightarrow> v) CHR '' '';
          credential = dropWhile (\<lambda>c. c = CHR '' '') credential;
          validScheme = (found \<and> EqualFold scheme ''Bearer'' \<and> length vs = 1)
      in \<not> (\<not> validScheme \<or> sha credential \<noteq> sha token))"

section \<open>Problems\<close>

record problem =
  pb_Status :: int
  pb_Type :: string
  pb_Detail :: string
  pb_Errors :: "(string \<times> string) list" \<comment> \<open>location and message\<close>

definition problem_of :: "int \<Rightarrow> string \<Rightarrow> string \<Rightarrow> problem" where
  "problem_of status kind detail = \<lparr>pb_Status = status, pb_Type = ''/api/problems/'' @ kind, pb_Detail = detail, pb_Errors = []\<rparr>"

definition unauthorized :: problem where
  "unauthorized = problem_of 401 ''unauthorized'' ''A valid admin token is required.''"

definition invalid_fields :: string where
  "invalid_fields = ''The request does not match the required fields or allowed values.''"

text \<open>\<open>safeErrors\<close>: the framework's own error reports are replaced, ours only lose their entries.\<close>

definition safe_locations :: "string list" where
  "safe_locations = [''body'', ''body.name'', ''body.concurrency_limit'', ''body.login_id'', ''query.limit'', ''query.offset'',
     ''query.q'', ''query.state'', ''query.enabled'', ''path.id'', ''query.from'', ''query.to'', ''query.group_by'',
     ''query.key_id'', ''query.account_id'', ''query.model'', ''query.result'', ''query.cursor'']"

definition safe_location :: "string \<Rightarrow> string" where
  "safe_location l =
     (if l \<in> set safe_locations then l
      else if HasPrefix l ''query.'' then ''query''
      else if HasPrefix l ''body.'' then ''body''
      else ''request'')"

definition safe_detail :: "int \<Rightarrow> string \<times> string" where
  "safe_detail status =
     (if status = 400 then (''invalid-request'', ''The request could not be parsed.'')
      else if status = 422 then (''invalid-request'', invalid_fields)
      else if status = 413 then (''body-too-large'', ''The request body exceeds 64 KiB.'')
      else if status = 415 then (''unsupported-media-type'', ''Use Content-Type: application/json.'')
      else if status = 408 then (''body-timeout'', ''The request body was not received in time.'')
      else (''invalid-request'', ''The request is invalid.''))"

definition safeErrors :: "problem \<Rightarrow> problem" where
  "safeErrors v =
     (if pb_Type v \<noteq> [] \<and> pb_Type v \<noteq> ''about:blank'' then v\<lparr>pb_Errors := []\<rparr>
      else (case safe_detail (pb_Status v) of (kind, detail) \<Rightarrow>
        (problem_of (pb_Status v) kind detail)\<lparr>pb_Errors := map (\<lambda>(l, _). (safe_location l, ''Invalid or missing value.'')) (pb_Errors v)\<rparr>))"

definition failure_problem :: "error \<Rightarrow> bool \<Rightarrow> problem" where
  "failure_problem err mutation =
     (if is_ctx err DeadlineExceeded \<or> is_ctx err Canceled then
        (if mutation
         then problem_of 503 ''completion-unconfirmed'' ''Operation completion is unconfirmed; the resource may already have changed.''
         else problem_of 503 ''unavailable'' ''The operation could not finish in time.'')
      else if errors_Is err ErrNotFound then problem_of 404 ''not-found'' ''The resource was not found.''
      else if errors_Is err OAuthErrLoginPending then problem_of 409 ''login-pending'' ''A login is already pending.''
      else if errors_Is err OAuthErrLoginMismatch
        then problem_of 409 ''login-mismatch'' ''The login ID does not match the latest attempt.''
      else if errors_Is err OAuthErrDisabled then problem_of 409 ''account-disabled'' ''The account is disabled.''
      else if errors_Is err OAuthErrNeedsSignIn then problem_of 409 ''needs-sign-in'' ''The account needs to sign in again.''
      else if errors_Is err ErrConflict then problem_of 409 ''state-conflict'' ''The resource changed or already exists.''
      else if errors_Is err ErrInvalid \<or> errors_Is err OAuthErrInvalidLogin then problem_of 422 ''invalid-request'' invalid_fields
      else if errors_Is err ErrCatalogUnavailable \<or> errors_Is err ErrClosed \<or> errors_Is err ErrUnavailable \<or>
              errors_Is err OAuthErrClosed \<or> errors_Is err OAuthErrUnavailable
        then problem_of 503 ''unavailable'' ''The service is temporarily unavailable.''
      else problem_of 500 ''internal-error'' ''The operation failed.'')"

definition failure :: "error option \<Rightarrow> bool \<Rightarrow> problem option" where
  "failure err mutation = map_option (\<lambda>e. failure_problem e mutation) err"

text \<open>
  The middleware before every operation: the decoded query (an error, or the values of each name, in
  the map's order) and the media type that \<open>mime.ParseMediaType\<close> gives. The status refused, if any.
\<close>

definition query_refused :: "(string \<times> string list) list option \<Rightarrow> bool \<Rightarrow> string option \<Rightarrow> int option" where
  "query_refused query has_body mediaType =
     (case query of
        None \<Rightarrow> Some 400
      | Some q \<Rightarrow>
          if list_ex (\<lambda>(name, vs). length vs \<noteq> 1 \<or> (hd vs = [] \<and> name \<noteq> ''q'')) q then Some 422
          else if has_body \<and> mediaType \<noteq> Some ''application/json'' then Some 415
          else None)"

section \<open>Pages\<close>

record ListInput =
  li_Limit :: int
  li_Offset :: int
  li_Q :: string

record 'a page =
  pg_Items :: "'a list"
  pg_Total :: int
  pg_Limit :: int
  pg_Offset :: int

definition paginate :: "'a list \<Rightarrow> ListInput \<Rightarrow> 'a page" where
  "paginate items i =
     (let n = int (length items);
          start = min (li_Offset i) n;
          end = start + min (li_Limit i) (n - start)
      in \<lparr>pg_Items = take (nat (end - start)) (drop (nat start) items), pg_Total = n, pg_Limit = li_Limit i, pg_Offset = li_Offset i\<rparr>)"

definition Contains :: "string \<Rightarrow> string \<Rightarrow> bool" where
  "Contains s p \<longleftrightarrow> list_ex (\<lambda>i. HasPrefix (drop i s) p) [0..<Suc (length s)]"

definition matches :: "(string \<Rightarrow> string) \<Rightarrow> string \<Rightarrow> string \<Rightarrow> string \<Rightarrow> bool" where
  "matches lower query i name \<longleftrightarrow> Contains (lower i) (lower query) \<or> Contains (lower name) (lower query)"

record modelView =
  mv_ID :: string
  mv_Name :: string

definition listModels :: "(string \<Rightarrow> string) \<Rightarrow> ListInput \<Rightarrow> Model list \<times> error option \<Rightarrow> problem + modelView page" where
  "listModels lower input r =
     (case snd r of
        Some err \<Rightarrow> Inl (failure_problem err False)
      | None \<Rightarrow> Inr (paginate (map (\<lambda>m. \<lparr>mv_ID = m_ID m, mv_Name = m_Name m\<rparr>)
                                 (filter (\<lambda>m. matches lower (li_Q input) (m_ID m) (m_Name m)) (fst r))) input))"

section \<open>Keys\<close>

record KeyView =
  kv_ID :: string
  kv_Name :: string
  kv_Enabled :: bool
  kv_ConcurrencyLimit :: int

text \<open>\<open>newID\<close> is \<open>rand.Text()\<close> and \<open>secret\<close> the random bytes of \<open>Generate\<close>.\<close>

definition createKey ::
  "(bytes \<Rightarrow> VerificationHash) \<Rightarrow> error option \<Rightarrow> string \<Rightarrow> bytes \<Rightarrow> string \<Rightarrow> int \<Rightarrow> Executor \<Rightarrow> Executor \<times> (problem + KeyView \<times> string)" where
  "createKey sha io newID secret name limit e =
     (case AccessKey_New \<lparr>ki_ID = newID, ki_Name = name\<rparr> True of
        Inl err \<Rightarrow> (e, Inl (failure_problem err True))
      | Inr key \<Rightarrow>
          (let (raw, hash) = Generate sha secret in
           case CreateAccessKey io (ex_db e) key hash limit of
             (db, Some err) \<Rightarrow> (set_db db e, Inl (failure_problem err True))
           | (db, None) \<Rightarrow>
               (set_db db e, Inr (\<lparr>kv_ID = ki_ID (ak_identity key), kv_Name = ki_Name (ak_identity key), kv_Enabled = True,
                                    kv_ConcurrencyLimit = limit\<rparr>, raw))))"

definition key_view :: "AccessKeyRecord \<Rightarrow> KeyView" where
  "key_view r = \<lparr>kv_ID = ki_ID (ak_identity (akr_Key r)), kv_Name = ki_Name (ak_identity (akr_Key r)), kv_Enabled = ak_enabled (akr_Key r),
     kv_ConcurrencyLimit = akr_ConcurrencyLimit r\<rparr>"

definition key_listed :: "(string \<Rightarrow> string) \<Rightarrow> ListInput \<Rightarrow> string \<Rightarrow> AccessKeyRecord \<Rightarrow> bool" where
  "key_listed lower input enabled r \<longleftrightarrow>
     matches lower (li_Q input) (ki_ID (ak_identity (akr_Key r))) (ki_Name (ak_identity (akr_Key r))) \<and>
     \<not> (enabled \<noteq> [] \<and> ak_enabled (akr_Key r) \<noteq> (enabled = ''true''))"

definition listKeys ::
  "(string \<Rightarrow> string) \<Rightarrow> error option \<Rightarrow> ListInput \<Rightarrow> string \<Rightarrow> DB \<Rightarrow> problem + KeyView page" where
  "listKeys lower io input enabled db =
     (case ListAccessKeys io db of
        Inl err \<Rightarrow> Inl (failure_problem err False)
      | Inr records \<Rightarrow> Inr (paginate (map key_view (filter (key_listed lower input enabled) records)) input))"

text \<open>
  A mutation that goes through \<open>change\<close>: \<open>others\<close> is what happens while it waits, \<open>ctx\<close> the state of
  its context then. The outer \<open>None\<close> means that it has not returned.
\<close>

definition run_change ::
  "ctx_error option \<Rightarrow> (Executor \<Rightarrow> Executor) \<Rightarrow> Executor \<times> (error option \<times> nat list) option \<Rightarrow> Executor \<times> problem option option" where
  "run_change ctx others r =
     (case r of
        (e, None) \<Rightarrow> (e, None)
      | (e, Some started) \<Rightarrow> (others e, map_option (\<lambda>err. failure err True) (change_wait ctx started (others e))))"

definition updateKey ::
  "StoreEnv \<Rightarrow> error option \<Rightarrow> ctx_error option \<Rightarrow> (Executor \<Rightarrow> Executor) \<Rightarrow> string \<Rightarrow> int \<Rightarrow> Executor \<Rightarrow> Executor \<times> problem option option" where
  "updateKey env io ctx others i limit e = run_change ctx others (SetConcurrency env io i limit e)"

definition revokeKey ::
  "StoreEnv \<Rightarrow> error option \<Rightarrow> ctx_error option \<Rightarrow> (Executor \<Rightarrow> Executor) \<Rightarrow> string \<Rightarrow> Executor \<Rightarrow> Executor \<times> problem option option" where
  "revokeKey env io ctx others i e = run_change ctx others (RevokeKey env io i e)"

section \<open>Accounts\<close>

record accountView =
  av_ID :: string
  av_Name :: string
  av_State :: string
  av_ExpiresAt :: "time option"
  av_RetryAt :: "time option"

definition state_name :: "AccountState \<Rightarrow> string" where
  "state_name st =
     (case st of StateConnected \<Rightarrow> ''connected'' | StateRefreshing \<Rightarrow> ''refreshing'' | StateUnavailable \<Rightarrow> ''temporarily_unavailable''
      | StateNeedsSignIn \<Rightarrow> ''needs_sign_in'' | StateDisabled \<Rightarrow> ''disabled'')"

definition optionalDate :: "time \<Rightarrow> time option" where
  "optionalDate t = (if time_IsZero t then None else Some t)"

definition accountResponse :: "AccountStatus \<Rightarrow> accountView" where
  "accountResponse s = \<lparr>av_ID = ai_ID (as_Identity s), av_Name = ai_Name (as_Identity s), av_State = state_name (as_State s),
     av_ExpiresAt = optionalDate (as_ExpiresAt s), av_RetryAt = optionalDate (as_RetryAt s)\<rparr>"

definition account_listed :: "(string \<Rightarrow> string) \<Rightarrow> ListInput \<Rightarrow> string \<Rightarrow> AccountStatus \<Rightarrow> bool" where
  "account_listed lower input state s \<longleftrightarrow>
     matches lower (li_Q input) (ai_ID (as_Identity s)) (ai_Name (as_Identity s)) \<and> \<not> (state \<noteq> [] \<and> state \<noteq> state_name (as_State s))"

definition listAccounts ::
  "(string \<Rightarrow> string) \<Rightarrow> StoreEnv \<Rightarrow> error option \<Rightarrow> time \<Rightarrow> ListInput \<Rightarrow> string \<Rightarrow> World \<Rightarrow> problem + accountView page" where
  "listAccounts lower env io now input state w =
     (case List_accounts env io now w of
        Inl err \<Rightarrow> Inl (failure_problem err False)
      | Inr statuses \<Rightarrow> Inr (paginate (map accountResponse (filter (account_listed lower input state) statuses)) input))"

definition getAccount :: "StoreEnv \<Rightarrow> error option \<Rightarrow> time \<Rightarrow> string \<Rightarrow> World \<Rightarrow> problem + accountView" where
  "getAccount env io now i w =
     (case Status env io now w i of Inl err \<Rightarrow> Inl (failure_problem err False) | Inr s \<Rightarrow> Inr (accountResponse s))"

definition disableAccount ::
  "StoreEnv \<Rightarrow> error option \<Rightarrow> (World \<Rightarrow> World) \<Rightarrow> error option \<Rightarrow> ctx_error option \<Rightarrow> ctx_error option \<Rightarrow> (Executor \<Rightarrow> Executor) \<Rightarrow> string \<Rightarrow>
   Executor \<Rightarrow> Executor \<times> problem option option" where
  "disableAccount env io1 quiet io2 ctx1 ctx2 others i e = run_change ctx2 others (Executor_DisableAccount env io1 quiet io2 ctx1 i e)"

definition enableAccount ::
  "StoreEnv \<Rightarrow> enable_turn list \<Rightarrow> error option \<Rightarrow> ctx_error option \<Rightarrow> ctx_error option \<Rightarrow> (Executor \<Rightarrow> Executor) \<Rightarrow> string \<Rightarrow>
   Executor \<Rightarrow> Executor \<times> problem option option" where
  "enableAccount env turns io ctx1 ctx2 others i e = run_change ctx2 others (Executor_EnableAccount env turns io ctx1 i e)"

definition deleteAccount ::
  "StoreEnv \<Rightarrow> error option \<Rightarrow> (World \<Rightarrow> World) \<Rightarrow> error option \<Rightarrow> ctx_error option \<Rightarrow> ctx_error option \<Rightarrow> (Executor \<Rightarrow> Executor) \<Rightarrow> string \<Rightarrow>
   Executor \<Rightarrow> Executor \<times> problem option option" where
  "deleteAccount env io1 quiet io2 ctx1 ctx2 others i e = run_change ctx2 others (Executor_DeleteAccount env io1 quiet io2 ctx1 i e)"

section \<open>Sign-in\<close>

record loginView =
  lv_LoginID :: string
  lv_AccountID :: string
  lv_URL :: string
  lv_ExpiresAt :: time

definition loginResponse :: "string \<times> string \<times> string \<times> time \<Rightarrow> loginView" where
  "loginResponse x = (case x of (loginID, url, account, expires) \<Rightarrow>
     \<lparr>lv_LoginID = loginID, lv_AccountID = account, lv_URL = url, lv_ExpiresAt = expires\<rparr>)"

definition login_result ::
  "Manager \<times> (string \<times> string \<times> string \<times> time) result \<Rightarrow> Manager \<times> (problem + loginView)" where
  "login_result r = (fst r, case snd r of Inl err \<Rightarrow> Inl (failure_problem err True) | Inr x \<Rightarrow> Inr (loginResponse x))"

definition startLogin_handler ::
  "ctx_error option \<Rightarrow> time \<Rightarrow> time \<Rightarrow> Authorization \<Rightarrow> string \<Rightarrow> string \<Rightarrow> string \<Rightarrow> Manager \<Rightarrow> Manager \<times> (problem + loginView)" where
  "startLogin_handler ctx t1 t2 auth loginID newID name m = login_result (StartLogin ctx t1 t2 auth loginID newID name m)"

definition reconnect_handler ::
  "ctx_error option \<Rightarrow> time \<Rightarrow> time \<Rightarrow> Authorization \<Rightarrow> string \<Rightarrow> bool \<Rightarrow> AccountRecord result \<Rightarrow> Manager \<Rightarrow> Manager \<times> (problem + loginView)" where
  "reconnect_handler ctx t1 t2 auth loginID down got m = login_result (StartReconnect ctx t1 t2 auth loginID down got m)"

record loginStatusView =
  sv_LoginID :: string
  sv_AccountID :: string
  sv_State :: string
  sv_ExpiresAt :: "time option"

definition login_state_name :: "LoginState \<Rightarrow> string" where
  "login_state_name st =
     (case st of LoginNone \<Rightarrow> [] | LoginWaiting \<Rightarrow> ''waiting'' | LoginExchanging \<Rightarrow> ''exchanging'' | LoginSucceeded \<Rightarrow> ''succeeded''
      | LoginFailed \<Rightarrow> ''failed'' | LoginCanceled \<Rightarrow> ''canceled'' | LoginExpired \<Rightarrow> ''expired'')"

definition loginStatus_handler :: "time \<Rightarrow> Manager \<Rightarrow> Manager \<times> loginStatusView" where
  "loginStatus_handler now m =
     (let (m, s) = Manager_LoginStatus now m;
          state = login_state_name (ls_State s)
      in (m, \<lparr>sv_LoginID = ls_LoginID s, sv_AccountID = ls_AccountID s, sv_State = (if state = [] then ''idle'' else state),
              sv_ExpiresAt = optionalDate (ls_ExpiresAt s)\<rparr>))"

end
