(* ===== verification/UsageApi.thy ===== *)
theory UsageApi
  imports Management Base64
begin

text \<open>
  \<open>internal/management/usage.go\<close>: usage summaries and the paged list of requests. \<open>time.Parse\<close>, SHA-256
  and the JSON text of a filter and of a cursor are parameters; \<open>decodeJSON\<close> rejects unknown members,
  so a cursor is what its parser gives.
\<close>

section \<open>Filters\<close>

record UsageFilterInput =
  ui_From :: string
  ui_To :: string
  ui_KeyID :: string
  ui_AccountID :: string
  ui_Model :: string

text \<open>The bounds of \<open>Year() < 0\<close> and \<open>Year() > 9999\<close>, in nanoseconds from year 1.\<close>

definition year0_start :: time where "year0_start = - 366 * 86400 * Second"
definition year10000_start :: time where "year10000_start = 3652059 * 86400 * Second"

definition invalidUsageQuery :: problem where
  "invalidUsageQuery = problem_of 422 ''invalid-request'' invalid_fields"

definition parse_bound :: "(string \<Rightarrow> time option) \<Rightarrow> string \<Rightarrow> problem + time option" where
  "parse_bound parse raw =
     (if raw = [] then Inr None
      else case parse raw of
             None \<Rightarrow> Inl invalidUsageQuery
           | Some t \<Rightarrow> if t < year0_start \<or> t \<ge> year10000_start then Inl invalidUsageQuery else Inr (Some t))"

definition parseUsageFilter :: "(string \<Rightarrow> time option) \<Rightarrow> UsageFilterInput \<Rightarrow> problem + RequestFilter" where
  "parseUsageFilter parse i =
     (case parse_bound parse (ui_From i) of
        Inl p \<Rightarrow> Inl p
      | Inr from \<Rightarrow>
          (case parse_bound parse (ui_To i) of
             Inl p \<Rightarrow> Inl p
           | Inr to \<Rightarrow>
               if (case (from, to) of (Some f, Some t) \<Rightarrow> \<not> f < t | _ \<Rightarrow> False) then Inl invalidUsageQuery
               else Inr \<lparr>rf_From = from, rf_To = to, rf_KeyID = ui_KeyID i, rf_AccountID = ui_AccountID i, rf_Model = ui_Model i, rf_Result = []\<rparr>))"

section \<open>Views\<close>

record TokenView =
  tv_Input :: "int option"
  tv_Output :: "int option"
  tv_Total :: "int option"

definition tokensView :: "Snapshot \<Rightarrow> TokenView" where
  "tokensView u =
     (let shown = (\<lambda>c. if Known c then Some (Tokens c) else None)
      in \<lparr>tv_Input = shown (u_Input u), tv_Output = shown (u_Output u), tv_Total = shown (u_Total u)\<rparr>)"

record requestView =
  qv_ID :: string
  qv_FinishedAt :: time
  qv_KeyID :: string
  qv_AccountID :: string
  qv_Model :: string
  qv_Result :: string
  qv_DurationMS :: int
  qv_ResponseStarted :: bool
  qv_Tokens :: TokenView

definition recordView :: "RequestRecord \<Rightarrow> requestView" where
  "recordView r = \<lparr>qv_ID = r_ID r, qv_FinishedAt = r_FinishedAt r, qv_KeyID = r_KeyID r, qv_AccountID = r_AccountID r, qv_Model = r_Model r,
     qv_Result = r_Result r, qv_DurationMS = Milliseconds (r_Duration r), qv_ResponseStarted = r_ResponseStarted r,
     qv_Tokens = tokensView (r_Usage r)\<rparr>"

text \<open>In \<open>yv_AccountID\<close> and \<open>yv_Model\<close> the outer option selects the dimension and the inner one is SQL NULL.\<close>

record summaryView =
  yv_KeyID :: "string option"
  yv_AccountID :: "string option option"
  yv_Model :: "string option option"
  yv_Day :: "string option"
  yv_Requests :: int
  yv_Results :: "(string \<times> int) list"
  yv_UnknownUsage :: int
  yv_Tokens :: TokenView

definition optionalDimension :: "string \<Rightarrow> string option" where
  "optionalDimension value = (if value = [] then None else Some value)"

definition summary_view :: "string list \<Rightarrow> UsageSummary \<Rightarrow> summaryView" where
  "summary_view groups row =
     \<lparr>yv_KeyID = (if ''key'' \<in> set groups then Some (us_KeyID row) else None),
      yv_AccountID = (if ''account'' \<in> set groups then Some (optionalDimension (us_AccountID row)) else None),
      yv_Model = (if ''model'' \<in> set groups then Some (optionalDimension (us_Model row)) else None),
      yv_Day = (if ''day'' \<in> set groups then Some (us_Day row) else None),
      yv_Requests = us_Requests row, yv_Results = us_Results row, yv_UnknownUsage = us_UnknownUsage row, yv_Tokens = tokensView (us_Usage row)\<rparr>"

text \<open>\<open>now\<close> is the clock, \<open>day\<close> SQLite's date of a millisecond stamp.\<close>

definition summarizeUsage ::
  "(string \<Rightarrow> time option) \<Rightarrow> time \<Rightarrow> (int \<Rightarrow> string option) \<Rightarrow> error option \<Rightarrow> UsageFilterInput \<Rightarrow> string list \<Rightarrow> DB \<Rightarrow>
   problem + time \<times> time \<times> summaryView list" where
  "summarizeUsage parse now day io input groups db =
     (case parseUsageFilter parse input of
        Inl p \<Rightarrow> Inl p
      | Inr f \<Rightarrow>
          (let to = (case rf_To f of None \<Rightarrow> now | Some t \<Rightarrow> t);
               from = (case rf_From f of None \<Rightarrow> to - 30 * 24 * Hour | Some t \<Rightarrow> t)
           in if from < year0_start \<or> \<not> from < to then Inl invalidUsageQuery
              else case SummarizeUsage day io db (f\<lparr>rf_From := Some from, rf_To := Some to\<rparr>) groups of
                     Inl err \<Rightarrow> Inl (failure_problem err False)
                   | Inr rows \<Rightarrow> Inr (from, to, map (summary_view groups) rows)))"

section \<open>The list of requests\<close>

record requestsInput =
  ri_Filter :: UsageFilterInput
  ri_Result :: string
  ri_Limit :: int
  ri_Cursor :: string

record requestCursor =
  rc_Time :: "int option"
  rc_ID :: string
  rc_Filter :: string

text \<open>The text codecs: the filter and the cursor in JSON, and the reader of a cursor.\<close>

record UsageCodec =
  uc_parse :: "string \<Rightarrow> time option"
  uc_filter :: "RequestFilter \<Rightarrow> bytes option"
  uc_sha :: "bytes \<Rightarrow> bytes"
  uc_cursor :: "requestCursor \<Rightarrow> bytes option"
  uc_read :: "bytes \<Rightarrow> requestCursor option"

definition hex_digit :: "nat \<Rightarrow> char" where
  "hex_digit n = ''0123456789abcdef'' ! n"

definition hex_encode :: "bytes \<Rightarrow> string" where
  "hex_encode b = concat (map (\<lambda>c. [hex_digit (of_char c div 16), hex_digit (of_char c mod 16)]) b)"

definition filterHash :: "UsageCodec \<Rightarrow> RequestFilter \<Rightarrow> string option" where
  "filterHash c f = map_option (\<lambda>raw. hex_encode (uc_sha c raw)) (uc_filter c f)"

definition decodeRequestCursor :: "UsageCodec \<Rightarrow> string \<Rightarrow> string \<Rightarrow> problem + RequestPosition option" where
  "decodeRequestCursor c raw hash =
     (if raw = [] then Inr None
      else if length raw > 2048 then Inl invalidUsageQuery
      else case RawURL_Decode raw of
             None \<Rightarrow> Inl invalidUsageQuery
           | Some data \<Rightarrow>
               (case uc_read c data of
                  None \<Rightarrow> Inl invalidUsageQuery
                | Some cursor \<Rightarrow>
                    (case rc_Time cursor of
                       None \<Rightarrow> Inl invalidUsageQuery
                     | Some t \<Rightarrow>
                         if rc_ID cursor = [] \<or> length (rc_ID cursor) > 128 \<or> rc_Filter cursor \<noteq> hash then Inl invalidUsageQuery
                         else Inr (Some (t, rc_ID cursor)))))"

definition list_filter :: "UsageCodec \<Rightarrow> requestsInput \<Rightarrow> problem + RequestFilter" where
  "list_filter c input =
     (case parseUsageFilter (uc_parse c) (ri_Filter input) of Inl p \<Rightarrow> Inl p | Inr f \<Rightarrow> Inr (f\<lparr>rf_Result := ri_Result input\<rparr>))"

text \<open>The items of a page and its next cursor, empty on the last page.\<close>

definition listRequests :: "UsageCodec \<Rightarrow> error option \<Rightarrow> requestsInput \<Rightarrow> DB \<Rightarrow> problem + requestView list \<times> string" where
  "listRequests c io input db =
     (case list_filter c input of
        Inl p \<Rightarrow> Inl p
      | Inr f \<Rightarrow>
          (case filterHash c f of
             None \<Rightarrow> Inl invalidUsageQuery
           | Some hash \<Rightarrow>
               (case decodeRequestCursor c (ri_Cursor input) hash of
                  Inl p \<Rightarrow> Inl p
                | Inr after \<Rightarrow>
                    (case ListRequests io db f after (ri_Limit input + 1) of
                       Inl err \<Rightarrow> Inl (failure_problem err False)
                     | Inr rows \<Rightarrow>
                         if int (length rows) > ri_Limit input then
                           (let rows = take (nat (ri_Limit input)) rows;
                                end = last rows
                            in case uc_cursor c \<lparr>rc_Time = Some (time_UnixMilli (r_FinishedAt end)), rc_ID = r_ID end, rc_Filter = hash\<rparr> of
                                 None \<Rightarrow> Inl (failure_problem (PlainErr ''json'') False)
                               | Some raw \<Rightarrow> Inr (map recordView rows, RawURL_Encode raw))
                         else Inr (map recordView rows, [])))))"

definition getRequest :: "error option \<Rightarrow> string \<Rightarrow> DB \<Rightarrow> problem + requestView" where
  "getRequest io i db = (case GetRequest io db i of Inl err \<Rightarrow> Inl (failure_problem err False) | Inr r \<Rightarrow> Inr (recordView r))"

end
