(* ===== verification/AdminApi.thy ===== *)
theory AdminApi
  imports UsageApi
begin

text \<open>
  How \<open>internal/management\<close> serves a request: the router's middleware, the query check, the operation
  and the rewriting of its problem, with the table of routes. The routers (\<open>chi\<close>, \<open>huma\<close>) are parameters:
  which route a path and method select, and what \<open>Match\<close> says of a method.
\<close>

section \<open>Routes\<close>

record admin_operation =
  ao_ID :: string
  ao_Method :: string
  ao_Path :: string
  ao_Status :: int

definition get_operation :: "string \<Rightarrow> string \<Rightarrow> admin_operation" where
  "get_operation i path = \<lparr>ao_ID = i, ao_Method = ''GET'', ao_Path = path, ao_Status = 200\<rparr>"

definition change_operation :: "string \<Rightarrow> string \<Rightarrow> string \<Rightarrow> int \<Rightarrow> admin_operation" where
  "change_operation i method path status = \<lparr>ao_ID = i, ao_Method = method, ao_Path = path, ao_Status = status\<rparr>"

text \<open>Without a \<open>DefaultStatus\<close> an operation that returns a body answers 200.\<close>

definition admin_routes :: "admin_operation list" where
  "admin_routes =
     [get_operation ''summarize-usage'' ''/usage'',
      get_operation ''list-requests'' ''/requests'',
      get_operation ''get-request'' ''/requests/{id}'',
      change_operation ''start-login'' ''POST'' ''/oauth/login'' 200,
      get_operation ''login-status'' ''/oauth/login'',
      change_operation ''cancel-login'' ''POST'' ''/oauth/login/cancel'' 204,
      get_operation ''list-accounts'' ''/accounts'',
      get_operation ''get-account'' ''/accounts/{id}'',
      change_operation ''reconnect-account'' ''POST'' ''/accounts/{id}/reconnect'' 200,
      change_operation ''disable-account'' ''POST'' ''/accounts/{id}/disable'' 204,
      change_operation ''enable-account'' ''POST'' ''/accounts/{id}/enable'' 204,
      change_operation ''delete-account'' ''DELETE'' ''/accounts/{id}'' 204,
      change_operation ''create-client-key'' ''POST'' ''/client-keys'' 201,
      get_operation ''list-client-keys'' ''/client-keys'',
      change_operation ''update-client-key'' ''PATCH'' ''/client-keys/{id}'' 204,
      change_operation ''revoke-client-key'' ''POST'' ''/client-keys/{id}/revoke'' 204,
      get_operation ''list-models'' ''/models'']"

text \<open>\<open>register\<close>: the error answers that every operation declares.\<close>

definition declared_errors :: "int list" where
  "declared_errors = [400, 401, 404, 408, 409, 413, 415, 422, 500, 503]"

section \<open>Serving\<close>

datatype admin_route = RouteMissing | MethodMissing "string \<Rightarrow> bool" | RouteOperation

record 'o admin_answer =
  aa_Headers :: "(string \<times> string) list"
  aa_Result :: "problem + 'o"

definition route_missing :: problem where
  "route_missing = problem_of 404 ''not-found'' ''The resource was not found.''"

definition method_missing :: problem where
  "method_missing = problem_of 405 ''method-not-allowed'' ''The method is not supported.''"

definition framework_error :: "int \<Rightarrow> problem" where
  "framework_error status = \<lparr>pb_Status = status, pb_Type = [], pb_Detail = [], pb_Errors = []\<rparr>"

text \<open>\<open>run\<close> is the operation on the state it changes.\<close>

definition admin_serve ::
  "(bytes \<Rightarrow> bytes) \<Rightarrow> string \<Rightarrow> string list \<Rightarrow> admin_route \<Rightarrow> (string \<times> string list) list option \<Rightarrow> bool \<Rightarrow> string option \<Rightarrow>
   ('s \<Rightarrow> 's \<times> (problem + 'o)) \<Rightarrow> 's \<Rightarrow> 's \<times> 'o admin_answer" where
  "admin_serve sha token vs to query has_body mediaType run s =
     (let common = [(''Cache-Control'', ''no-store''), (''X-Content-Type-Options'', ''nosniff'')];
          refuse = (\<lambda>more p. (s, \<lparr>aa_Headers = common @ more, aa_Result = Inl p\<rparr>)) in
      if \<not> authenticated sha token vs then refuse [(''WWW-Authenticate'', ''Bearer realm=\"management\"'')] unauthorized
      else case to of
             RouteMissing \<Rightarrow> refuse [] route_missing
           | MethodMissing offers \<Rightarrow>
               refuse (map (\<lambda>m. (''Allow'', m)) (filter offers [''GET'', ''POST'', ''PATCH'', ''DELETE''])) method_missing
           | RouteOperation \<Rightarrow>
               (case query_refused query has_body mediaType of
                  Some status \<Rightarrow> refuse [] (safeErrors (framework_error status))
                | None \<Rightarrow>
                    (case run s of
                       (s, Inl p) \<Rightarrow> (s, \<lparr>aa_Headers = common, aa_Result = Inl (safeErrors p)\<rparr>)
                     | (s, Inr out) \<Rightarrow> (s, \<lparr>aa_Headers = common, aa_Result = Inr out\<rparr>))))"

section \<open>Canceling a sign-in\<close>

text \<open>
  \<open>others\<close> is what happens while the commit token is awaited and \<open>waited\<close> the end of the context during
  that wait.
\<close>

definition cancelLogin ::
  "ctx_error option \<Rightarrow> time \<Rightarrow> (Manager \<Rightarrow> Manager) \<Rightarrow> ctx_error option \<Rightarrow> ctx_error option \<Rightarrow> time \<Rightarrow> string \<Rightarrow> Manager \<Rightarrow> Manager \<times> problem option" where
  "cancelLogin ctx now others waited ctx2 now2 loginID m =
     (case cancel_begin ctx now loginID m of
        (m, Inl err) \<Rightarrow> (m, failure err True)
      | (m, Inr p) \<Rightarrow>
          (case waited of
             Some e \<Rightarrow> (others m, failure (Some (CtxErr e)) True)
           | None \<Rightarrow> (case cancel_commit ctx2 now2 p (others m) of (m, err) \<Rightarrow> (m, failure err True))))"

end
