(* ===== verification/ManagementLaws.thy ===== *)
theory ManagementLaws
  imports UsageApi RequestLaws
begin

text \<open>
  Laws of the management API: following the cursors of \<open>listRequests\<close> visits every matching request
  once, in order, and problems never carry text of the request or of an internal error.
\<close>

section \<open>Pages of requests\<close>

text \<open>A client that follows \<open>next_cursor\<close> until it is empty, at most \<open>n\<close> pages.\<close>

fun collect :: "UsageCodec \<Rightarrow> requestsInput \<Rightarrow> DB \<Rightarrow> nat \<Rightarrow> string \<Rightarrow> requestView list option" where
  "collect c input db 0 cursor = None"
| "collect c input db (Suc n) cursor =
     (case listRequests c None (input\<lparr>ri_Cursor := cursor\<rparr>) db of
        Inl _ \<Rightarrow> None
      | Inr (items, next) \<Rightarrow> if next = [] then Some items else map_option ((@) items) (collect c input db n next))"

abbreviation position_cursor :: "string \<Rightarrow> RequestPosition \<Rightarrow> requestCursor" where
  "position_cursor hash p \<equiv> \<lparr>rc_Time = Some (fst p), rc_ID = snd p, rc_Filter = hash\<rparr>"

text \<open>What the JSON codec must do for the cursor of a row: print it in at most 1500 bytes and read it back.\<close>

definition cursor_codec :: "UsageCodec \<Rightarrow> string \<Rightarrow> request_row \<Rightarrow> bool" where
  "cursor_codec c hash row \<longleftrightarrow>
     (\<exists>raw. uc_cursor c (position_cursor hash (row_pos row)) = Some raw \<and> raw \<noteq> [] \<and> length raw \<le> 1500 \<and>
            uc_read c raw = Some (position_cursor hash (row_pos row)))"

lemma order_desc_filter: "order_desc (filter P rows) = filter P (order_desc rows)"
  by (simp add: order_desc_def filter_sort [symmetric] rev_filter)

lemma order_desc_set [simp]: "set (order_desc rows) = set rows"
  by (simp add: order_desc_def)

lemma order_desc_strict:
  assumes "distinct (map rr_id rows)"
  shows "sorted_wrt (\<lambda>x y. row_pos y < row_pos x) (order_desc rows)"
proof -
  have "distinct (map row_pos rows)"
    using assms by (simp add: distinct_map inj_on_def row_pos_def)
  then have "distinct (map row_pos (sort_key row_pos rows))" by (simp add: distinct_map)
  moreover have "sorted (map row_pos (sort_key row_pos rows))" by simp
  ultimately have "sorted_wrt (<) (map row_pos (sort_key row_pos rows))" using strict_sorted_iff by blast
  then show ?thesis by (simp add: order_desc_def sorted_wrt_map sorted_wrt_rev)
qed

lemma filter_below:
  assumes "sorted_wrt (\<lambda>x y. row_pos y < row_pos x) (pre @ x # suf)"
  shows "filter (\<lambda>r. row_pos r < row_pos x) (pre @ x # suf) = suf"
  using assms by (auto simp: sorted_wrt_append filter_id_conv filter_empty_conv dest: order.asym)

text \<open>One page: the listing after the rows \<open>pre\<close> of \<open>pre @ suf\<close>.\<close>

definition listed_from :: "DB \<Rightarrow> RequestFilter \<Rightarrow> RequestPosition option \<Rightarrow> request_row list \<Rightarrow> bool" where
  "listed_from db f after suf \<longleftrightarrow>
     (\<forall>n. 1 \<le> n \<longrightarrow> n \<le> 101 \<longrightarrow> ListRequests None db f after n = Inr (map scanRequest (take (nat n) suf)))"

lemma listed_from_pre:
  assumes "requestWhere f = Inr P" and "distinct (map rr_id (requests_t db))"
    and all: "order_desc (filter P (requests_t db)) = pre @ suf"
    and after: "after = (if pre = [] then None else Some (row_pos (last pre)))"
  shows "listed_from db f after suf"
proof -
  have "order_desc (filter (\<lambda>row. P row \<and> (case after of None \<Rightarrow> True | Some p \<Rightarrow> row_pos row < p)) (requests_t db)) = suf"
  proof (cases "pre = []")
    case True
    with after all show ?thesis by simp
  next
    case False
    then have pre: "pre = butlast pre @ [last pre]" by simp
    have "distinct (map rr_id (filter P (requests_t db)))" using assms(2) by (simp add: distinct_map_filter)
    from order_desc_strict [OF this] have "sorted_wrt (\<lambda>x y. row_pos y < row_pos x) (butlast pre @ last pre # suf)"
      unfolding all by (subst (asm) pre) simp
    from filter_below [OF this] have "filter (\<lambda>r. row_pos r < row_pos (last pre)) (pre @ suf) = suf"
      using pre by (metis append.assoc append_Cons append_Nil)
    moreover have "order_desc (filter (\<lambda>row. P row \<and> row_pos row < row_pos (last pre)) (requests_t db)) =
        filter (\<lambda>r. row_pos r < row_pos (last pre)) (pre @ suf)"
      unfolding all [symmetric] order_desc_filter [symmetric] by (simp add: conj_commute)
    ultimately show ?thesis using False after by simp
  qed
  with assms(1) show ?thesis by (simp add: listed_from_def ListRequests_def Let_def)
qed

lemma decode_position:
  assumes "cursor_codec c hash row" and "rr_id row \<noteq> []" and "length (rr_id row) \<le> 128"
  obtains raw where "uc_cursor c (position_cursor hash (row_pos row)) = Some raw" "RawURL_Encode raw \<noteq> []"
    "decodeRequestCursor c (RawURL_Encode raw) hash = Inr (Some (row_pos row))"
proof -
  from assms(1) obtain raw where raw: "uc_cursor c (position_cursor hash (row_pos row)) = Some raw" "raw \<noteq> []" "length raw \<le> 1500"
    "uc_read c raw = Some (position_cursor hash (row_pos row))" by (auto simp: cursor_codec_def)
  from raw(2,3) have len: "RawURL_Encode raw \<noteq> []" "length (RawURL_Encode raw) \<le> 2048"
    using RawURL_Encode_length [of raw] by (cases raw, auto)
  with raw assms(2,3) have "decodeRequestCursor c (RawURL_Encode raw) hash = Inr (Some (row_pos row))"
    by (simp add: decodeRequestCursor_def row_pos_def)
  with that raw(1) len show ?thesis by blast
qed

lemma scanRequest_pos: "time_UnixMilli (r_FinishedAt (scanRequest row)) = fst (row_pos row) \<and> r_ID (scanRequest row) = snd (row_pos row)"
  by (simp add: scanRequest_def row_pos_def)

lemma last_take: "0 < k \<Longrightarrow> k \<le> length xs \<Longrightarrow> take k xs \<noteq> [] \<and> last (take k xs) = xs ! (k - 1)"
  using last_conv_nth [of "take k xs"] by (cases xs) (auto simp: min_def)

text \<open>A page that is not the last one takes \<open>k\<close> rows and points at its last row.\<close>

lemma listRequests_page:
  assumes f: "list_filter c input = Inr f" and hash: "filterHash c f = Some hash" and limit: "1 \<le> ri_Limit input" "ri_Limit input \<le> 100"
    and cur: "decodeRequestCursor c cursor hash = Inr after" and rows: "listed_from db f after suf"
  shows "listRequests c None (input\<lparr>ri_Cursor := cursor\<rparr>) db =
    (if int (length suf) \<le> ri_Limit input then Inr (map (recordView \<circ> scanRequest) suf, [])
     else let k = nat (ri_Limit input)
          in case uc_cursor c (position_cursor hash (row_pos (suf ! (k - 1)))) of
               None \<Rightarrow> Inl (failure_problem (PlainErr ''json'') False)
             | Some raw \<Rightarrow> Inr (map (recordView \<circ> scanRequest) (take k suf), RawURL_Encode raw))"
proof -
  let ?k = "nat (ri_Limit input)"
  have f': "list_filter c (input\<lparr>ri_Cursor := cursor\<rparr>) = Inr f"
    using f by (cases "parseUsageFilter (uc_parse c) (ri_Filter input)") (simp_all add: list_filter_def)
  have got: "ListRequests None db f after (ri_Limit input + 1) = Inr (map scanRequest (take (Suc ?k) suf))"
    using rows limit by (simp add: listed_from_def nat_add_distrib)
  show ?thesis
  proof (cases "int (length suf) \<le> ri_Limit input")
    case True
    then have "take (Suc ?k) suf = suf" by simp
    with True f' hash cur got show ?thesis by (simp add: listRequests_def)
  next
    case False
    then have len: "length suf \<ge> Suc ?k" using limit by linarith
    then have more: "int (length (map scanRequest (take (Suc ?k) suf))) > ri_Limit input" using limit by simp
    have "last (take ?k (map scanRequest (take (Suc ?k) suf))) = scanRequest (suf ! (?k - 1))"
      using len limit last_take [of ?k suf] by (simp add: take_map last_map min_def)
    with False more f' hash cur got scanRequest_pos [of "suf ! (?k - 1)"] show ?thesis
      by (simp add: listRequests_def Let_def take_map cong: option.case_cong)
  qed
qed

lemma collect_from:
  assumes wf: "requests_wf db" and f: "list_filter c input = Inr f" and hash: "filterHash c f = Some hash"
    and limit: "1 \<le> ri_Limit input" "ri_Limit input \<le> 100" and P: "requestWhere f = Inr P"
    and codec: "\<And>row. row \<in> set (requests_t db) \<Longrightarrow> P row \<Longrightarrow> cursor_codec c hash row \<and> length (rr_id row) \<le> 128"
  shows "order_desc (filter P (requests_t db)) = pre @ suf \<Longrightarrow>
     decodeRequestCursor c cursor hash = Inr (if pre = [] then None else Some (row_pos (last pre))) \<Longrightarrow> length suf < n \<Longrightarrow>
     collect c input db n cursor = Some (map (recordView \<circ> scanRequest) suf)"
proof (induction n arbitrary: pre suf cursor)
  case (Suc n)
  have ids: "distinct (map rr_id (requests_t db))" "\<And>row. row \<in> set (requests_t db) \<Longrightarrow> rr_id row \<noteq> []"
    using wf by (auto simp: requests_wf_def tbl_keys_unique_def list_all_iff wf_request_row_def)
  let ?after = "if pre = [] then None else Some (row_pos (last pre))" and ?k = "nat (ri_Limit input)"
  have rows: "listed_from db f ?after suf" by (rule listed_from_pre [OF P ids(1) Suc.prems(1) refl])
  note page = listRequests_page [OF f hash limit Suc.prems(2) rows]
  show ?case
  proof (cases "int (length suf) \<le> ri_Limit input")
    case True
    with page show ?thesis by simp
  next
    case False
    let ?row = "suf ! (?k - 1)" and ?pre = "pre @ take ?k suf"
    from False limit have len: "0 < ?k" "?k < length suf" by auto
    then have "?row \<in> set suf" by (intro nth_mem) simp
    then have row: "?row \<in> set (requests_t db)" "P ?row"
      using arg_cong [OF Suc.prems(1), of set] by auto
    from codec [OF row] ids(2) [OF row(1)] obtain raw where raw: "uc_cursor c (position_cursor hash (row_pos ?row)) = Some raw"
        "RawURL_Encode raw \<noteq> []" "decodeRequestCursor c (RawURL_Encode raw) hash = Inr (Some (row_pos ?row))"
      by (metis decode_position)
    have last: "?pre \<noteq> []" "last ?pre = ?row" using len last_take [of ?k suf] by (auto simp: last_append)
    have "collect c input db n (RawURL_Encode raw) = Some (map (recordView \<circ> scanRequest) (drop ?k suf))"
      by (rule Suc.IH [of ?pre]) (use Suc.prems raw(3) last len in auto)
    with page False raw show ?thesis by (simp add: Let_def flip: map_append)
  qed
qed simp

text \<open>
  C17. Over a store that is not being written, following \<open>next_cursor\<close> from the first page ends after at
  most one page per record and gives every matching request exactly once, newest first.
\<close>

theorem pagination_complete:
  assumes "reachable (\<lambda>db. db = empty_DB) request_step db" and "list_filter c input = Inr f" and "filterHash c f = Some hash"
    and "1 \<le> ri_Limit input" and "ri_Limit input \<le> 100" and "requestWhere f = Inr P"
    and "\<And>row. row \<in> set (requests_t db) \<Longrightarrow> P row \<Longrightarrow> cursor_codec c hash row \<and> length (rr_id row) \<le> 128"
  shows "collect c input db (Suc (length (requests_t db))) [] =
     Some (map (\<lambda>row. recordView (scanRequest row)) (order_desc (filter P (requests_t db))))"
proof -
  have wf: "requests_wf db" by (rule requests_sys.inv_reachable [OF assms(1)])
  have "length (order_desc (filter P (requests_t db))) < Suc (length (requests_t db))"
    by (simp add: order_desc_def less_Suc_eq_le)
  then have "collect c input db (Suc (length (requests_t db))) [] =
      Some (map (recordView \<circ> scanRequest) (order_desc (filter P (requests_t db))))"
    by (intro collect_from [OF wf assms(2-6), where pre = "[]"]) (use assms(7) in \<open>simp_all add: decodeRequestCursor_def\<close>)
  then show ?thesis by (simp add: comp_def)
qed

text \<open>A codec for the witness: the cursor is the ID after its length, at the one stamp of the store.\<close>

definition page_codec :: UsageCodec where
  "page_codec = \<lparr>uc_parse = (\<lambda>_. None), uc_filter = (\<lambda>f. Some (rf_KeyID f)), uc_sha = (\<lambda>b. b),
     uc_cursor = (\<lambda>k. Some (char_of (length (rc_ID k)) # rc_ID k @ rc_Filter k)),
     uc_read = (\<lambda>b. case b of [] \<Rightarrow> None
       | n # r \<Rightarrow> Some \<lparr>rc_Time = Some (time_UnixMilli (r_FinishedAt toy_request)), rc_ID = take (of_char n) r, rc_Filter = drop (of_char n) r\<rparr>)\<rparr>"

definition page_input :: requestsInput where
  "page_input = \<lparr>ri_Filter = \<lparr>ui_From = [], ui_To = [], ui_KeyID = [], ui_AccountID = [], ui_Model = []\<rparr>, ri_Result = [], ri_Limit = 1, ri_Cursor = []\<rparr>"

lemma page_db_reachable: "reachable (\<lambda>db. db = empty_DB) request_step toy_requests_db"
proof -
  let ?r2 = "toy_request\<lparr>r_ID := ''req_2'', r_KeyID := ''j''\<rparr>"
  let ?db1 = "fst (InsertRequest None empty_DB toy_request)" and ?db2 = "fst (InsertRequest None (fst (InsertRequest None empty_DB toy_request)) ?r2)"
  have "requests_t ?db2 = requests_t toy_requests_db" "access_keys_t ?db2 = access_keys_t toy_requests_db" "accounts_t ?db2 = accounts_t toy_requests_db"
    by code_simp+
  then have "toy_requests_db = ?db2" by simp
  moreover have "reachable (\<lambda>db. db = empty_DB) request_step ?db1"
    by (rule reach_step [OF reach_start]) (rule refl, rule request_step.intros(1), rule prod.collapse [symmetric])
  then have "reachable (\<lambda>db. db = empty_DB) request_step ?db2"
    by (rule reach_step) (rule request_step.intros(1), rule prod.collapse [symmetric])
  ultimately show ?thesis by simp
qed

theorem pagination_complete_witness:
  "map_option (map qv_ID) (collect page_codec page_input toy_requests_db 3 []) = Some [''req_2'', ''req_1'']"
proof -
  have f: "list_filter page_codec page_input = Inr all_requests" by code_simp
  have h: "filterHash page_codec all_requests = Some []" by code_simp
  obtain P where P: "requestWhere all_requests = Inr P" by (auto simp: requestWhere_def all_requests_def)
  have all: "P row" for row using P by (auto simp: requestWhere_def all_requests_def)
  have "list_all (\<lambda>row. (case uc_cursor page_codec (position_cursor [] (row_pos row)) of None \<Rightarrow> False
      | Some raw \<Rightarrow> raw \<noteq> [] \<and> length raw \<le> 1500 \<and> uc_read page_codec raw = Some (position_cursor [] (row_pos row))) \<and> length (rr_id row) \<le> 128)
     (requests_t toy_requests_db)" by code_simp
  then have codec: "\<And>row. row \<in> set (requests_t toy_requests_db) \<Longrightarrow> P row \<Longrightarrow> cursor_codec page_codec [] row \<and> length (rr_id row) \<le> 128"
    by (auto simp: list_all_iff cursor_codec_def split: option.splits)
  have limit: "1 \<le> ri_Limit page_input" "ri_Limit page_input \<le> 100" by (simp_all add: page_input_def)
  have rows: "length (requests_t toy_requests_db) = 2" by (simp add: toy_requests_db_def)
  have "collect page_codec page_input toy_requests_db 3 [] =
      Some (map (\<lambda>row. recordView (scanRequest row)) (order_desc (requests_t toy_requests_db)))"
    using pagination_complete [OF page_db_reachable f h limit P codec] all by (simp add: rows eval_nat_numeral)
  moreover have "map (qv_ID \<circ> (\<lambda>row. recordView (scanRequest row))) (order_desc (requests_t toy_requests_db)) = [''req_2'', ''req_1'']" by code_simp
  ultimately show ?thesis by simp
qed

section \<open>Offset pages\<close>

lemma take_drop_cover:
  "0 < k \<Longrightarrow> length items \<le> n * k \<Longrightarrow> concat (map (\<lambda>j. take k (drop (j * k) items)) [0..<n]) = items"
proof (induction n arbitrary: items)
  case (Suc n)
  have shift: "map (\<lambda>j. take k (drop (j * k) items)) [1..<Suc n] = map (\<lambda>j. take k (drop (j * k) (drop k items))) [0..<n]"
    by (simp add: map_Suc_upt [symmetric] comp_def add.commute del: upt_Suc)
  have "length (drop k items) \<le> n * k" using Suc.prems(2) by simp
  from Suc.IH [OF Suc.prems(1) this] have "concat (map (\<lambda>j. take k (drop (j * k) items)) [1..<Suc n]) = drop k items"
    by (simp only: shift)
  then show ?case by (simp add: upt_conv_Cons del: upt_Suc)
qed simp

text \<open>The pages of a list at offsets 0, \<open>limit\<close>, 2 \<open>limit\<close> and so on make up the list.\<close>

lemma paginate_cover:
  assumes "1 \<le> limit" and "length items \<le> n * nat limit"
  shows "concat (map (\<lambda>j. pg_Items (paginate items \<lparr>li_Limit = limit, li_Offset = int j * limit, li_Q = q\<rparr>)) [0..<n]) = items"
proof -
  have "pg_Items (paginate items \<lparr>li_Limit = limit, li_Offset = int j * limit, li_Q = q\<rparr>) = take (nat limit) (drop (j * nat limit) items)" for j
  proof (cases "int j * limit \<le> int (length items)")
    case True
    then have "nat (int j * limit) = j * nat limit" by (simp add: nat_mult_distrib)
    with True assms(1) show ?thesis
      by (auto simp: paginate_def Let_def min_def nat_diff_distrib)
  next
    case False
    moreover have "int j * limit = int (j * nat limit)" using assms(1) by simp
    ultimately have "length items \<le> j * nat limit" by linarith
    with False show ?thesis by (simp add: paginate_def Let_def min_def)
  qed
  with take_drop_cover [of "nat limit" items n] assms show ?thesis by simp
qed

section \<open>Problems\<close>

definition problem_table :: "problem list" where
  "problem_table =
     [problem_of 503 ''completion-unconfirmed'' ''Operation completion is unconfirmed; the resource may already have changed.'',
      problem_of 503 ''unavailable'' ''The operation could not finish in time.'',
      problem_of 404 ''not-found'' ''The resource was not found.'',
      problem_of 409 ''login-pending'' ''A login is already pending.'',
      problem_of 409 ''login-mismatch'' ''The login ID does not match the latest attempt.'',
      problem_of 409 ''account-disabled'' ''The account is disabled.'',
      problem_of 409 ''needs-sign-in'' ''The account needs to sign in again.'',
      problem_of 409 ''state-conflict'' ''The resource changed or already exists.'',
      problem_of 422 ''invalid-request'' invalid_fields,
      problem_of 503 ''unavailable'' ''The service is temporarily unavailable.'',
      problem_of 500 ''internal-error'' ''The operation failed.'']"

lemma failure_problem_table: "failure_problem err mutation \<in> set problem_table"
proof -
  have "(if a then x else y) \<in> T" if "x \<in> T" "y \<in> T" for a :: bool and x y :: problem and T using that by simp
  note ifI = this
  show ?thesis unfolding failure_problem_def by (intro ifI) (simp_all add: problem_table_def)
qed

text \<open>A report of the framework, which may quote the request.\<close>

definition framework_problem :: "problem \<Rightarrow> bool" where
  "framework_problem v \<longleftrightarrow> pb_Type v = [] \<or> pb_Type v = ''about:blank''"

lemma safeErrors_framework:
  assumes "framework_problem v"
  shows "pb_Status (safeErrors v) = pb_Status v \<and> pb_Type (safeErrors v) = ''/api/problems/'' @ fst (safe_detail (pb_Status v)) \<and>
    pb_Detail (safeErrors v) = snd (safe_detail (pb_Status v)) \<and>
    set (pb_Errors (safeErrors v)) \<subseteq> (\<lambda>l. (l, ''Invalid or missing value.'')) ` set (''request'' # ''query'' # safe_locations)"
proof -
  obtain kind detail where d: "safe_detail (pb_Status v) = (kind, detail)" by (cases "safe_detail (pb_Status v)")
  have "safe_location l \<in> set (''request'' # ''query'' # safe_locations)" for l
    by (simp add: safe_location_def) (simp add: safe_locations_def)
  moreover have "safeErrors v =
      (problem_of (pb_Status v) kind detail)\<lparr>pb_Errors := map (\<lambda>(l, _). (safe_location l, ''Invalid or missing value.'')) (pb_Errors v)\<rparr>"
    using assms d by (auto simp: framework_problem_def safeErrors_def)
  ultimately show ?thesis using d by (auto simp: problem_of_def simp del: list.set)
qed

text \<open>
  A management client sees only fixed texts: every error of a component becomes one of a table of
  problems; a report of the HTTP framework keeps its status but its detail, locations and messages
  come from fixed lists; and nothing but its field entries is taken from a problem of our own.
\<close>

theorem problems_closed:
  "failure_problem err mutation \<in> set problem_table \<and>
   (if framework_problem v
    then pb_Status (safeErrors v) = pb_Status v \<and> pb_Detail (safeErrors v) = snd (safe_detail (pb_Status v)) \<and>
         set (pb_Errors (safeErrors v)) \<subseteq> (\<lambda>l. (l, ''Invalid or missing value.'')) ` set (''request'' # ''query'' # safe_locations)
    else safeErrors v = v\<lparr>pb_Errors := []\<rparr>)"
proof (cases "framework_problem v")
  case True
  with failure_problem_table safeErrors_framework [OF True] show ?thesis by simp
next
  case False
  then have "safeErrors v = v\<lparr>pb_Errors := []\<rparr>" by (simp add: framework_problem_def safeErrors_def)
  with False failure_problem_table show ?thesis by simp
qed

section \<open>Administrator and client keys\<close>

lemma takeWhile_dropWhile_Cut:
  assumes "Cut s c = (a, b, True)"
  shows "s = a @ c # b"
proof -
  from assms obtain x where x: "dropWhile (\<lambda>y. y \<noteq> c) s = x # b" and a: "a = takeWhile (\<lambda>y. y \<noteq> c) s"
    by (auto simp: Cut_def Let_def split: list.splits)
  from hd_dropWhile [of "\<lambda>y. y \<noteq> c" s] x have "x = c" by simp
  with x a takeWhile_dropWhile_id [of "\<lambda>y. y \<noteq> c" s] show ?thesis by simp
qed

lemma authenticated_exact:
  assumes "ValidateConfig admin = None" and "\<And>x. sha x = sha admin \<Longrightarrow> x = admin"
  shows "Hash sha2 admin = None \<and>
    (authenticated sha admin vs \<longrightarrow>
      (\<exists>scheme spaces. vs = [scheme @ CHR '' '' # spaces @ admin] \<and> set spaces \<subseteq> {CHR '' ''} \<and> \<not> HasPrefix admin keyPrefix))"
proof -
  from assms(1) have np: "\<not> HasPrefix admin ''clan_''" by (auto simp: ValidateConfig_def split: if_splits)
  have "Hash sha2 admin = None" using np by (auto simp: Hash_def keyPrefix_def)
  moreover have "\<exists>scheme spaces. vs = [scheme @ CHR '' '' # spaces @ admin] \<and> set spaces \<subseteq> {CHR '' ''}" if auth: "authenticated sha admin vs"
  proof -
    from auth obtain v where v: "vs = [v]" by (cases vs) (auto simp: authenticated_def Let_def split: prod.splits)
    obtain scheme rest found where cut: "Cut v CHR '' '' = (scheme, rest, found)" by (metis prod_cases3)
    with auth v have found: "found" and eq: "sha (dropWhile (\<lambda>c. c = CHR '' '') rest) = sha admin" by (auto simp: authenticated_def Let_def)
    from assms(2) [OF eq] have "rest = takeWhile (\<lambda>c. c = CHR '' '') rest @ admin" by (metis takeWhile_dropWhile_id)
    moreover have "v = scheme @ CHR '' '' # rest" using takeWhile_dropWhile_Cut cut found by simp
    ultimately show ?thesis using v by (intro exI [of _ scheme] exI [of _ "takeWhile (\<lambda>c. c = CHR '' '') rest"]) (auto dest: set_takeWhileD)
  qed
  ultimately show ?thesis using np by (auto simp: keyPrefix_def)
qed

end
