(* ===== verification/AdminLaws.thy ===== *)
theory AdminLaws
  imports AdminApi ManagementLaws
begin

text \<open>
  The management API as a whole: only the administrator's token reaches an operation, and every answer
  is of the declared type of its operation.
\<close>

section \<open>Routes\<close>

lemma admin_routes_distinct: "distinct (map (\<lambda>r. (ao_Method r, ao_Path r)) admin_routes) \<and> distinct (map ao_ID admin_routes)"
  by code_simp

section \<open>Administrator and client keys\<close>

lemma admin_serve_cases:
  assumes "admin_serve sha token vs to query has_body mediaType run s = (s', a)"
  shows "s' = s \<or> authenticated sha token vs \<and> to = RouteOperation \<and> query_refused query has_body mediaType = None \<and> s' = fst (run s)"
  using assms by (auto simp: admin_serve_def Let_def split: if_splits admin_route.splits option.splits prod.splits sum.splits)

text \<open>
  C12. The administrator token is separate from client keys: an accepted configuration never takes one
  that a client could present. And only it opens the management API: when a request has any effect or
  any answer other than 401, it carried exactly one \<open>Authorization\<close> header, a scheme, at least one
  space and the token itself (given that SHA-256 has no other preimage of its hash); and an effect is
  that of a routed operation whose query passed.
\<close>

theorem admin_token_separate:
  assumes "ValidateConfig token = None" and "\<And>x. sha x = sha token \<Longrightarrow> x = token"
    and "admin_serve sha token vs to query has_body mediaType run s = (s', a)"
  shows "Hash sha2 token = None \<and>
    (s' = s \<and> aa_Result a = Inl unauthorized \<or>
     (\<exists>scheme spaces. vs = [scheme @ CHR '' '' # spaces @ token] \<and> set spaces \<subseteq> {CHR '' ''} \<and>
        (s' = s \<or> to = RouteOperation \<and> query_refused query has_body mediaType = None \<and> s' = fst (run s))))"
proof (cases "authenticated sha token vs")
  case True
  with authenticated_exact [OF assms(1,2)] admin_serve_cases [OF assms(3)] show ?thesis by blast
next
  case False
  then have "s' = s \<and> aa_Result a = Inl unauthorized" using assms(3) by (auto simp: admin_serve_def Let_def)
  with authenticated_exact [OF assms(1,2)] show ?thesis by blast
qed

text \<open>A counter as the state and an operation that increments it.\<close>

definition count_up :: "nat \<Rightarrow> nat \<times> (problem + nat)" where
  "count_up n = (n + 1, Inr n)"

theorem admin_token_separate_witness:
  "Hash (\<lambda>b. b) ''s3cret'' = None \<and>
   fst (admin_serve (\<lambda>b. b) ''s3cret'' [''Bearer s3cret''] RouteOperation (Some []) False None count_up 3) = 4"
proof -
  have v: "ValidateConfig ''s3cret'' = None" by code_simp
  have four: "fst (admin_serve (\<lambda>b. b) ''s3cret'' [''Bearer s3cret''] RouteOperation (Some []) False None count_up 3) = 4" by code_simp
  obtain s' a where run: "admin_serve (\<lambda>b. b) ''s3cret'' [''Bearer s3cret''] RouteOperation (Some []) False None count_up 3 = (s', a)"
    by (metis prod.collapse)
  from admin_token_separate [OF v _ run, of "\<lambda>b. b"] have "Hash (\<lambda>b. b) ''s3cret'' = None" by simp
  with four show ?thesis by simp
qed

section \<open>Declared answers\<close>

text \<open>
  The answer type of an operation: an output of type \<open>P\<close> or a problem of ours with a declared status.
  The types of the views are the \<open>enum\<close> tags of their fields.
\<close>

definition problem_type :: "problem \<Rightarrow> bool" where
  "problem_type p \<longleftrightarrow> pb_Status p \<in> set declared_errors \<and> HasPrefix (pb_Type p) ''/api/problems/''"

definition answer_type :: "('o \<Rightarrow> bool) \<Rightarrow> problem + 'o \<Rightarrow> bool" where
  "answer_type P r \<longleftrightarrow> (case r of Inl p \<Rightarrow> problem_type p | Inr x \<Rightarrow> P x)"

definition change_type :: "problem option \<Rightarrow> bool" where
  "change_type r \<longleftrightarrow> (case r of None \<Rightarrow> True | Some p \<Rightarrow> problem_type p)"

definition wait_type :: "problem option option \<Rightarrow> bool" where
  "wait_type r \<longleftrightarrow> (case r of None \<Rightarrow> True | Some r \<Rightarrow> change_type r)"

definition page_type :: "('o \<Rightarrow> bool) \<Rightarrow> 'o page \<Rightarrow> bool" where
  "page_type P pg \<longleftrightarrow> list_all P (pg_Items pg) \<and> int (length (pg_Items pg)) \<le> pg_Total pg"

definition account_type :: "accountView \<Rightarrow> bool" where
  "account_type v \<longleftrightarrow> av_State v \<in> set [''connected'', ''refreshing'', ''temporarily_unavailable'', ''needs_sign_in'', ''disabled''] \<and>
     av_ExpiresAt v \<noteq> Some 0 \<and> av_RetryAt v \<noteq> Some 0"

definition login_type :: "loginStatusView \<Rightarrow> bool" where
  "login_type v \<longleftrightarrow> sv_State v \<in> set [''idle'', ''waiting'', ''exchanging'', ''succeeded'', ''failed'', ''canceled'', ''expired''] \<and>
     sv_ExpiresAt v \<noteq> Some 0"

text \<open>A page of requests: it is within the limit, and only a full page has a next cursor.\<close>

definition requests_type :: "int \<Rightarrow> requestView list \<times> string \<Rightarrow> bool" where
  "requests_type limit r \<longleftrightarrow> length (fst r) \<le> nat limit \<and> (snd r = [] \<or> length (fst r) = nat limit)"

lemma answer_type_simps [simp]:
  "answer_type P (Inr x) \<longleftrightarrow> P x" "answer_type P (Inl p) \<longleftrightarrow> problem_type p"
  by (simp_all add: answer_type_def)

lemma failure_typed [simp]: "problem_type (failure_problem err mutation)"
proof -
  have "list_all problem_type problem_table" by code_simp
  with failure_problem_table [of err mutation] show ?thesis by (simp add: list_all_iff)
qed

lemma query_typed [simp]: "problem_type invalidUsageQuery"
  by (simp add: problem_type_def invalidUsageQuery_def problem_of_def declared_errors_def HasPrefix_def)

lemma change_typed [simp]: "change_type (failure err mutation)"
  by (cases err) (simp_all add: change_type_def failure_def)

lemma run_change_typed [simp]: "wait_type (snd (run_change ctx others r))"
  by (auto simp: run_change_def wait_type_def split: prod.splits option.splits)

lemma paginate_typed: "list_all P items \<Longrightarrow> page_type P (paginate items input)"
  by (auto simp: page_type_def paginate_def Let_def list_all_iff dest!: in_set_takeD in_set_dropD)

lemma accountResponse_typed [simp]: "account_type (accountResponse s)"
  by (simp add: account_type_def accountResponse_def state_name_def optionalDate_def time_IsZero_def split: AccountState.splits)

lemma loginStatus_typed: "login_type (snd (loginStatus_handler now m))"
  by (simp add: loginStatus_handler_def login_type_def login_state_name_def optionalDate_def time_IsZero_def Let_def
      split: prod.splits LoginState.splits)

lemma parse_bound_Inl: "parse_bound parse raw = Inl p \<Longrightarrow> p = invalidUsageQuery"
  by (auto simp: parse_bound_def split: if_splits option.splits)

lemma parseUsageFilter_Inl: "parseUsageFilter parse i = Inl p \<Longrightarrow> p = invalidUsageQuery"
  by (auto simp: parseUsageFilter_def dest: parse_bound_Inl split: sum.splits if_splits)

lemma decodeRequestCursor_Inl: "decodeRequestCursor c raw hash = Inl p \<Longrightarrow> p = invalidUsageQuery"
  by (auto simp: decodeRequestCursor_def split: if_splits option.splits)

lemma summarizeUsage_typed: "answer_type (\<lambda>(from, to, _). from < to) (summarizeUsage parse now day io input groups db)"
  by (auto simp: summarizeUsage_def Let_def dest!: parseUsageFilter_Inl split: sum.splits option.splits)

lemma listRequests_typed: "answer_type (requests_type (ri_Limit input)) (listRequests c io input db)"
  by (auto simp: listRequests_def list_filter_def requests_type_def Let_def
      dest!: parseUsageFilter_Inl decodeRequestCursor_Inl split: sum.splits option.splits)

lemma list_typed:
  "answer_type (page_type (\<lambda>_. True)) (listModels lower page got)"
  "answer_type (page_type (\<lambda>_. True)) (listKeys lower io page enabled db)"
  "answer_type (page_type account_type) (listAccounts lower env io now page state w)"
  by (auto simp: listModels_def listKeys_def listAccounts_def list_all_iff intro!: paginate_typed split: option.splits sum.splits)


text \<open>The answer that is sent has the type of the operation's answer, or is a refusal before it ran.\<close>

lemma safeErrors_typed: "problem_type p \<Longrightarrow> problem_type (safeErrors p)"
  by (auto simp: problem_type_def safeErrors_def HasPrefix_def problem_of_def split: prod.splits)

lemma admin_serve_typed:
  assumes "answer_type P (snd (run s))"
  shows "answer_type P (aa_Result (snd (admin_serve sha token vs to query has_body mediaType run s))) \<or>
    aa_Result (snd (admin_serve sha token vs to query has_body mediaType run s)) = Inl method_missing"
proof -
  have q: "problem_type (safeErrors (framework_error status))" if "query_refused query has_body mediaType = Some status" for status
    using that by (auto simp: query_refused_def safeErrors_def framework_error_def safe_detail_def problem_of_def problem_type_def
        declared_errors_def HasPrefix_def split: option.splits if_splits)
  have u: "problem_type unauthorized" "problem_type route_missing" by code_simp+
  show ?thesis using assms q u
    by (auto simp: admin_serve_def Let_def dest: safeErrors_typed split: admin_route.splits option.splits prod.splits sum.splits)
qed

end
