(* ===== verification/AppConfig.thy ===== *)
theory AppConfig
  imports Management Base64
begin

text \<open>
  \<open>internal/app/config.go\<close>: the configuration read from the environment. \<open>time.ParseDuration\<close> is the
  parameter \<open>parse\<close>; \<open>net.SplitHostPort\<close>, \<open>strconv.ParseUint\<close> and base64 are modelled. Wiping the key
  on failure is not modelled.
\<close>

section \<open>Addresses\<close>

text \<open>\<open>net.SplitHostPort\<close>; \<open>i\<close> is the position of the last colon.\<close>

definition SplitHostPort :: "string \<Rightarrow> (string \<times> string) option" where
  "SplitHostPort s =
     (let (rport, rhost, found) = Cut (rev s) CHR '':''; i = length rhost in
      if \<not> found then None
      else if HasPrefix s ''['' then
        (let (host, rest, closed) = Cut (tl s) CHR '']'' in
         if \<not> closed \<or> rest = [] \<or> length host + 2 \<noteq> i then None
         else if CHR ''['' \<in> set (tl s) \<or> CHR '']'' \<in> set rest then None
         else Some (host, rev rport))
      else if CHR '':'' \<in> set rhost \<or> CHR ''['' \<in> set s \<or> CHR '']'' \<in> set s then None
      else Some (rev rhost, rev rport))"

section \<open>Configuration\<close>

record AppConfig =
  cf_listenAddr :: string
  cf_dbPath :: string
  cf_adminToken :: string
  cf_encryptionKey :: bytes
  cf_callbackAddr :: string
  cf_usageRetention :: duration

definition bad_retention :: error where
  "bad_retention = PlainErr ''app: CLAN_USAGE_RETENTION must be a positive Go duration''"

definition validAddress :: "string \<Rightarrow> bool" where
  "validAddress value =
     (case SplitHostPort value of None \<Rightarrow> False | Some (_, port) \<Rightarrow> (case ParseUint 65535 port of Inl _ \<Rightarrow> False | Inr _ \<Rightarrow> True))"

fun validate_addresses :: "(string \<times> string) list \<Rightarrow> error option" where
  "validate_addresses [] = None"
| "validate_addresses ((name, value) # rest) =
     (if \<not> validAddress value then Some (PlainErr (''app: '' @ name @ '' must be a TCP host:port address'')) else validate_addresses rest)"

definition config_validate :: "AppConfig \<Rightarrow> error option" where
  "config_validate c =
     (if cf_usageRetention c \<le> 0 then Some bad_retention
      else if ValidateConfig (cf_adminToken c) \<noteq> None
        then Some (PlainErr ''app: CLAN_ADMIN_TOKEN must contain a separate valid admin token'')
      else if length (cf_encryptionKey c) \<noteq> 32 then Some (PlainErr ''app: CLAN_ENCRYPTION_KEY must decode to 32 bytes'')
      else if blank (cf_dbPath c) then Some (PlainErr ''app: CLAN_DB_PATH must not be blank'')
      else validate_addresses [(''CLAN_LISTEN_ADDR'', cf_listenAddr c), (''CLAN_OAUTH_CALLBACK_ADDR'', cf_callbackAddr c)])"

definition cmp_Or :: "string \<Rightarrow> string \<Rightarrow> string" where
  "cmp_Or a b = (if a \<noteq> [] then a else b)"

definition loadConfig :: "(string \<Rightarrow> duration option) \<Rightarrow> (string \<Rightarrow> string) \<Rightarrow> AppConfig result" where
  "loadConfig parse getenv =
     (case parse (cmp_Or (getenv ''CLAN_USAGE_RETENTION'') ''2160h'') of
        None \<Rightarrow> Inl bad_retention
      | Some retention \<Rightarrow>
          if retention \<le> 0 then Inl bad_retention
          else
            (let encoded = getenv ''CLAN_ENCRYPTION_KEY'';
                 bad_key = Inl (PlainErr ''app: CLAN_ENCRYPTION_KEY must be standard base64 encoding of 32 bytes'') in
             case Std_Decode_strict encoded of
               None \<Rightarrow> bad_key
             | Some key \<Rightarrow>
                 if length key \<noteq> 32 \<or> ContainsAny encoded [CHR 0x0D, CHR 0x0A] then bad_key
                 else
                   (let c = \<lparr>cf_listenAddr = cmp_Or (getenv ''CLAN_LISTEN_ADDR'') ''127.0.0.1:8080'',
                             cf_dbPath = cmp_Or (getenv ''CLAN_DB_PATH'') ''./clan.db'',
                             cf_adminToken = getenv ''CLAN_ADMIN_TOKEN'', cf_encryptionKey = key,
                             cf_callbackAddr = cmp_Or (getenv ''CLAN_OAUTH_CALLBACK_ADDR'') ''127.0.0.1:1455'',
                             cf_usageRetention = retention\<rparr>
                    in case config_validate c of Some err \<Rightarrow> Inl err | None \<Rightarrow> Inr c)))"

section \<open>Laws\<close>

text \<open>What the address syntax admits, independently of how the text is scanned.\<close>

definition plain_host :: "string \<Rightarrow> bool" where
  "plain_host h \<longleftrightarrow> set h \<inter> set '':[]'' = {}"

definition host_port :: "string \<Rightarrow> string \<Rightarrow> string \<Rightarrow> bool" where
  "host_port s host port \<longleftrightarrow>
     plain_host port \<and>
     (plain_host host \<and> s = host @ '':'' @ port \<or> set host \<inter> set ''[]'' = {} \<and> s = ''['' @ host @ '']:'' @ port)"

lemma Cut_found: "Cut s c = (a, b, True) \<longleftrightarrow> s = a @ c # b \<and> c \<notin> set a"
proof
  assume "Cut s c = (a, b, True)"
  then obtain x where x: "dropWhile (\<lambda>y. y \<noteq> c) s = x # b" and a: "a = takeWhile (\<lambda>y. y \<noteq> c) s"
    by (auto simp: Cut_def Let_def split: list.splits)
  have "x = c" using hd_dropWhile [of "\<lambda>y. y \<noteq> c" s] x by auto
  moreover have "s = a @ x # b" using takeWhile_dropWhile_id [of "\<lambda>y. y \<noteq> c" s] x a by simp
  moreover have "c \<notin> set a" using a set_takeWhileD by fastforce
  ultimately show "s = a @ c # b \<and> c \<notin> set a" by simp
next
  assume s: "s = a @ c # b \<and> c \<notin> set a"
  then have "takeWhile (\<lambda>y. y \<noteq> c) s = a" and "dropWhile (\<lambda>y. y \<noteq> c) s = c # b"
    by (simp_all add: takeWhile_append dropWhile_append)
  then show "Cut s c = (a, b, True)" by (simp add: Cut_def)
qed

lemma Cut_rev: "Cut (rev s) c = (rp, rh, True) \<longleftrightarrow> s = rev rh @ c # rev rp \<and> c \<notin> set rp"
proof -
  have "rev s = rp @ c # rh \<longleftrightarrow> s = rev rh @ c # rev rp" by (auto simp: rev_swap)
  then show ?thesis by (simp add: Cut_found)
qed

lemma SplitHostPort_iff: "SplitHostPort s = Some (host, port) \<longleftrightarrow> host_port s host port"
proof
  assume a: "SplitHostPort s = Some (host, port)"
  obtain rp rh f where cut: "Cut (rev s) CHR '':'' = (rp, rh, f)" by (metis prod_cases3)
  have f: "f" using a cut by (cases f) (simp_all add: SplitHostPort_def)
  then have s: "s = rev rh @ CHR '':'' # rev rp" and rp: "CHR '':'' \<notin> set rp" using Cut_rev cut by auto
  show "host_port s host port"
  proof (cases "HasPrefix s ''[''")
    case True
    obtain h r c where cut2: "Cut (tl s) CHR '']'' = (h, r, c)" by (metis prod_cases3)
    with a cut f True have c: "c" and len: "length h + 2 = length rh" and open_: "CHR ''['' \<notin> set (tl s)" "CHR '']'' \<notin> set r"
      and hp: "host = h" "port = rev rp" by (auto simp: SplitHostPort_def split: if_splits)
    from c cut2 have tl: "tl s = h @ CHR '']'' # r" by (simp add: Cut_found)
    from True have hd: "s = CHR ''['' # tl s" by (cases s) (auto simp: HasPrefix_def)
    from s hd tl have eq: "rev rh @ CHR '':'' # rev rp = CHR ''['' # h @ CHR '']'' # r" by simp
    have "rev rh = CHR ''['' # h @ [CHR '']''] \<and> r = CHR '':'' # rev rp"
    proof -
      have "rev rh @ CHR '':'' # rev rp = (CHR ''['' # h @ [CHR '']'']) @ r" using eq by simp
      moreover have "length (rev rh) = length (CHR ''['' # h @ [CHR '']''])" using len by simp
      ultimately show ?thesis by (metis append_eq_append_conv)
    qed
    with s open_ tl hp rp cut2 c show ?thesis by (auto simp: host_port_def plain_host_def Cut_found)
  next
    case False
    with a cut f have "CHR '':'' \<notin> set rh" "CHR ''['' \<notin> set s" "CHR '']'' \<notin> set s" "host = rev rh" "port = rev rp"
      by (auto simp: SplitHostPort_def split: if_splits)
    with s rp show ?thesis by (auto simp: host_port_def plain_host_def)
  qed
next
  assume hp: "host_port s host port"
  then have port: "set port \<inter> set '':[]'' = {}" by (simp add: host_port_def plain_host_def)
  from hp consider (plain) "plain_host host" "s = host @ '':'' @ port"
    | (bracket) "set host \<inter> set ''[]'' = {}" "s = ''['' @ host @ '']:'' @ port" by (auto simp: host_port_def)
  then show "SplitHostPort s = Some (host, port)"
  proof cases
    case plain
    then have "Cut (rev s) CHR '':'' = (rev port, rev host, True)" unfolding Cut_rev using port by simp
    moreover have "\<not> HasPrefix s ''[''" using plain by (cases host) (auto simp: HasPrefix_def plain_host_def)
    ultimately show ?thesis using plain port by (auto simp: SplitHostPort_def plain_host_def)
  next
    case bracket
    then have "Cut (rev s) CHR '':'' = (rev port, rev (''['' @ host @ '']''), True)" unfolding Cut_rev using port by simp
    moreover have "Cut (tl s) CHR '']'' = (host, '':'' @ port, True)" using bracket by (simp add: Cut_found)
    moreover have "HasPrefix s ''[''" using bracket by (simp add: HasPrefix_def)
    ultimately show ?thesis using bracket port by (auto simp: SplitHostPort_def)
  qed
qed

definition tcp_address :: "string \<Rightarrow> bool" where
  "tcp_address s \<longleftrightarrow> (\<exists>host port. host_port s host port \<and> port \<noteq> [] \<and> list_all digit port \<and> dec_val port \<le> 65535)"

lemma ParseUint_ok:
  assumes "0 \<le> maxv"
  shows "(\<exists>v. ParseUint maxv s = Inr v) \<longleftrightarrow> s \<noteq> [] \<and> list_all digit s \<and> dec_val s \<le> maxv"
proof
  assume "\<exists>v. ParseUint maxv s = Inr v"
  then obtain v where "s \<noteq> []" and "parse_digits maxv 0 s = Inr v" by (auto simp: ParseUint_def split: if_splits)
  with parse_digits_Inr [of maxv 0 s v] assms show "s \<noteq> [] \<and> list_all digit s \<and> dec_val s \<le> maxv" by (simp add: dec_val_def)
next
  assume s: "s \<noteq> [] \<and> list_all digit s \<and> dec_val s \<le> maxv"
  then have "parse_digits maxv 0 s = Inr (dec_val s)" by (simp add: parse_digits_digits dec_val_def)
  with s show "\<exists>v. ParseUint maxv s = Inr v" by (simp add: ParseUint_def)
qed

lemma validAddress_iff: "validAddress s \<longleftrightarrow> tcp_address s"
proof -
  have "(case ParseUint 65535 port of Inl _ \<Rightarrow> False | Inr _ \<Rightarrow> True) \<longleftrightarrow> (\<exists>v. ParseUint 65535 port = Inr v)" for port
    by (auto split: sum.splits)
  then have "validAddress s \<longleftrightarrow> (\<exists>host port. SplitHostPort s = Some (host, port) \<and> (\<exists>v. ParseUint 65535 port = Inr v))"
    by (auto simp: validAddress_def split: option.splits)
  then show ?thesis by (auto simp: SplitHostPort_iff ParseUint_ok tcp_address_def)
qed

text \<open>The type of configurations the application can start with.\<close>

definition config_wf :: "AppConfig \<Rightarrow> bool" where
  "config_wf c \<longleftrightarrow>
     cf_usageRetention c > 0 \<and> length (cf_encryptionKey c) = 32 \<and> \<not> blank (cf_dbPath c) \<and>
     validToken (cf_adminToken c) \<and> \<not> HasPrefix (cf_adminToken c) keyPrefix \<and>
     tcp_address (cf_listenAddr c) \<and> tcp_address (cf_callbackAddr c)"

lemma Hash_prefix: "\<not> HasPrefix raw keyPrefix \<Longrightarrow> Hash sha raw = None"
  by (simp add: Hash_def)

lemma config_validate_wf:
  "config_validate c = None \<longleftrightarrow>
     cf_usageRetention c > 0 \<and> length (cf_encryptionKey c) = 32 \<and> \<not> blank (cf_dbPath c) \<and> validToken (cf_adminToken c) \<and>
     \<not> HasPrefix (cf_adminToken c) keyPrefix \<and> tcp_address (cf_listenAddr c) \<and> tcp_address (cf_callbackAddr c)"
  by (simp add: config_validate_def ValidateConfig_def validAddress_iff keyPrefix_def not_le)

lemma loadConfig_Inr:
  "loadConfig parse getenv = Inr c \<Longrightarrow>
     config_validate c = None \<and> parse (cmp_Or (getenv ''CLAN_USAGE_RETENTION'') ''2160h'') = Some (cf_usageRetention c) \<and>
     Std_Decode_strict (getenv ''CLAN_ENCRYPTION_KEY'') = Some (cf_encryptionKey c) \<and> cf_adminToken c = getenv ''CLAN_ADMIN_TOKEN''"
  by (auto simp: loadConfig_def Let_def split: option.splits if_splits)

text \<open>
  C13. \<open>validate\<close> accepts exactly the well-formed configurations: a positive retention, a 32-byte key, a
  path that is not blank, two addresses \<open>host:port\<close> or \<open>[host]:port\<close> with a decimal port below 65536, and
  an administrator token of the token syntax without the prefix of client keys. So every configuration
  that \<open>loadConfig\<close> returns is of this type, and its administrator token is no client key.
\<close>

theorem config_well_formed:
  "(config_validate c = None \<longleftrightarrow> config_wf c) \<and>
   (case loadConfig parse getenv of
      Inl _ \<Rightarrow> True
    | Inr c \<Rightarrow> config_wf c \<and> Hash sha (cf_adminToken c) = None \<and> Std_Decode_strict (getenv ''CLAN_ENCRYPTION_KEY'') = Some (cf_encryptionKey c))"
proof -
  have wf: "config_validate c = None \<longleftrightarrow> config_wf c" for c by (simp add: config_validate_wf config_wf_def)
  show ?thesis using loadConfig_Inr [of parse getenv] wf by (auto simp: config_wf_def Hash_prefix split: sum.splits)
qed

lemma address_examples:
  "tcp_address ''[::1]:0'' \<and> tcp_address '':8080'' \<and> \<not> tcp_address ''::1:80'' \<and> \<not> tcp_address ''localhost:65536'' \<and> \<not> tcp_address ''[::1]''"
  unfolding validAddress_iff [symmetric] by code_simp

text \<open>An environment with only the two secrets set: the defaults complete it.\<close>

definition sample_env :: "string \<Rightarrow> string" where
  "sample_env name =
     (if name = ''CLAN_ENCRYPTION_KEY'' then ''MDEyMzQ1Njc4OWFiY2RlZjAxMjM0NTY3ODlhYmNkZWY=''
      else if name = ''CLAN_ADMIN_TOKEN'' then ''s3cret'' else [])"

definition sample_duration :: "string \<Rightarrow> duration option" where
  "sample_duration s = (if s = ''2160h'' then Some (2160 * Hour) else None)"

theorem config_well_formed_witness:
  "\<exists>c. loadConfig sample_duration sample_env = Inr c \<and> config_wf c \<and> Hash (\<lambda>b. b) (cf_adminToken c) = None"
proof -
  have "(case loadConfig sample_duration sample_env of Inl _ \<Rightarrow> False | Inr _ \<Rightarrow> True)" by code_simp
  then obtain c where c: "loadConfig sample_duration sample_env = Inr c" by (auto split: sum.splits)
  from config_well_formed [where c = c and parse = sample_duration and getenv = sample_env and sha = "\<lambda>b. b"] show ?thesis by (simp add: c)
qed

end
