(* ===== verification/Migrations.thy ===== *)
theory Migrations
  imports Storage
begin

text \<open>
  \<open>internal/storage/migrations.go\<close> and \<open>Open\<close>, \<open>Close\<close> of \<open>storage.go\<close>: the checks of the schema, the two
  migrations and the opening of the store. The migration library is a parameter: \<open>up\<close> is given the
  migrations and the database, and \<open>goose_up\<close> in \<open>MigrationLaws\<close> states what is relied on. Table
  columns are those of the rows in \<open>Storage\<close>; the name of the database file is not modelled.
\<close>

section \<open>The database file\<close>

definition schemaVersion :: int where "schemaVersion = 2"

text \<open>
  \<open>PRAGMA user_version\<close>, the name and type of each row of \<open>sqlite_master\<close> outside \<open>sqlite_*\<close>, the
  version and \<open>is_applied\<close> of each row of \<open>goose_db_version\<close>, and the tables. A table that does not
  exist is left unspecified in \<open>sd_data\<close>.
\<close>

record Database =
  sd_version :: int
  sd_objects :: "(string \<times> string) list"
  sd_history :: "(int \<times> bool) list"
  sd_data :: DB

abbreviation goose_table :: string where "goose_table \<equiv> ''goose_db_version''"

text \<open>\<open>objects[name]\<close>: a later row replaces an earlier one, a missing name has the empty type.\<close>

definition object_type :: "(string \<times> string) list \<Rightarrow> string \<Rightarrow> string" where
  "object_type objects name = (case map_of (rev objects) name of None \<Rightarrow> [] | Some kind \<Rightarrow> kind)"

definition schemaObjects :: "error option \<Rightarrow> Database \<Rightarrow> (string \<times> string) list result" where
  "schemaObjects io d = (case io of Some e \<Rightarrow> Inl e | None \<Rightarrow> Inr (sd_objects d))"

section \<open>Preflight\<close>

definition schema_conflict :: error where
  "schema_conflict = PlainErr ''storage: conflicting schema''"

text \<open>The failures of the three queries of a check.\<close>

record check_turn =
  ck_version :: "error option"
  ck_objects :: "error option"
  ck_history :: "error option"

definition objects_conflict :: "int \<Rightarrow> (string \<times> string) list \<Rightarrow> bool" where
  "objects_conflict version objects =
     (if version = 0 then list_ex (\<lambda>(name, _). name \<noteq> goose_table) objects
      else object_type objects ''accounts'' \<noteq> ''table'' \<or> object_type objects ''access_keys'' \<noteq> ''table'' \<or>
           version = 1 \<and> object_type objects ''requests'' \<noteq> [] \<or>
           version = 2 \<and> object_type objects ''requests'' \<noteq> ''table'')"

fun history_scan :: "int list \<Rightarrow> int \<Rightarrow> (int \<times> bool) list \<Rightarrow> (int list \<times> int) option" where
  "history_scan seen highest [] = Some (seen, highest)"
| "history_scan seen highest ((version, applied) # rest) =
     (if \<not> applied \<or> version < 0 \<or> version > schemaVersion \<or> version \<in> set seen then None
      else history_scan (version # seen) (max highest version) rest)"

definition history_conflict :: "int \<Rightarrow> (int \<times> bool) list \<Rightarrow> bool" where
  "history_conflict version history =
     (case history_scan [] 0 history of
        None \<Rightarrow> True
      | Some (seen, highest) \<Rightarrow>
          \<not> list_all (\<lambda>v. v \<in> set seen) [0..highest] \<or> highest \<noteq> version \<and> \<not> (version = 1 \<and> highest = 0))"

definition checkSchema :: "check_turn \<Rightarrow> Database \<Rightarrow> int result" where
  "checkSchema t d =
     (case ck_version t of
        Some e \<Rightarrow> Inl (WrapErr ''storage: reading schema version'' e)
      | None \<Rightarrow>
          (let version = sd_version d in
           if version < 0 \<or> version > schemaVersion then Inl (PlainErr ''storage: unsupported schema version'')
           else bindR (schemaObjects (ck_objects t) d) (\<lambda>objects.
             if objects_conflict version objects then Inl schema_conflict
             else if object_type objects goose_table = [] \<and> version < 2 then Inr version
             else if object_type objects goose_table \<noteq> ''table'' then Inl schema_conflict
             else case ck_history t of
                    Some e \<Rightarrow> Inl (WrapErr ''storage: reading migration history'' e)
                  | None \<Rightarrow> if history_conflict version (sd_history d) then Inl schema_conflict else Inr version)))"

section \<open>Migrations\<close>

text \<open>One \<open>CREATE\<close> statement: it fails on an error of the database and when the name is taken.\<close>

definition create_object :: "error option \<Rightarrow> string \<Rightarrow> string \<Rightarrow> Database \<Rightarrow> Database result" where
  "create_object io name kind d =
     (case io of
        Some e \<Rightarrow> Inl e
      | None \<Rightarrow> if name \<in> fst ` set (sd_objects d) then Inl (PlainErr ''sqlite: object already exists'')
                else Inr (d\<lparr>sd_objects := sd_objects d @ [(name, kind)]\<rparr>))"

definition set_version :: "error option \<Rightarrow> int \<Rightarrow> Database \<Rightarrow> Database result" where
  "set_version io v d = (case io of Some e \<Rightarrow> Inl e | None \<Rightarrow> Inr (d\<lparr>sd_version := v\<rparr>))"

definition creating :: "Database result \<Rightarrow> Database result" where
  "creating r = (case r of Inl e \<Rightarrow> Inl (WrapErr ''storage: creating schema'' e) | Inr d \<Rightarrow> Inr d)"

text \<open>The failures of the statements of a migration, in their order; a shorter list means no further failure.\<close>

definition nth_io :: "error option list \<Rightarrow> nat \<Rightarrow> error option" where
  "nth_io ios n = (if n < length ios then ios ! n else None)"

definition createSchema :: "error option list \<Rightarrow> Database \<Rightarrow> Database result" where
  "createSchema ios d =
     bindR (creating (create_object (nth_io ios 0) ''accounts'' ''table'' d)) (\<lambda>d.
     bindR (creating (create_object (nth_io ios 1) ''access_keys'' ''table'' d)) (\<lambda>d.
     Inr (d\<lparr>sd_data := (sd_data d)\<lparr>accounts_t := [], access_keys_t := []\<rparr>\<rparr>)))"

definition adoptSchema :: "error option \<Rightarrow> error option list \<Rightarrow> Database \<Rightarrow> Database result" where
  "adoptSchema io ios d =
     (case io of
        Some e \<Rightarrow> Inl e
      | None \<Rightarrow>
          if sd_version d = 0 then bindR (createSchema ios d) (set_version (nth_io ios 2) 1)
          else if sd_version d = 1 then Inr d
          else Inl (PlainErr ''storage: unsupported baseline version''))"

text \<open>\<open>migrations/00002_requests.sql\<close>, which runs in one transaction.\<close>

definition requestsMigration :: "error option list \<Rightarrow> Database \<Rightarrow> Database result" where
  "requestsMigration ios d =
     bindR (create_object (nth_io ios 0) ''requests'' ''table'' d) (\<lambda>d.
     bindR (create_object (nth_io ios 1) ''requests_finished_at'' ''index'' d) (\<lambda>d.
     bindR (create_object (nth_io ios 2) ''requests_key_finished_at'' ''index'' d) (\<lambda>d.
     bindR (create_object (nth_io ios 3) ''requests_account_finished_at'' ''index'' d) (\<lambda>d.
     set_version (nth_io ios 4) 2 (d\<lparr>sd_data := (sd_data d)\<lparr>requests_t := []\<rparr>\<rparr>)))))"

type_synonym migration = "int \<times> (Database \<Rightarrow> Database result)"

record migrate_turn =
  mt_before :: check_turn
  mt_list :: "error option"
  mt_version :: "error option"
  mt_baseline :: "error option list"
  mt_requests :: "error option list"
  mt_after :: check_turn

definition migration_list :: "migrate_turn \<Rightarrow> migration list" where
  "migration_list t = [(1, adoptSchema (mt_version t) (mt_baseline t)), (2, requestsMigration (mt_requests t))]"

definition verify_credentials :: "StoreEnv \<Rightarrow> error option \<Rightarrow> int \<Rightarrow> Database \<Rightarrow> error option" where
  "verify_credentials env io version d =
     (if version = 0 then None
      else case ListAccounts env io (sd_data d) of
             Inl e \<Rightarrow> Some (WrapErr ''storage: verifying account credentials'' e)
           | Inr _ \<Rightarrow> None)"

definition migrate ::
  "StoreEnv \<Rightarrow> migrate_turn \<Rightarrow> (migration list \<Rightarrow> Database \<Rightarrow> Database \<times> error option) \<Rightarrow> Database \<Rightarrow> Database \<times> error option" where
  "migrate env t up d =
     (case checkSchema (mt_before t) d of
        Inl e \<Rightarrow> (d, Some e)
      | Inr version \<Rightarrow>
          (case verify_credentials env (mt_list t) version d of
             Some e \<Rightarrow> (d, Some e)
           | None \<Rightarrow>
               (case up (migration_list t) d of
                  (d, Some e) \<Rightarrow> (d, Some (WrapErr ''storage: migrating'' e))
                | (d, None) \<Rightarrow> (d, case checkSchema (mt_after t) d of Inl e \<Rightarrow> Some e | Inr _ \<Rightarrow> None))))"

section \<open>Opening and closing\<close>

datatype pool = Operational | Reports

record open_turn =
  op_dsn :: "error option"
  op_open :: "error option"
  op_migrate :: migrate_turn
  op_mode :: "string result" \<comment> \<open>the journal mode that SQLite reports\<close>
  op_reader :: "error option"
  op_ping :: "error option"
  op_closeReader :: "error option"
  op_closeDB :: "error option"

text \<open>Closing a pool releases it, whatever error is reported.\<close>

definition close_pool :: "pool \<Rightarrow> pool list \<Rightarrow> pool list" where
  "close_pool p pools = filter (\<lambda>q. q \<noteq> p) pools"

definition closeAfterOpenError :: "error option \<Rightarrow> error \<Rightarrow> error" where
  "closeAfterOpenError closeErr err =
     (case closeErr of None \<Rightarrow> err | Some e \<Rightarrow> JoinErr [err, WrapErr ''storage: closing database'' e])"

definition Store_Close :: "error option \<Rightarrow> error option \<Rightarrow> pool list \<Rightarrow> pool list \<times> error option" where
  "Store_Close readerErr dbErr pools = (close_pool Operational (close_pool Reports pools), errors_Join [readerErr, dbErr])"

text \<open>The result: the database, the pools that are open, and the error.\<close>

definition Store_Open ::
  "StoreEnv \<Rightarrow> open_turn \<Rightarrow> (migration list \<Rightarrow> Database \<Rightarrow> Database \<times> error option) \<Rightarrow> string \<Rightarrow> bool \<Rightarrow> Database \<Rightarrow>
   Database \<times> pool list \<times> error option" where
  "Store_Open env t up path has_cipher d =
     (if blank path then (d, [], Some (invalid_input ''database path is required''))
      else if \<not> has_cipher then (d, [], Some (invalid_input ''credential cipher is required''))
      else case op_dsn t of
        Some e \<Rightarrow> (d, [], Some (WrapErr ''storage: resolving database path'' e))
      | None \<Rightarrow>
          (case op_open t of
             Some e \<Rightarrow> (d, [], Some (WrapErr ''storage: opening database'' e))
           | None \<Rightarrow>
               (let failed = (\<lambda>d e. (d, close_pool Operational [Operational], Some (closeAfterOpenError (op_closeDB t) e))) in
                case migrate env (op_migrate t) up d of
                  (d, Some e) \<Rightarrow> failed d e
                | (d, None) \<Rightarrow>
                    (case op_mode t of
                       Inl e \<Rightarrow> failed d (WrapErr ''storage: enabling WAL'' e)
                     | Inr mode \<Rightarrow>
                         if mode \<noteq> ''wal'' then failed d (PlainErr ''storage: WAL is required'')
                         else (case op_reader t of
                            Some e \<Rightarrow> failed d e
                          | None \<Rightarrow>
                              (case op_ping t of
                                 None \<Rightarrow> (d, [Operational, Reports], None)
                               | Some e \<Rightarrow>
                                   (let (pools, closeErr) = Store_Close (op_closeReader t) (op_closeDB t) [Operational, Reports]
                                    in (d, pools, errors_Join [Some e, closeErr]))))))))"

end
