(* ===== verification/App.thy ===== *)
theory App
  imports Attempts Requests AppConfig Migrations
begin

text \<open>
  \<open>internal/app\<close>: startup with its cleanup, serving, the retention worker and the ordered shutdown.
  Network listeners and the HTTP server are parameters, by the result of each call; goroutines that
  run beside a step are functions on the executor.
\<close>

section \<open>Startup\<close>

text \<open>What the process holds: the open pools of the store, the two listeners and the running components.\<close>

record resources =
  rs_pools :: "pool list"
  rs_listener :: bool
  rs_callback :: bool
  rs_oauth :: bool
  rs_executor :: bool
  rs_retention :: bool

definition no_resources :: resources where
  "no_resources = \<lparr>rs_pools = [], rs_listener = False, rs_callback = False, rs_oauth = False, rs_executor = False, rs_retention = False\<rparr>"

record startup_turn =
  su_logger :: bool
  su_oauth :: "error option" \<comment> \<open>the results of the constructors\<close>
  su_codex :: "error option"
  su_aead :: "bytes \<Rightarrow> AEAD result"
  su_store :: StoreEnv \<comment> \<open>the text codecs of credentials\<close>
  su_open :: open_turn
  su_listen :: "error option"
  su_callback :: "error option"
  su_manager :: "error option"
  su_executor :: "error option"
  su_management :: "error option"
  su_gateway :: "error option"
  su_ctx :: "ctx_error option"

text \<open>Closing the manager closes the callback listener that it serves.\<close>

definition closeStartup :: "resources \<Rightarrow> resources" where
  "closeStartup r =
     (let r = r\<lparr>rs_retention := False\<rparr>;
          r = (if rs_executor r then r\<lparr>rs_executor := False\<rparr> else r);
          r = (if rs_oauth r then r\<lparr>rs_oauth := False, rs_callback := False\<rparr>
               else if rs_callback r then r\<lparr>rs_callback := False\<rparr> else r);
          r = (if rs_listener r then r\<lparr>rs_listener := False\<rparr> else r)
      in if rs_pools r \<noteq> [] then r\<lparr>rs_pools := fst (Store_Close None None (rs_pools r))\<rparr> else r)"

definition starting :: "string \<Rightarrow> error option \<Rightarrow> resources \<Rightarrow> (resources \<Rightarrow> resources \<times> error option) \<Rightarrow> resources \<times> error option" where
  "starting what failed r next =
     (case failed of Some e \<Rightarrow> (closeStartup r, Some (WrapErr (''app: '' @ what) e)) | None \<Rightarrow> next r)"

text \<open>The constructors after the store, each with what it adds.\<close>

definition start_components :: "startup_turn \<Rightarrow> AppConfig \<Rightarrow> resources \<Rightarrow> resources \<times> error option" where
  "start_components t c r =
     starting ''binding CLAN_LISTEN_ADDR'' (su_listen t) r (\<lambda>r.
     starting ''binding CLAN_OAUTH_CALLBACK_ADDR'' (su_callback t) (r\<lparr>rs_listener := True\<rparr>) (\<lambda>r.
     starting ''starting OAuth callback serving'' (su_manager t) (r\<lparr>rs_callback := True\<rparr>) (\<lambda>r.
     starting ''starting execution'' (su_executor t) (r\<lparr>rs_oauth := True\<rparr>) (\<lambda>r.
     starting ''starting management'' (case ValidateConfig (cf_adminToken c) of Some e \<Rightarrow> Some e | None \<Rightarrow> su_management t) (r\<lparr>rs_executor := True\<rparr>) (\<lambda>r.
     starting ''starting client API'' (su_gateway t) r (\<lambda>r.
     starting ''startup canceled'' (map_option CtxErr (su_ctx t)) r (\<lambda>r.
     (r\<lparr>rs_retention := True\<rparr>, None))))))))"

definition newApplication ::
  "startup_turn \<Rightarrow> (migration list \<Rightarrow> Database \<Rightarrow> Database \<times> error option) \<Rightarrow> AppConfig \<Rightarrow> Database \<Rightarrow> Database \<times> resources \<times> error option" where
  "newApplication t up c d =
     (case config_validate c of
        Some e \<Rightarrow> (d, no_resources, Some e)
      | None \<Rightarrow>
          if \<not> su_logger t then (d, no_resources, Some (PlainErr ''app: logger is required''))
          else case su_oauth t of
            Some e \<Rightarrow> (d, no_resources, Some (WrapErr ''app: configuring OAuth client'' e))
          | None \<Rightarrow>
              (case su_codex t of
                 Some e \<Rightarrow> (d, no_resources, Some (WrapErr ''app: configuring Codex client'' e))
               | None \<Rightarrow>
                   (case Cipher_New (su_aead t) (cf_encryptionKey c) of
                      Inl e \<Rightarrow> (d, closeStartup no_resources, Some (WrapErr ''app: configuring credential cipher'' e))
                    | Inr cipher \<Rightarrow>
                        (case Store_Open ((su_store t)\<lparr>se_cipher := cipher\<rparr>) (su_open t) up (cf_dbPath c) True d of
                           (d, pools, Some e) \<Rightarrow> (d, closeStartup (no_resources\<lparr>rs_pools := pools\<rparr>), Some (WrapErr ''app: opening the database'' e))
                         | (d, pools, None) \<Rightarrow> (d, start_components t c (no_resources\<lparr>rs_pools := pools\<rparr>))))))"

section \<open>The running application\<close>

record application =
  ap_exec :: Executor
  ap_canceled :: bool \<comment> \<open>the context of every request was canceled\<close>
  ap_retention :: bool
  ap_serving :: bool
  ap_pools :: "pool list"

definition started :: "DB \<Rightarrow> application" where
  "started db = \<lparr>ap_exec = New_Executor \<lparr>w_mgr = NewManager, w_db = db\<rparr>, ap_canceled = False, ap_retention = True, ap_serving = True,
     ap_pools = [Operational, Reports]\<rparr>"

text \<open>One turn of the retention worker: its context, or a tick with the turns of the pruning it starts.\<close>

fun retention_worker :: "duration \<Rightarrow> (time \<times> prune_turn list) option list \<Rightarrow> DB \<Rightarrow> DB" where
  "retention_worker retention [] db = db"
| "retention_worker retention (None # ticks) db = db"
| "retention_worker retention (Some (now, turns) # ticks) db =
     retention_worker retention ticks (fst (pruneRequests turns db (now - retention)))"

section \<open>Shutdown\<close>

text \<open>\<open>cancelRequests\<close> ends the context from which every request's is derived.\<close>

definition cancelRequests :: "Executor \<Rightarrow> Executor" where
  "cancelRequests e = fold (\<lambda>r. upd_request r (cancel_request Canceled)) (ex_active e) e"

record shutdown_turn =
  sd_http :: "error option" \<comment> \<open>\<open>server.Shutdown\<close>\<close>
  sd_during :: "Executor \<Rightarrow> Executor" \<comment> \<open>what everything else does meanwhile, the deadline of the OAuth stop included\<close>
  sd_expired :: "bool \<times> bool" \<comment> \<open>the deadline ended the wait for execution, for OAuth\<close>
  sd_oauth :: "error option"
  sd_reader :: "error option"
  sd_db :: "error option"

text \<open>
  \<open>Close\<close> of the executor has returned when the requests it waits for are done and no catalog job runs;
  \<open>Shutdown\<close> of the manager when no OAuth job runs. Until then only the deadline ends the wait.
\<close>

definition executor_closed :: "nat list \<Rightarrow> Executor \<Rightarrow> bool" where
  "executor_closed waits e \<longleftrightarrow> list_all (\<lambda>r. re_done (ex_requests e ! r)) waits \<and> cat_jobs (ex_catalog e) = []"

definition set_mgr :: "Manager \<Rightarrow> Executor \<Rightarrow> Executor" where
  "set_mgr m e = e\<lparr>ex_world := (ex_world e)\<lparr>w_mgr := m\<rparr>\<rparr>"

text \<open>The state in which both stops have begun, and the requests that \<open>Close\<close> waits for.\<close>

definition shutdown_begin :: "application \<Rightarrow> Executor \<times> nat list" where
  "shutdown_begin a =
     (let e = cancelRequests (ap_exec a);
          (e, waits) = Executor_Close e
      in (set_mgr (stop_begin (ex_mgr e)) e, waits))"

definition shutdown :: "shutdown_turn \<Rightarrow> application \<Rightarrow> application \<times> error option" where
  "shutdown t a =
     (let (e, waits) = shutdown_begin a;
          e = sd_during t e;
          a = a\<lparr>ap_exec := e, ap_canceled := True, ap_retention := False\<rparr>
      in case sd_http t of
           Some err \<Rightarrow> (a, Some (WrapErr ''app: HTTP shutdown'' err))
         | None \<Rightarrow>
             (let a = a\<lparr>ap_serving := False\<rparr> in
              if fst (sd_expired t) \<or> \<not> executor_closed waits e then (a, Some (PlainErr ''app: execution shutdown did not complete''))
              else if snd (sd_expired t) \<or> mg_jobs (ex_mgr e) \<noteq> [] then (a, Some (PlainErr ''app: OAuth shutdown did not complete''))
              else
                (let a = a\<lparr>ap_exec := set_mgr (stop_end (ex_mgr e)) e\<rparr> in
                 case sd_oauth t of
                   Some err \<Rightarrow> (a, Some (WrapErr ''app: OAuth shutdown'' err))
                 | None \<Rightarrow>
                     (let (pools, closeErr) = Store_Close (sd_reader t) (sd_db t) (ap_pools a)
                      in (a\<lparr>ap_pools := pools\<rparr>, map_option (WrapErr ''app: closing the database'') closeErr)))))"

text \<open>
  \<open>run\<close>: \<open>Serve\<close> returned first (with \<open>None\<close> for \<open>ErrServerClosed\<close>), or the context ended and \<open>Serve\<close>
  returns later; the deadline may pass first, while cleanup goes on.
\<close>

record run_turn =
  rn_served :: "error option option"
  rn_served_late :: "error option option" \<comment> \<open>after the shutdown; \<open>None\<close> when the deadline passed first\<close>
  rn_deadline :: bool
  rn_shutdown :: shutdown_turn

definition serve_error :: "error option \<Rightarrow> error option" where
  "serve_error served = map_option (WrapErr ''app: HTTP serving'') served"

definition shutdown_overdue :: error where
  "shutdown_overdue = PlainErr ''app: shutdown deadline exceeded; cleanup is incomplete''"

definition app_run :: "run_turn \<Rightarrow> application \<Rightarrow> application option \<times> error option" where
  "app_run t a =
     (let serveErr = (case rn_served t of Some served \<Rightarrow> serve_error served | None \<Rightarrow> None) in
      if rn_deadline t then (None, Some shutdown_overdue)
      else
        (let (a, err) = shutdown (rn_shutdown t) a in
         if err = None \<and> rn_served t = None then
           (case rn_served_late t of
              None \<Rightarrow> (Some a, Some shutdown_overdue)
            | Some served \<Rightarrow> (Some a, errors_Join [serve_error served, err]))
         else (Some a, errors_Join [serveErr, err])))"

end
