(* ===== verification/MigrationLaws.thy ===== *)
theory MigrationLaws
  imports Migrations StorageLaws
begin

text \<open>
  What a check of the schema accepts, and why an interrupted migration can always be resumed: the
  databases that pass the check are closed under every prefix of the migrations.
\<close>

section \<open>The schema type\<close>

text \<open>The versions applied are 0 up to the highest, each once; it is the schema version, or the library's table was only just created.\<close>

definition ledger_ok :: "int \<Rightarrow> (int \<times> bool) list \<Rightarrow> bool" where
  "ledger_ok version history \<longleftrightarrow>
     list_all snd history \<and>
     distinct (map fst history) \<and> (set (map fst history) = {0..version} \<or> version = 1 \<and> set (map fst history) = {0})"

definition schema_ok :: "int \<Rightarrow> Database \<Rightarrow> bool" where
  "schema_ok version d \<longleftrightarrow>
     sd_version d = version \<and> 0 \<le> version \<and> version \<le> 2 \<and> \<not> objects_conflict version (sd_objects d) \<and>
     (if object_type (sd_objects d) goose_table = [] then version < 2
      else object_type (sd_objects d) goose_table = ''table'' \<and> ledger_ok version (sd_history d))"

abbreviation quiet_check :: check_turn where
  "quiet_check \<equiv> \<lparr>ck_version = None, ck_objects = None, ck_history = None\<rparr>"

lemma history_scan_Some:
  "history_scan seen highest history = Some (seen', highest') \<longleftrightarrow>
     list_all (\<lambda>(v, applied). applied \<and> 0 \<le> v \<and> v \<le> schemaVersion) history \<and> distinct (map fst history) \<and>
     set (map fst history) \<inter> set seen = {} \<and> seen' = rev (map fst history) @ seen \<and> highest' = foldl max highest (map fst history)"
  by (induction seen highest history rule: history_scan.induct) auto

lemma foldl_max_ge: "(n :: int) \<le> foldl max n vs \<and> (\<forall>v \<in> set vs. v \<le> foldl max n vs)"
proof (induction vs arbitrary: n)
  case (Cons v vs)
  from Cons.IH [of "max n v"] show ?case by auto
qed simp

lemma foldl_max_in: "foldl max (n :: int) vs \<in> insert n (set vs)"
proof (induction vs arbitrary: n)
  case (Cons v vs)
  from Cons.IH [of "max n v"] show ?case by (auto simp: max_def split: if_splits)
qed simp

lemma foldl_max_atMost: "0 \<le> h \<Longrightarrow> set vs = {0..h} \<Longrightarrow> foldl max 0 vs = (h :: int)"
  using foldl_max_ge [of 0 vs] foldl_max_in [of 0 vs] by force

lemma history_conflict_iff:
  assumes "0 \<le> version" and "version \<le> 2"
  shows "\<not> history_conflict version history \<longleftrightarrow> ledger_ok version history"
proof
  assume "\<not> history_conflict version history"
  then obtain seen highest where scan: "history_scan [] 0 history = Some (seen, highest)"
    and all: "list_all (\<lambda>v. v \<in> set seen) [0..highest]" and top: "highest = version \<or> version = 1 \<and> highest = 0"
    by (auto simp: history_conflict_def split: option.splits)
  from scan have h: "list_all (\<lambda>(v, applied). applied \<and> 0 \<le> v \<and> v \<le> schemaVersion) history" "distinct (map fst history)"
    "set seen = set (map fst history)" "highest = foldl max 0 (map fst history)" by (auto simp: history_scan_Some)
  then have "set (map fst history) \<subseteq> {0..highest}" using foldl_max_ge [of 0 "map fst history"] by (fastforce simp: list_all_iff)
  moreover have "{0..highest} \<subseteq> set (map fst history)" using all h(3) by (auto simp: list_all_iff)
  ultimately have "set (map fst history) = {0..highest}" by (rule equalityI)
  with top h(1,2) show "ledger_ok version history" by (auto simp: ledger_ok_def list_all_iff)
next
  assume l: "ledger_ok version history"
  define h where "h = (if set (map fst history) = {0..version} then version else 0)"
  have s: "set (map fst history) = {0..h}" and h: "0 \<le> h" "h \<le> version" "h = version \<or> version = 1 \<and> h = 0"
    using l assms(1) by (auto simp: ledger_ok_def h_def)
  have top: "foldl max 0 (map fst history) = h" by (rule foldl_max_atMost) (use h s in auto)
  have "list_all (\<lambda>(v, applied). applied \<and> 0 \<le> v \<and> v \<le> schemaVersion) history"
  proof (clarsimp simp: list_all_iff)
    fix v a assume va: "(v, a) \<in> set history"
    then have "v \<in> set (map fst history)" by force
    with s h(2) assms(2) l va show "a \<and> 0 \<le> v \<and> v \<le> schemaVersion" by (auto simp: ledger_ok_def list_all_iff schemaVersion_def)
  qed
  then have "history_scan [] 0 history = Some (rev (map fst history), h)" using l top by (simp add: history_scan_Some ledger_ok_def)
  then show "\<not> history_conflict version history" using s h by (auto simp: history_conflict_def list_all_iff)
qed

text \<open>
  Without database errors the preflight accepts exactly the schemas of the program: an empty one,
  the baseline or the current one, each with its tables and nothing in their place, and, where the
  migration library has a ledger, one that lists every version from 0 to the schema's once, all
  applied. (A baseline without a ledger, or with a ledger that was only just created, is adopted.)
  The order in which the rows are read does not matter.
\<close>

theorem checkSchema_exact:
  "checkSchema quiet_check d = Inr version \<longleftrightarrow> schema_ok version d"
  using history_conflict_iff [of "sd_version d" "sd_history d"]
  by (auto simp: checkSchema_def Let_def bindR_def schemaObjects_def schema_ok_def schemaVersion_def)

section \<open>The migration library\<close>

text \<open>
  What is relied on: the ledger is created with version 0, then the migrations whose version it does
  not list run in order, each in one transaction with its ledger row, until one fails. The run may
  end with an error before the ledger exists and after any migration.
\<close>

definition init_ledger :: "Database \<Rightarrow> Database" where
  "init_ledger d =
     (if object_type (sd_objects d) goose_table = []
      then d\<lparr>sd_objects := sd_objects d @ [(goose_table, ''table'')], sd_history := [(0, True)]\<rparr> else d)"

fun run_migrations :: "migration list \<Rightarrow> Database \<Rightarrow> Database \<times> error option" where
  "run_migrations [] d = (d, None)"
| "run_migrations ((version, step) # ms) d =
     (if version \<in> fst ` set (sd_history d) then run_migrations ms d
      else case step d of
             Inl e \<Rightarrow> (d, Some e)
           | Inr d \<Rightarrow> run_migrations ms (d\<lparr>sd_history := sd_history d @ [(version, True)]\<rparr>))"

definition goose_up :: "(migration list \<Rightarrow> Database \<Rightarrow> Database \<times> error option) \<Rightarrow> bool" where
  "goose_up up \<longleftrightarrow>
     (\<forall>ms d. fst (up ms d) = d \<and> snd (up ms d) \<noteq> None \<or>
       (\<exists>k. fst (up ms d) = fst (run_migrations (take k ms) (init_ledger d)) \<and>
         (snd (up ms d) = None \<longrightarrow> take k ms = ms \<and> snd (run_migrations ms (init_ledger d)) = None)))"

section \<open>Interrupted migrations\<close>

text \<open>The rows a database holds; tables that its version does not have yet are empty.\<close>

definition contents :: "Database \<Rightarrow> DB" where
  "contents d =
     \<lparr>accounts_t = (if 1 \<le> sd_version d then accounts_t (sd_data d) else []),
      access_keys_t = (if 1 \<le> sd_version d then access_keys_t (sd_data d) else []),
      requests_t = (if 2 \<le> sd_version d then requests_t (sd_data d) else [])\<rparr>"

definition ledgered :: "int \<Rightarrow> Database \<Rightarrow> bool" where
  "ledgered v d \<longleftrightarrow> schema_ok v d \<and> object_type (sd_objects d) goose_table = ''table''"

lemma object_type_append [simp]:
  "object_type (objects @ added) name = (case map_of (rev added) name of None \<Rightarrow> object_type objects name | Some kind \<Rightarrow> kind)"
  by (simp add: object_type_def map_add_def split: option.splits)

lemma object_type_fresh: "name \<notin> fst ` set objects \<Longrightarrow> object_type objects name = []"
  using map_of_eq_None_iff [of "rev objects" name] by (simp add: object_type_def)

lemma create_object_eq: "create_object io name kind d = Inr d' \<Longrightarrow> d' = d\<lparr>sd_objects := sd_objects d @ [(name, kind)]\<rparr>"
  by (simp add: create_object_def split: option.splits if_splits)

lemma set_version_eq: "set_version io v d = Inr d' \<Longrightarrow> d' = d\<lparr>sd_version := v\<rparr>"
  by (simp add: set_version_def split: option.splits)

lemma creating_Inr [simp]: "creating r = Inr d \<longleftrightarrow> r = Inr d"
  by (auto simp: creating_def split: sum.splits)

lemma init_ledgered: "schema_ok v d \<Longrightarrow> ledgered v (init_ledger d) \<and> contents (init_ledger d) = contents d"
  by (auto simp: ledgered_def schema_ok_def init_ledger_def objects_conflict_def ledger_ok_def contents_def split: if_splits)

lemma ledger_versions: "ledgered v d \<Longrightarrow> fst ` set (sd_history d) = {0..v} \<or> v = 1 \<and> fst ` set (sd_history d) = {0}"
  by (simp add: ledgered_def schema_ok_def ledger_ok_def split: if_splits)

lemma pending_baseline:
  fixes S :: "int set"
  assumes "S = {0..v} \<or> v = 1 \<and> S = {0}" and "1 \<notin> S" and "0 \<le> v"
  shows "S = {0} \<and> (v = 0 \<or> v = 1)"
proof -
  have "v < 1" if "S = {0..v}" using assms(2) that by auto
  with assms(1,3) show ?thesis by (cases "S = {0..v}") auto
qed

lemma pending_requests:
  fixes S :: "int set"
  assumes "S = {0..v} \<or> v = 1 \<and> S = {0}" and "1 \<in> S" and "2 \<notin> S"
  shows "S = {0..1} \<and> v = 1"
proof -
  have "S = {0..v}" using assms(1,2) by auto
  moreover from this assms(2,3) have "v = 1" by auto
  ultimately show ?thesis by simp
qed

lemma listed_requests: "(S :: int set) = {0..v} \<or> v = 1 \<and> S = {0} \<Longrightarrow> 2 \<in> S \<Longrightarrow> 2 \<le> v"
  by auto

lemma ledger_append:
  assumes "ledger_ok v history" and "set (map fst history) = {0..w - 1}" and "0 < w"
  shows "ledger_ok w (history @ [(w, True)])"
proof -
  have "insert w {0..w - 1} = {0..w}" using assms(3) by auto
  with assms show ?thesis by (simp add: ledger_ok_def)
qed

lemma adopt_step:
  assumes "ledgered v d" and "1 \<notin> fst ` set (sd_history d)" and "adoptSchema io ios d = Inr d1"
  shows "ledgered 1 (d1\<lparr>sd_history := sd_history d1 @ [(1, True)]\<rparr>) \<and> contents d1 = contents d \<and> v \<le> 1"
proof -
  have "0 \<le> v" using assms(1) by (simp add: ledgered_def schema_ok_def)
  from pending_baseline [OF ledger_versions [OF assms(1)] assms(2) this]
  have v: "v = 0 \<or> v = 1" and h: "set (map fst (sd_history d)) = {0..1 - 1 :: int}" by simp_all
  have l: "ledger_ok 1 (sd_history d @ [(1, True)])"
    by (rule ledger_append [OF _ h]) (use assms(1) in \<open>auto simp: ledgered_def schema_ok_def\<close>)
  from assms(1) have sv: "sd_version d = v" by (simp add: ledgered_def schema_ok_def)
  show ?thesis
  proof (cases "v = 0")
    case True
    with assms(3) sv have "bindR (createSchema ios d) (set_version (nth_io ios 2) 1) = Inr d1"
      by (simp add: adoptSchema_def split: option.splits)
    then obtain x1 x2 where a: "create_object (nth_io ios 0) ''accounts'' ''table'' d = Inr x1"
      and b: "create_object (nth_io ios 1) ''access_keys'' ''table'' x1 = Inr x2"
      and c: "set_version (nth_io ios 2) 1 (x2\<lparr>sd_data := (sd_data x2)\<lparr>accounts_t := [], access_keys_t := []\<rparr>\<rparr>) = Inr d1"
      unfolding createSchema_def bindR_Inr creating_Inr by blast
    have d1: "d1 = d\<lparr>sd_objects := sd_objects d @ [(''accounts'', ''table''), (''access_keys'', ''table'')],
        sd_data := (sd_data d)\<lparr>accounts_t := [], access_keys_t := []\<rparr>, sd_version := 1\<rparr>"
      by (simp add: create_object_eq [OF a] create_object_eq [OF b] set_version_eq [OF c])
    have "object_type (sd_objects d) ''requests'' = []"
      by (rule object_type_fresh) (use assms(1) True in \<open>auto simp: ledgered_def schema_ok_def objects_conflict_def list_ex_iff\<close>)
    then have "\<not> objects_conflict 1 (sd_objects d1)" by (simp add: d1 objects_conflict_def)
    moreover have "object_type (sd_objects d1) goose_table = ''table''" using assms(1) by (simp add: d1 ledgered_def)
    moreover have "contents d1 = contents d" using sv True by (simp add: d1 contents_def)
    ultimately show ?thesis using l True by (simp add: d1 ledgered_def schema_ok_def)
  next
    case False
    with v have v1: "v = 1" by simp
    have d1: "d1 = d" using assms(3) sv unfolding v1 by (simp add: adoptSchema_def split: option.splits)
    have "\<not> objects_conflict 1 (sd_objects d)" "object_type (sd_objects d) goose_table = ''table''"
      using assms(1) unfolding v1 ledgered_def schema_ok_def by blast+
    then show ?thesis using l sv by (simp add: d1 v1 ledgered_def schema_ok_def)
  qed
qed

lemma requests_step:
  assumes "ledgered v d" and "1 \<in> fst ` set (sd_history d)" and "2 \<notin> fst ` set (sd_history d)" and "requestsMigration ios d = Inr d1"
  shows "ledgered 2 (d1\<lparr>sd_history := sd_history d1 @ [(2, True)]\<rparr>) \<and> contents d1 = contents d \<and> v = 1"
proof -
  from assms(1) have sv: "sd_version d = v" by (simp add: ledgered_def schema_ok_def)
  from pending_requests [OF ledger_versions [OF assms(1)] assms(2,3)]
  have v: "v = 1" and h: "set (map fst (sd_history d)) = {0..2 - 1 :: int}" by simp_all
  have l: "ledger_ok 2 (sd_history d @ [(2, True)])"
    by (rule ledger_append [OF _ h]) (use assms(1) in \<open>auto simp: ledgered_def schema_ok_def\<close>)
  define objects where "objects = sd_objects d @ [(''requests'', ''table''), (''requests_finished_at'', ''index''),
      (''requests_key_finished_at'', ''index''), (''requests_account_finished_at'', ''index'')]"
  from assms(4) obtain x1 x2 x3 x4 where a: "create_object (nth_io ios 0) ''requests'' ''table'' d = Inr x1"
    and b: "create_object (nth_io ios 1) ''requests_finished_at'' ''index'' x1 = Inr x2"
    and c: "create_object (nth_io ios 2) ''requests_key_finished_at'' ''index'' x2 = Inr x3"
    and e: "create_object (nth_io ios 3) ''requests_account_finished_at'' ''index'' x3 = Inr x4"
    and f: "set_version (nth_io ios 4) 2 (x4\<lparr>sd_data := (sd_data x4)\<lparr>requests_t := []\<rparr>\<rparr>) = Inr d1"
    unfolding requestsMigration_def bindR_Inr by blast
  have d1: "d1 = d\<lparr>sd_objects := objects, sd_data := (sd_data d)\<lparr>requests_t := []\<rparr>, sd_version := 2\<rparr>"
    by (simp add: create_object_eq [OF a] create_object_eq [OF b] create_object_eq [OF c] create_object_eq [OF e] set_version_eq [OF f] objects_def)
  have kinds: "object_type objects ''requests'' = ''table''" "object_type objects goose_table = object_type (sd_objects d) goose_table"
    "object_type objects ''accounts'' = object_type (sd_objects d) ''accounts''"
    "object_type objects ''access_keys'' = object_type (sd_objects d) ''access_keys''" unfolding objects_def by simp_all
  have old: "\<not> objects_conflict 1 (sd_objects d)" "object_type (sd_objects d) goose_table = ''table''"
    using assms(1) unfolding v ledgered_def schema_ok_def by blast+
  have "\<not> objects_conflict 2 objects" using old(1) by (simp add: objects_conflict_def kinds)
  moreover have "contents d1 = contents d" using sv v by (simp add: d1 contents_def)
  ultimately show ?thesis using l v old by (simp add: d1 ledgered_def schema_ok_def kinds)
qed

lemma contents_history [simp]: "contents (d\<lparr>sd_history := h\<rparr>) = contents d"
  by (simp add: contents_def)

lemma run_ledgered:
  assumes "ledgered v d" and "run_migrations (take k (migration_list t)) d = (d', r)"
  shows "(\<exists>v'\<ge>v. ledgered v' d') \<and> contents d' = contents d \<and> (r = None \<and> 2 \<le> k \<longrightarrow> ledgered 2 d')"
proof -
  let ?a = "adoptSchema (mt_version t) (mt_baseline t)" and ?q = "requestsMigration (mt_requests t)"
  have second: "(\<exists>v'\<ge>w. ledgered v' d') \<and> contents d' = contents c \<and> (r = None \<longrightarrow> ledgered 2 d')"
    if c: "ledgered w c" "1 \<in> fst ` set (sd_history c)" and run: "run_migrations [(2, ?q)] c = (d', r)" for w c
  proof (cases "2 \<in> fst ` set (sd_history c)")
    case True
    from listed_requests [OF ledger_versions [OF c(1)] this] have "2 \<le> w" .
    moreover have "w \<le> 2" using c(1) by (simp add: ledgered_def schema_ok_def)
    ultimately have "w = 2" by simp
    with run True c show ?thesis by auto
  next
    case False
    show ?thesis
    proof (cases "?q c")
      case (Inl e)
      with run False c show ?thesis by auto
    next
      case (Inr c1)
      with run False requests_step [OF c False Inr] show ?thesis by auto
    qed
  qed
  consider (none) "k = 0" | (one) "k = 1" | (both) "2 \<le> k" by linarith
  then show ?thesis
  proof cases
    case none
    with assms show ?thesis by auto
  next
    case one
    show ?thesis
    proof (cases "1 \<in> fst ` set (sd_history d)")
      case True
      with assms one show ?thesis by (auto simp: migration_list_def)
    next
      case False
      show ?thesis
      proof (cases "?a d")
        case (Inl e)
        with assms one False show ?thesis by (auto simp: migration_list_def)
      next
        case (Inr d1)
        with assms one False adopt_step [OF assms(1) False Inr] show ?thesis by (auto simp: migration_list_def)
      qed
    qed
  next
    case both
    then have ms: "take k (migration_list t) = [(1, ?a), (2, ?q)]" by (simp add: migration_list_def)
    show ?thesis
    proof (cases "1 \<in> fst ` set (sd_history d)")
      case True
      with second [OF assms(1) True] assms(2) show ?thesis by (simp add: ms)
    next
      case False
      show ?thesis
      proof (cases "?a d")
        case (Inl e)
        with assms False show ?thesis by (auto simp: ms)
      next
        case (Inr d1)
        let ?c = "d1\<lparr>sd_history := sd_history d1 @ [(1, True)]\<rparr>"
        note step = adopt_step [OF assms(1) False Inr]
        from step have c: "ledgered 1 ?c" by simp
        from assms(2) False Inr have "run_migrations [(2, ?q)] ?c = (d', r)" by (simp add: ms)
        with second [OF c _ this] step obtain v' where "1 \<le> v'" "ledgered v' d'" "contents d' = contents d" "r = None \<longrightarrow> ledgered 2 d'"
          by auto
        with step show ?thesis by (blast intro: order_trans)
      qed
    qed
  qed
qed

lemma checkSchema_quiet: "checkSchema t d = Inr version \<Longrightarrow> schema_ok version d"
  unfolding checkSchema_exact [symmetric]
  by (auto simp: checkSchema_def Let_def bindR_def schemaObjects_def split: option.splits if_splits sum.splits)

lemma up_ledgered:
  assumes "goose_up up" and "schema_ok v d" and "up (migration_list t) d = (d', r)"
  shows "(\<exists>v'\<ge>v. schema_ok v' d') \<and> contents d' = contents d \<and> (r = None \<longrightarrow> schema_ok 2 d')"
proof -
  from assms(1) have "fst (up (migration_list t) d) = d \<and> snd (up (migration_list t) d) \<noteq> None \<or>
      (\<exists>k. fst (up (migration_list t) d) = fst (run_migrations (take k (migration_list t)) (init_ledger d)) \<and>
        (snd (up (migration_list t) d) = None \<longrightarrow> take k (migration_list t) = migration_list t \<and>
           snd (run_migrations (migration_list t) (init_ledger d)) = None))" unfolding goose_up_def by blast
  then consider "d' = d" "r \<noteq> None"
    | (ran) k where "d' = fst (run_migrations (take k (migration_list t)) (init_ledger d))"
        "r = None \<Longrightarrow> take k (migration_list t) = migration_list t \<and> snd (run_migrations (migration_list t) (init_ledger d)) = None"
    using assms(3) by auto
  then show ?thesis
  proof cases
    case 1
    with assms(2) show ?thesis by auto
  next
    case ran
    obtain r' where run: "run_migrations (take k (migration_list t)) (init_ledger d) = (d', r')"
      using ran(1) by (metis prod.collapse)
    from init_ledgered [OF assms(2)] run_ledgered [OF _ run] have l: "\<exists>v'\<ge>v. ledgered v' d'" "contents d' = contents d"
      "r' = None \<and> 2 \<le> k \<Longrightarrow> ledgered 2 d'" by auto
    moreover have "r' = None \<and> 2 \<le> k" if "r = None"
      using ran(2) [OF that] run by (simp add: migration_list_def take_Cons split: nat.splits)
    ultimately show ?thesis by (auto simp: ledgered_def)
  qed
qed

lemma migrate_resumable:
  assumes "goose_up up" and "migrate env t up d = (d', r)"
  shows "(if \<exists>v. schema_ok v d
          then contents d' = contents d \<and> (\<exists>v'. sd_version d \<le> v' \<and> checkSchema quiet_check d' = Inr v')
          else d' = d \<and> r \<noteq> None) \<and>
     (r = None \<longrightarrow> checkSchema quiet_check d' = Inr 2 \<and> (\<exists>accounts. ListAccounts env None (contents d') = Inr accounts))"
proof (cases "checkSchema (mt_before t) d")
  case (Inl e)
  with assms(2) have "d' = d" "r \<noteq> None" by (auto simp: migrate_def)
  then show ?thesis unfolding checkSchema_exact by (auto simp: schema_ok_def)
next
  case (Inr v)
  then have ok: "schema_ok v d" by (rule checkSchema_quiet)
  then have sv: "sd_version d = v" by (simp add: schema_ok_def)
  show ?thesis
  proof (cases "verify_credentials env (mt_list t) v d")
    case (Some e)
    with assms(2) Inr have "d' = d" "r = Some e" by (simp_all add: migrate_def)
    then show ?thesis using ok unfolding checkSchema_exact by (auto simp: schema_ok_def)
  next
    case None
    obtain d1 r1 where up: "up (migration_list t) d = (d1, r1)" by (metis prod.collapse)
    with assms(2) Inr None have d': "d' = d1" and r: "r = None \<Longrightarrow> r1 = None" by (auto simp: migrate_def split: option.splits)
    note l = up_ledgered [OF assms(1) ok up]
    have "\<exists>accounts. ListAccounts env None (contents d) = Inr accounts"
    proof (cases "v = 0")
      case True
      then show ?thesis by (simp add: sv contents_def ListAccounts_def)
    next
      case False
      with ok have "1 \<le> v" by (simp add: schema_ok_def)
      then have "accounts_t (contents d) = accounts_t (sd_data d)" by (simp add: sv contents_def)
      with None False show ?thesis
        by (auto simp: verify_credentials_def ListAccounts_def split: sum.splits option.splits)
    qed
    with l ok r show ?thesis unfolding checkSchema_exact d' by (auto simp: schema_ok_def)
  qed
qed

section \<open>Opening\<close>

lemma Store_Open_cases:
  assumes "Store_Open env t up path cipher d = (d', pools, r)"
  shows "d' = d \<and> pools = [] \<and> r \<noteq> None \<or>
    (\<exists>r'. migrate env (op_migrate t) up d = (d', r') \<and>
      (pools = [] \<and> r \<noteq> None \<or> pools = [Operational, Reports] \<and> r = None \<and> r' = None))"
  using assms
  by (auto simp: Store_Open_def Let_def Store_Close_def close_pool_def errors_Join_def List.map_filter_simps
      split: if_splits option.splits prod.splits sum.splits list.splits)

lemma open_laws:
  assumes "goose_up up" and "Store_Open env t up path cipher d = (d', pools, r)"
  shows "(if \<exists>v. schema_ok v d
          then contents d' = contents d \<and> (\<exists>v'. sd_version d \<le> v' \<and> checkSchema quiet_check d' = Inr v')
          else d' = d \<and> r \<noteq> None) \<and>
     (case r of
        Some _ \<Rightarrow> pools = []
      | None \<Rightarrow> pools = [Operational, Reports] \<and> checkSchema quiet_check d' = Inr 2 \<and>
                 (\<exists>accounts. ListAccounts env None (contents d') = Inr accounts))"
  using Store_Open_cases [OF assms(2)]
proof (elim disjE exE conjE)
  assume "d' = d" "pools = []" "r \<noteq> None"
  then show ?thesis by (auto simp: checkSchema_exact schema_ok_def)
next
  fix r' assume m: "migrate env (op_migrate t) up d = (d', r')" and "pools = []" "r \<noteq> None"
  with migrate_resumable [OF assms(1) m] show ?thesis by (auto split: if_splits)
next
  fix r' assume m: "migrate env (op_migrate t) up d = (d', r')" and "pools = [Operational, Reports]" "r = None" "r' = None"
  with migrate_resumable [OF assms(1) m] show ?thesis by (auto split: if_splits)
qed

text \<open>
  C9. However opening the store ends (an unreadable database, a refused schema, credentials that do not
  decrypt, a failure or a crash before, between or after the migrations, a failing pool), the rows stored
  are those from before and the file again passes the preflight at the same or a later version, so
  opening can be retried; a schema that is not the program's is left untouched. An error leaves no pool
  open. Success means both pools, the current schema and that every stored account decrypts.
\<close>

theorem open_resumable:
  assumes "goose_up up" and "Store_Open env t up path cipher d = (d', pools, r)"
  shows "(if \<exists>v. schema_ok v d
          then contents d' = contents d \<and> (\<exists>v'. sd_version d \<le> v' \<and> checkSchema quiet_check d' = Inr v')
          else d' = d \<and> r \<noteq> None) \<and>
     (case r of
        Some _ \<Rightarrow> pools = []
      | None \<Rightarrow> pools = [Operational, Reports] \<and> checkSchema quiet_check d' = Inr 2 \<and>
                 (\<exists>accounts. ListAccounts env None (contents d') = Inr accounts))"
  by (rule open_laws [OF assms])

text \<open>A library of the required kind and a new file: opening creates the schema. A later crash is resumed.\<close>

definition direct_up :: "migration list \<Rightarrow> Database \<Rightarrow> Database \<times> error option" where
  "direct_up ms d = run_migrations ms (init_ledger d)"

lemma direct_goose: "goose_up direct_up"
proof -
  have "take (length ms) ms = ms" for ms :: "migration list" by simp
  then show ?thesis unfolding goose_up_def direct_up_def by metis
qed

definition new_file :: Database where
  "new_file = \<lparr>sd_version = 0, sd_objects = [], sd_history = [], sd_data = empty_DB\<rparr>"

definition smooth_open :: "error option \<Rightarrow> open_turn" where
  "smooth_open crash =
     \<lparr>op_dsn = None, op_open = None,
      op_migrate = \<lparr>mt_before = quiet_check, mt_list = None, mt_version = None, mt_baseline = [], mt_requests = [None, None, crash], mt_after = quiet_check\<rparr>,
      op_mode = Inr ''wal'', op_reader = None, op_ping = None, op_closeReader = None, op_closeDB = None\<rparr>"

definition crashed_open :: "Database \<times> pool list \<times> error option" where
  "crashed_open = Store_Open toy_env (smooth_open (Some (PlainErr ''disk full''))) direct_up ''clan.db'' True new_file"

theorem open_resumable_witness:
  "sd_version (fst crashed_open) = 1 \<and> fst (snd crashed_open) = [] \<and>
   (case Store_Open toy_env (smooth_open None) direct_up ''clan.db'' True (fst crashed_open) of
      (d, pools, r) \<Rightarrow> r = None \<and> pools = [Operational, Reports] \<and> checkSchema quiet_check d = Inr 2)"
proof -
  obtain d pools r where first: "crashed_open = (d, pools, r)" by (cases crashed_open)
  obtain d2 pools2 r2 where second: "Store_Open toy_env (smooth_open None) direct_up ''clan.db'' True d = (d2, pools2, r2)"
    by (metis prod_cases3)
  have crash: "sd_version (fst crashed_open) = 1 \<and> snd (snd crashed_open) \<noteq> None" by code_simp
  have again: "snd (snd (Store_Open toy_env (smooth_open None) direct_up ''clan.db'' True (fst crashed_open))) = None" by code_simp
  have "r \<noteq> None" using crash unfolding first by simp
  with open_resumable [OF direct_goose first [unfolded crashed_open_def]] have "pools = []" by (cases r) simp_all
  moreover from open_resumable [OF direct_goose second] again [unfolded first] second
  have "r2 = None \<and> pools2 = [Operational, Reports] \<and> checkSchema quiet_check d2 = Inr 2" by simp
  ultimately show ?thesis using second crash unfolding first by simp
qed

end
