(* ===== verification/AppLaws.thy ===== *)
theory AppLaws
  imports App MigrationLaws ExecutionSafety
begin

text \<open>
  The composition of the program: startup acquires everything or nothing, and the store is closed only
  when nothing that uses it is left.
\<close>

section \<open>Startup\<close>

definition all_resources :: resources where
  "all_resources = \<lparr>rs_pools = [Operational, Reports], rs_listener = True, rs_callback = True, rs_oauth = True, rs_executor = True, rs_retention = True\<rparr>"

lemma closeStartup_none: "set (rs_pools r) \<subseteq> {Operational, Reports} \<Longrightarrow> rs_oauth r \<longrightarrow> rs_callback r \<Longrightarrow> closeStartup r = no_resources"
  by (cases r) (auto simp: closeStartup_def no_resources_def Store_Close_def close_pool_def Let_def filter_empty_conv)

lemma start_components_all:
  assumes "start_components t c (no_resources\<lparr>rs_pools := [Operational, Reports]\<rparr>) = (r, err)"
  shows "if err = None then r = all_resources else r = no_resources"
  using assms
  by (auto simp: start_components_def starting_def closeStartup_none no_resources_def all_resources_def split: option.splits)

text \<open>
  C8. Starting the application is all or nothing, wherever it fails: a success needs a well-formed
  configuration, leaves the database at the current schema with every stored account readable under the
  configured key, and holds both pools, both listeners and all workers; an error leaves no pool,
  listener or worker. In both cases the stored rows are those from before.
\<close>

theorem startup_all_or_nothing:
  assumes "goose_up up" and "newApplication t up c d = (d', r, err)"
  shows "(if err = None
          then r = all_resources \<and> config_wf c \<and> checkSchema quiet_check d' = Inr 2 \<and>
            (\<exists>cipher accounts. su_aead t (cf_encryptionKey c) = Inr cipher \<and>
               ListAccounts ((su_store t)\<lparr>se_cipher := cipher\<rparr>) None (contents d') = Inr accounts)
          else r = no_resources) \<and>
     (d' = d \<or> contents d' = contents d)"
proof (cases "config_validate c = None \<and> su_logger t \<and> su_oauth t = None \<and> su_codex t = None")
  case False
  then show ?thesis using assms(2) by (auto simp: newApplication_def split: option.splits if_splits)
next
  case True
  then have wf: "config_wf c" by (simp add: config_validate_wf config_wf_def)
  then have key: "length (cf_encryptionKey c) = 32" by (simp add: config_wf_def)
  show ?thesis
  proof (cases "su_aead t (cf_encryptionKey c)")
    case (Inl e)
    then show ?thesis using assms(2) True key by (auto simp: newApplication_def Cipher_New_def closeStartup_none no_resources_def)
  next
    case (Inr cipher)
    let ?env = "(su_store t)\<lparr>se_cipher := cipher\<rparr>"
    obtain d1 pools e where o: "Store_Open ?env (su_open t) up (cf_dbPath c) True d = (d1, pools, e)" by (metis prod_cases3)
    note open_ = open_laws [OF assms(1) o]
    then have same: "d1 = d \<or> contents d1 = contents d" by (auto split: if_splits)
    show ?thesis
    proof (cases e)
      case (Some x)
      with open_ have "pools = []" by simp
      with o Some Inr True key assms(2) same show ?thesis
        by (auto simp: newApplication_def Cipher_New_def closeStartup_none no_resources_def)
    next
      case None
      with open_ have p: "pools = [Operational, Reports]" and ok: "checkSchema quiet_check d1 = Inr 2"
        "\<exists>accounts. ListAccounts ?env None (contents d1) = Inr accounts" by simp_all
      from o None Inr True key assms(2) p have d': "d' = d1"
        and start: "start_components t c (no_resources\<lparr>rs_pools := [Operational, Reports]\<rparr>) = (r, err)"
        by (auto simp: newApplication_def Cipher_New_def)
      from start_components_all [OF start] same ok wf Inr show ?thesis unfolding d' by auto
    qed
  qed
qed

definition sample_config :: AppConfig where
  "sample_config =
     \<lparr>cf_listenAddr = ''127.0.0.1:8080'', cf_dbPath = ''./clan.db'', cf_adminToken = ''s3cret'', cf_encryptionKey = replicate 32 CHR ''k'',
      cf_callbackAddr = ''127.0.0.1:1455'', cf_usageRetention = 2160 * Hour\<rparr>"

definition smooth_startup :: "error option \<Rightarrow> startup_turn" where
  "smooth_startup busy =
     \<lparr>su_logger = True, su_oauth = None, su_codex = None, su_aead = (\<lambda>_. Inr (se_cipher toy_env)), su_store = toy_env, su_open = smooth_open None,
      su_listen = None, su_callback = busy, su_manager = None, su_executor = None, su_management = None, su_gateway = None, su_ctx = None\<rparr>"

theorem startup_all_or_nothing_witness:
  "(case newApplication (smooth_startup None) direct_up sample_config new_file of (d, r, err) \<Rightarrow> r = all_resources \<and> err = None) \<and>
   (case newApplication (smooth_startup (Some (PlainErr ''busy''))) direct_up sample_config new_file of (d, r, err) \<Rightarrow> r = no_resources \<and> err \<noteq> None)"
proof -
  let ?n = "\<lambda>busy. newApplication (smooth_startup busy) direct_up sample_config new_file"
  obtain d1 r1 e1 where n1: "?n None = (d1, r1, e1)" by (metis prod_cases3)
  obtain d2 r2 e2 where n2: "?n (Some (PlainErr ''busy'')) = (d2, r2, e2)" by (metis prod_cases3)
  have "snd (snd (?n None)) = None" by code_simp
  then have e1: "e1 = None" by (simp add: n1)
  have "snd (snd (?n (Some (PlainErr ''busy'')))) \<noteq> None" by code_simp
  then obtain x where e2: "e2 = Some x" by (auto simp: n2)
  from startup_all_or_nothing [OF direct_goose n1] startup_all_or_nothing [OF direct_goose n2] show ?thesis by (simp add: n1 n2 e1 e2)
qed

section \<open>Shutdown\<close>

text \<open>From the start of the shutdown on, the requests that are still active are among those waited for.\<close>

definition closing :: "nat list \<Rightarrow> Executor \<Rightarrow> bool" where
  "closing waits e \<longleftrightarrow> exec_inv e \<and> ex_closed e \<and> set (ex_active e) \<subseteq> set waits"

lemma closed_change:
  "ex_closed e \<Longrightarrow> change env io ctx persist concerns accounts e = (e', res) \<Longrightarrow> e' = e"
  by (simp add: change_def)

lemma closing_step: "exec_step env e e' \<Longrightarrow> closing waits e \<Longrightarrow> closing waits e'"
proof -
  assume step: "exec_step env e e'" and c: "closing waits e"
  have "ex_closed e' \<and> set (ex_active e') \<subseteq> set (ex_active e)" if "ex_closed e" using step that
  proof (induction rule: exec_step.induct)
    case (es_admit sha io ctx1 ctx2 now key info model e e' res)
    then show ?case by (simp add: admit_def Let_def)
  next
    case (es_register io r c e e' err)
    then show ?case by (auto simp: registerAccount_def upd_request_def split: sum.splits if_splits option.splits)
  next
    case (es_select clock model cs tried e e' sel)
    then show ?case using selectAccount_frame [OF es_select(1)] by simp
  next
    case (es_sync io ctx e e' err)
    then show ?case using syncCatalog_frame [OF es_sync(1)] by simp
  next
    case (es_close e e' waits)
    then show ?case by (auto simp: Executor_Close_def Let_def cancel_all_def)
  next
    case (es_note now r i err e)
    then show ?case by (simp add: noteFailure_frame)
  qed (auto simp: upd_request_def finish_release_def Let_def RevokeKey_def SetConcurrency_def Executor_DisableAccount_def
      Executor_EnableAccount_def Executor_DeleteAccount_def dest: closed_change)
  with c exec_step_inv [OF step] show "closing waits e'" by (auto simp: closing_def)
qed

interpretation closing_sys: invariant_system "closing waits" "exec_step env" "closing waits" for waits env
  by unfold_locales (auto intro: closing_step)

lemma cancelRequests_steps: "exec_steps env e (cancelRequests e)"
proof -
  have "exec_steps env e (fold (\<lambda>r. upd_request r (cancel_request Canceled)) rs e)" for rs
  proof (induction rs arbitrary: e)
    case (Cons r rs)
    have "exec_step env e (upd_request r (cancel_request Canceled) e)" by (rule es_cancel)
    with Cons show ?case by (simp add: converse_rtranclp_into_rtranclp)
  qed simp
  then show ?thesis by (simp add: cancelRequests_def)
qed

lemma shutdown_begin_closing:
  assumes "exec_inv (ap_exec a)" and "shutdown_begin a = (e, waits)"
  shows "closing waits e"
proof -
  obtain e1 where cl: "Executor_Close (cancelRequests (ap_exec a)) = (e1, waits)" and e: "e = set_mgr (stop_begin (ex_mgr e1)) e1"
    using assms(2) by (auto simp: shutdown_begin_def Let_def split: prod.splits)
  have "exec_inv (cancelRequests (ap_exec a))" by (rule exec_sys.inv_steps [OF cancelRequests_steps assms(1)])
  from close_inv [OF this cl] have "exec_inv e1" .
  moreover have "ex_closed e1" "ex_active e1 = waits" using cl by (auto simp: Executor_Close_def Let_def cancel_all_def)
  ultimately show ?thesis by (auto simp: closing_def e set_mgr_def exec_inv_def holders_def)
qed

text \<open>
  C7. The store outlives everything that uses it: however the shutdown of a reachable application ends
  and whatever runs beside it, the pools are closed only when the executor is closed and has no active
  request and no catalog job, the OAuth manager has no job and no refresh state, HTTP serving and the
  retention worker have stopped; in particular a shutdown without an error. And no request is admitted
  from then on.
\<close>

theorem store_closed_last:
  assumes "reachable start_exec (exec_step env) (ap_exec a)" and "shutdown_begin a = (e, waits)"
    and "exec_steps env e (sd_during t e)" and "shutdown t a = (a', r)"
  shows "(ap_pools a' = ap_pools a \<and> r \<noteq> None \<or>
      ap_pools a' = [] \<and> ex_closed (ap_exec a') \<and> ex_active (ap_exec a') = [] \<and> cat_jobs (ex_catalog (ap_exec a')) = [] \<and>
      mg_jobs (ex_mgr (ap_exec a')) = [] \<and> mg_refreshes (ex_mgr (ap_exec a')) = Map.empty \<and> \<not> ap_serving a' \<and> \<not> ap_retention a') \<and>
    (\<forall>sha io ctx1 ctx2 now rawKey info model. snd (admit sha io ctx1 ctx2 now rawKey info model (ap_exec a')) = Inl (Sentinel ErrClosed))"
proof -
  have "closing waits (sd_during t e)"
    by (rule closing_sys.inv_steps [OF assms(3) shutdown_begin_closing [OF exec_sys.inv_reachable [OF assms(1)] assms(2)]])
  then have inv: "exec_inv (sd_during t e)" and closed: "ex_closed (sd_during t e)" and sub: "set (ex_active (sd_during t e)) \<subseteq> set waits"
    by (auto simp: closing_def)
  have quiet: "ex_active (sd_during t e) = []" if "executor_closed waits (sd_during t e)"
  proof (rule ccontr)
    assume "ex_active (sd_during t e) \<noteq> []"
    then obtain r where "r \<in> set (ex_active (sd_during t e))" by (cases "ex_active (sd_during t e)") auto
    with exec_invD(3) [OF inv this] sub that show False by (auto simp: executor_closed_def request_ok_def list_all_iff)
  qed
  have m: "mg_jobs (stop_end m) = mg_jobs m \<and> mg_refreshes (stop_end m) = Map.empty" for m
    by (simp add: stop_end_def Let_def upd_login_def split: option.splits)
  have pools: "fst (Store_Close x y ps) = []" for x y ps
    by (auto simp: Store_Close_def close_pool_def filter_empty_conv) (metis pool.exhaust)
  have exec: "ex_closed (ap_exec a')" using assms(2,4) closed
    by (auto simp: shutdown_def Let_def set_mgr_def split: option.splits if_splits prod.splits)
  then have "snd (admit sha io ctx1 ctx2 now rawKey info model (ap_exec a')) = Inl (Sentinel ErrClosed)" for sha io ctx1 ctx2 now rawKey info model
    by (simp add: admit_def Let_def)
  moreover have "ap_pools a' = ap_pools a \<and> r \<noteq> None \<or>
      ap_pools a' = [] \<and> ex_closed (ap_exec a') \<and> ex_active (ap_exec a') = [] \<and> cat_jobs (ex_catalog (ap_exec a')) = [] \<and>
      mg_jobs (ex_mgr (ap_exec a')) = [] \<and> mg_refreshes (ex_mgr (ap_exec a')) = Map.empty \<and> \<not> ap_serving a' \<and> \<not> ap_retention a'"
    using assms(2,4) closed quiet m pools [of "sd_reader t" "sd_db t" "ap_pools a"]
    by (auto simp: shutdown_def Let_def set_mgr_def executor_closed_def split: option.splits if_splits prod.splits)
  ultimately show ?thesis by simp
qed

text \<open>An application that serves one request when the shutdown begins; the request ends meanwhile, or not.\<close>

definition busy_app :: application where
  "busy_app = (started empty_DB)\<lparr>ap_exec := fst shop_registered\<rparr>"

definition stopping :: "(Executor \<Rightarrow> Executor) \<Rightarrow> shutdown_turn" where
  "stopping during = \<lparr>sd_http = None, sd_during = during, sd_expired = (False, False), sd_oauth = None, sd_reader = None, sd_db = None\<rparr>"

theorem store_closed_last_witness:
  "(case shutdown (stopping (finish_release 0)) busy_app of (a, r) \<Rightarrow> r = None \<and> ap_pools a = [] \<and> ex_active (ap_exec a) = []) \<and>
   (case shutdown (stopping id) busy_app of (a, r) \<Rightarrow> r \<noteq> None \<and> ap_pools a = [Operational, Reports] \<and> ex_active (ap_exec a) = [0])"
proof -
  obtain e waits where begin_: "shutdown_begin busy_app = (e, waits)" by (metis prod.collapse)
  have "fst (shutdown_begin busy_app) = e" by (simp add: begin_)
  moreover have "ex_active (fst (shutdown_begin busy_app)) = [0]" by code_simp
  ultimately have act: "ex_active e = [0]" by simp
  have reach: "reachable start_exec (exec_step toy_env) (ap_exec busy_app)" using shop_serving by (simp add: busy_app_def)
  have steps: "exec_steps toy_env e (sd_during (stopping (finish_release 0)) e)"
    using exec_step.es_release [of 0 e toy_env] act by (simp add: stopping_def r_into_rtranclp)
  obtain a r where run: "shutdown (stopping (finish_release 0)) busy_app = (a, r)" by (metis prod.collapse)
  have "snd (shutdown (stopping (finish_release 0)) busy_app) = None" by code_simp
  then have r: "r = None" by (simp add: run)
  from store_closed_last [OF reach begin_ steps run] r have "ap_pools a = [] \<and> ex_active (ap_exec a) = []" by simp
  moreover have "snd (shutdown (stopping id) busy_app) \<noteq> None \<and> ap_pools (fst (shutdown (stopping id) busy_app)) = [Operational, Reports] \<and>
      ex_active (ap_exec (fst (shutdown (stopping id) busy_app))) = [0]" by code_simp
  ultimately show ?thesis by (simp add: run r case_prod_beta)
qed

end
