(* ===== verification/CodexSetup.thy ===== *)
theory CodexSetup
  imports OAuthClient
begin

text \<open>
  \<open>NewClient\<close> and the request headers of \<open>internal/codex/client.go\<close>. \<open>url.Parse\<close> is a parameter; of an
  HTTP transport only the settings that the constructor reads or writes are modelled.
\<close>

section \<open>Configuration\<close>

definition DefaultBaseURL :: string where "DefaultBaseURL = ''https://chatgpt.com/backend-api/codex''"

record base_url =
  bu_Scheme :: string
  bu_Host :: string
  bu_User :: bool
  bu_RawQuery :: string
  bu_Fragment :: string

text \<open>A dialer of the caller, or the one installed here with its timeout and keep-alive.\<close>

datatype dialer = CallerDialer | NetDialer duration duration

record Transport =
  tr_DialContext :: "dialer option"
  tr_Dial :: bool \<comment> \<open>the legacy \<open>Dial\<close> is set\<close>
  tr_TLSHandshakeTimeout :: duration

datatype RoundTripper = StandardTransport Transport | OtherTransport

text \<open>\<open>http.DefaultTransport\<close>, used when the client names none.\<close>

definition DefaultTransport :: RoundTripper where
  "DefaultTransport = StandardTransport \<lparr>tr_DialContext = Some (NetDialer (30 * Second) (30 * Second)), tr_Dial = False,
     tr_TLSHandshakeTimeout = 10 * Second\<rparr>"

record codex_Client =
  cc_baseURL :: string
  cc_version :: string
  cc_Transport :: RoundTripper
  cc_follows_redirects :: bool

definition bounded_transport :: "RoundTripper \<Rightarrow> RoundTripper" where
  "bounded_transport transport =
     (case transport of
        OtherTransport \<Rightarrow> OtherTransport
      | StandardTransport cloned \<Rightarrow>
          (let cloned = (if tr_DialContext cloned = None \<and> \<not> tr_Dial cloned
                         then cloned\<lparr>tr_DialContext := Some (NetDialer (30 * Second) (30 * Second))\<rparr> else cloned);
               cloned = (if tr_TLSHandshakeTimeout cloned \<le> 0 then cloned\<lparr>tr_TLSHandshakeTimeout := 10 * Second\<rparr> else cloned)
           in StandardTransport cloned))"

text \<open>\<open>client\<close> is \<open>None\<close> for a missing HTTP client, and otherwise its transport, if any.\<close>

definition codex_NewClient ::
  "(string \<Rightarrow> base_url option) \<Rightarrow> RoundTripper option option \<Rightarrow> string \<Rightarrow> string \<Rightarrow> codex_Client result" where
  "codex_NewClient parse client baseURL clientVersion =
     (case client of
        None \<Rightarrow> Inl (PlainErr ''codex: HTTP client is required'')
      | Some transport \<Rightarrow>
          (let baseURL = (if baseURL = [] then DefaultBaseURL else baseURL);
               invalid_base = Inl (PlainErr ''codex: invalid base URL'') in
           case parse baseURL of
             None \<Rightarrow> invalid_base
           | Some u \<Rightarrow>
               if bu_Host u = [] \<or> bu_Scheme u \<noteq> ''https'' \<and> bu_Scheme u \<noteq> ''http'' then invalid_base
               else if bu_User u \<or> bu_RawQuery u \<noteq> [] \<or> bu_Fragment u \<noteq> [] then invalid_base
               else if blank clientVersion \<or> ContainsAny clientVersion [CHR 0x0D, CHR 0x0A]
                 then Inl (PlainErr ''codex: client version is required'')
               else Inr \<lparr>cc_baseURL = TrimRight_slash baseURL, cc_version = clientVersion,
                         cc_Transport = bounded_transport (case transport of None \<Rightarrow> DefaultTransport | Some t \<Rightarrow> t),
                         cc_follows_redirects = False\<rparr>))"

section \<open>Requests\<close>

text \<open>The URL and headers of an attempt; a later \<open>Set\<close> of a header replaces the earlier one.\<close>

definition request_url :: "codex_Client \<Rightarrow> string \<Rightarrow> string" where
  "request_url c path = cc_baseURL c @ path"

definition request_headers :: "codex_Client \<Rightarrow> string \<Rightarrow> OAuthCredentials \<Rightarrow> string \<rightharpoonup> string" where
  "request_headers c method cr =
     (let h = [''Authorization'' \<mapsto> ''Bearer '' @ AccessToken cr,
               ''ChatGPT-Account-Id'' \<mapsto> ChatGPTAccountID cr,
               ''Originator'' \<mapsto> ''clan'', ''User-Agent'' \<mapsto> ''clan/'' @ cc_version c, ''Accept'' \<mapsto> ''application/json'']
      in if method = ''POST'' then h(''Content-Type'' \<mapsto> ''application/json'', ''Accept'' \<mapsto> ''text/event-stream'') else h)"

section \<open>Laws\<close>

text \<open>
  Every client that the constructor accepts never follows a redirect (so the token goes to the configured
  address only), bounds the set-up of its connections unless the caller supplied the transport or the
  dialer, and has a version that cannot break a header line.
\<close>

definition transport_bounded :: "RoundTripper \<Rightarrow> bool" where
  "transport_bounded t = (case t of OtherTransport \<Rightarrow> True
     | StandardTransport s \<Rightarrow> tr_TLSHandshakeTimeout s > 0 \<and> (tr_DialContext s \<noteq> None \<or> tr_Dial s))"

lemma codex_NewClient_ok:
  assumes "codex_NewClient parse client baseURL clientVersion = Inr c"
  shows "\<not> cc_follows_redirects c \<and> transport_bounded (cc_Transport c) \<and> \<not> HasSuffix (cc_baseURL c) ''/'' \<and> \<not> blank (cc_version c) \<and>
    set (cc_version c) \<inter> {CHR 0x0A, CHR 0x0D} = {}"
proof -
  have slash: "\<not> HasSuffix (TrimRight_slash s) ''/''" for s
  proof
    assume "HasSuffix (TrimRight_slash s) ''/''"
    then obtain xs where "TrimRight_slash s = xs @ ''/''" by (metis HasSuffix_def append_take_drop_id)
    then have "dropWhile (\<lambda>c. c = CHR ''/'') (rev s) = CHR ''/'' # rev xs" by (simp add: TrimRight_slash_def rev_swap)
    then show False using hd_dropWhile [of "\<lambda>c. c = CHR ''/''" "rev s"] by auto
  qed
  have bound: "transport_bounded (bounded_transport t)" for t
    by (auto simp: transport_bounded_def bounded_transport_def Let_def split: RoundTripper.splits)
  show ?thesis using assms slash bound
    by (auto simp: codex_NewClient_def Let_def ContainsAny_def list_ex_iff split: option.splits if_splits)
qed

end
