(* ===== verification/Spec2Isabelle.thy ===== *)
theory Spec2Isabelle
  imports RoundRobin Limiter Retry AccessKey StoreRefinement RequestLaws RequestBody StreamLaws CatalogLaws OAuthRefresh OAuthLogin AttemptLaws GatewaySafety AdminLaws AppLaws CodexSetup
begin

text \<open>
  A verification development of CLAN, a gateway that lets the holders of client keys use a pool of
  ChatGPT accounts through one Responses API. This theory imports all others and holds this guide.

  \<^bold>\<open>The program.\<close> A client request enters \<open>internal/gateway\<close>, is validated by \<open>internal/codex\<close>
  (\<open>request.go\<close>, \<open>input.go\<close>, \<open>controls.go\<close>), and is admitted by \<open>internal/execution\<close>: the key's hash
  is looked up in \<open>internal/storage\<close>, and a slot of the key is taken from \<open>internal/concurrency\<close>. The
  executor asks the model catalog (\<open>codex/catalog.go\<close>) which accounts serve the model, lets
  \<open>internal/selection\<close> choose one that is not cooling down, obtains current credentials from the OAuth
  manager (\<open>internal/codexoauth\<close>), which refreshes and stores them, and opens an upstream stream
  (\<open>codex/client.go\<close>, \<open>codex/stream.go\<close>). A failure that is safe to retry moves on to another account.
  The stream is delivered to the client, the slot is given back and an accounting record is stored.
  The administrator uses \<open>internal/management\<close> to create, change and revoke keys and accounts and to
  read usage; each change goes through the executor, which cancels the requests it concerns.
  \<open>internal/app\<close> reads the configuration, opens the store, starts and stops all of this.

  \<^bold>\<open>Theories and sources\<close>, each component before those that call it; a definition has the name of the Go
  function or type it translates, with a suffix or a qualifier where HOL has the name already.

  \<^item> \<open>Clan_Prelude\<close>: the parts of \<open>strings\<close>, \<open>strconv\<close> and \<open>time\<close> in use; reachable states and the locale
    \<open>invariant_system\<close>, tables and the locale \<open>keyed_update\<close>. \<open>Clan_Errors\<close>: error trees, \<open>errors.Is\<close> and
    \<open>errors.As\<close>. \<open>Base64\<close>: \<open>encoding/base64\<close> (locale \<open>base64_alphabet\<close>). \<open>Json\<close>: decoded JSON values.
  \<^item> \<open>Account\<close>, \<open>AccessKey\<close>, \<open>Retry\<close>, \<open>CredentialCipher\<close>, \<open>RoundRobin\<close> (locale \<open>account_selector\<close>) and
    \<open>Limiter\<close> (locale \<open>slot_limiter\<close>): the packages \<open>account\<close>, \<open>accesskey\<close>, \<open>retry\<close>, \<open>credentialcipher\<close>,
    \<open>selection\<close>, \<open>concurrency\<close>.
  \<^item> \<open>Storage\<close> and \<open>Requests\<close>: the statements of \<open>storage/account.go\<close>, \<open>accesskey.go\<close> and \<open>requests.go\<close>, with
    \<open>usage/usage.go\<close> and the loop of \<open>app/retention.go\<close>. \<open>StoreSpec\<close> is the contract of accounts and keys as
    operations on finite mappings, with the locales \<open>data_refinement\<close> and \<open>initial_refinement\<close>.
    \<open>Migrations\<close>: \<open>storage/migrations.go\<close>, and \<open>Open\<close> and \<open>Close\<close> of \<open>storage/storage.go\<close>.
  \<^item> \<open>CodexRequest\<close>: the request validators. \<open>CodexClient\<close> and \<open>CodexSetup\<close>: \<open>codex/client.go\<close>.
    \<open>CodexStream\<close>: \<open>codex/stream.go\<close>. \<open>Catalog\<close>: \<open>codex/catalog.go\<close>.
  \<^item> \<open>OAuthClient\<close>: \<open>codexoauth/client.go\<close>. \<open>OAuthManager\<close>: \<open>codexoauth/manager.go\<close> and \<open>login.go\<close>.
  \<^item> \<open>Execution\<close>: \<open>execution/execution.go\<close>, \<open>catalog.go\<close>, \<open>log.go\<close>. \<open>Attempts\<close>: \<open>attempt.go\<close>,
    \<open>management.go\<close>, \<open>stream.go\<close>.
  \<^item> \<open>Gateway\<close> and \<open>GatewayHandlers\<close>: \<open>internal/gateway\<close>. \<open>Management\<close>, \<open>UsageApi\<close> and \<open>AdminApi\<close>:
    \<open>internal/management\<close> (handlers, usage, routes).
  \<^item> \<open>AppConfig\<close>: \<open>app/config.go\<close>. \<open>App\<close>: \<open>app/app.go\<close> and the worker of \<open>app/retention.go\<close>.

  The state of a component is a record with the fields of its Go struct. Objects the code compares by
  pointer (requests, slots, refresh jobs, logins, catalog entries) live in append-only lists, and a pointer
  is an index or a number of allocation. A Go map is a HOL map where its order does not matter and an
  association list where \<open>range\<close> visits it, with the order as a parameter. A body that runs under a
  mutex is one step. What other goroutines do while a function holds no lock is a function in its list
  of turns, or a step of the interleaving relations \<open>limiter_step\<close>, \<open>catalog_step\<close>, \<open>stream_step\<close>,
  \<open>oauth_step\<close>, \<open>db_step\<close> and \<open>exec_step\<close>. Errors are values of \<open>error\<close>, and every call of the driver, the
  network or a context has its error as an argument, so that every early return is a branch.
  Integers that can leave their width wrap or are range-checked as in the source (\<open>wrap64\<close>, \<open>ParseUint\<close>,
  SQLite's \<open>SUM\<close>, duration arithmetic); instants are nanoseconds since the zero time.
\<close>

text \<open>
  \<^bold>\<open>What the lemmas show.\<close>

  \<^item> \<open>Limiter\<close>, \<open>RoundRobin\<close>: counts are the outstanding slots, whatever is released twice; selection is the
    next account in circular order and is fair.
  \<^item> \<open>StorageLaws\<close>, \<open>StoreRefinement\<close>, \<open>RequestLaws\<close>: every reachable store decodes and lists in order; a
    write based on a stale snapshot conflicts; enabling converges; the tables answer like the mappings of
    \<open>StoreSpec\<close>; accounting rows read back, are summed once each, and expire exactly.
  \<^item> \<open>MigrationLaws\<close>: which databases pass the check, and that every prefix of the migrations passes it
    again, so that an interrupted start can be resumed and stored rows are kept.
  \<^item> \<open>RequestParsing\<close>, \<open>RequestOrder\<close>, \<open>RequestBody\<close>: the body sent upstream, its independence from map order,
    and that it uses only what the model supports. \<open>CodexClient\<close>: an attempt is safe to retry only if nothing
    was sent or the rejection is complete. \<open>StreamLaws\<close>: a stream that ends without an error holds a final
    response, and provider texts are replaced. \<open>CatalogLaws\<close>: a snapshot shows what was fetched for the
    current identity of enabled accounts.
  \<^item> \<open>OAuthLaws\<close>, \<open>OAuthRefresh\<close>, \<open>OAuthLogin\<close>: credentials handed out were stored and had not expired, one
    job per refresh, a refresh stays within its account, a login moves forward and never saves once canceled.
  \<^item> \<open>ExecutionLaws\<close>, \<open>ExecutionSafety\<close>, \<open>AttemptLaws\<close>: limits are respected in every interleaving, running
    requests are authorized, revocation waits for what it cancels, retries are bounded and on distinct
    accounts, a request ends once.
  \<^item> \<open>GatewayLaws\<close>, \<open>GatewaySafety\<close>: client errors come from a fixed table, streamed responses keep their shape,
    every handler gives its slot back. \<open>ManagementLaws\<close>, \<open>AdminLaws\<close>: pages are complete, every answer is of
    its declared type, only the administrator's token has an effect.
  \<^item> \<open>AppConfig\<close>, \<open>AppLaws\<close>: configurations are well-formed; startup is all or nothing; the store is closed last.

  Safety of a component is an invariant of its step relation, proved once in \<open>invariant_system\<close> and
  interpreted there. The contracts between components are the locales named above; each is
  interpreted on the definitions of the program.

  \<^bold>\<open>Bounds.\<close> Loops that may wait or retry without a bound of their own take a list of turns, and
  \<open>None\<close> means that it was used up. Where the loop ends this is proved: \<open>EnableAccount\<close> ends with the first
  turn no other write disturbs, retention within one batch more than a thousandth of the expired rows, a
  walk over the pages with the rows. \<open>open_request\<close> has the source's three attempts. A wait for other
  goroutines (a canceled request, a refresh job, an event of the stream) ends when they do, which is
  theirs to decide, so properties of such calls speak of the turns in which they return.

  \<^bold>\<open>Parameters.\<close> Code outside the repository is an argument: SHA-256, the AEAD (\<open>aead_ok\<close>), \<open>encoding/json\<close>'s
  text (\<open>codec_ok\<close> for stored credentials; JSON values are decoded trees elsewhere), the parsers of
  \<open>net/url\<close>, \<open>mime\<close>, \<open>net/http\<close> dates and \<open>time\<close>, the clock, random values, SQLite's visiting order, the
  migration library (\<open>goose_up\<close>: it applies a prefix of the migrations, all of them if it reports no error),
  the routers, go-sse, and the outcome of every network call. The hypotheses are stated at
  these names, and the witnesses instantiate them with concrete functions.

  \<^bold>\<open>Not modelled.\<close> Log lines and their fields, the process entry \<open>cmd/clan/main.go\<close> (signals and the exit code),
  the callback HTTP server of a login and the pages it serves, the decoding of requests and the OpenAPI
  document of huma, write deadlines, the timer and \<open>AfterFunc\<close> that cancel a context (a context is its
  error when it is read), the text of SQLite statements and of the data source name, and wiping of key
  material from memory. These are I/O around the modelled functions or have no value a property could
  speak of.
\<close>

end
